(* ===== verification/Go_Prelude.thy ===== *)
theory Go_Prelude
  imports Complex_Main "HOL-Library.AList" "HOL-Library.Sublist" "HOL-Library.Char_ord"
    "HOL-Library.List_Lexorder" "HOL-Library.Product_Lexorder" "HOL-Library.Multiset"
    "HOL-Library.Log_Nat" "HOL-Library.Word" "HOL-Library.While_Combinator"
begin

text \<open>
  The part of the Go language and of its standard library that the components share.

  \<^item> Instants are nanoseconds since Go's zero time, durations are nanoseconds; both are
    \<^typ>\<open>int\<close>, the zero \<^verbatim>\<open>time.Time\<close> is 0. \<^verbatim>\<open>Time.Sub\<close> saturates at 64 bits as in Go.
  \<^item> \<^verbatim>\<open>int\<close> and \<^verbatim>\<open>int64\<close> values are \<^typ>\<open>int\<close>, with the two's complement wrap written
    out by \<open>wrap64\<close> wherever the code adds to them.
  \<^item> Go strings are byte strings, one \<^typ>\<open>char\<close> per byte; their order is the bytewise one.
  \<^item> A Go map is an association list with distinct keys: its length is \<^verbatim>\<open>len\<close>, and its
    order is one iteration order of \<^verbatim>\<open>range\<close>. No result relies on a particular order.
  \<^item> \<^verbatim>\<open>sort.Slice\<close> is insertion by the \<^verbatim>\<open>less\<close> function of the call. Go leaves the order of
    elements that compare equal open; no result relies on it.
\<close>

named_theorems store_simps \<open>unfolding rules of the stores' operations\<close>
named_theorems inv_intros \<open>preservation of the stores' invariants\<close>

section \<open>Integers, instants and durations\<close>

type_synonym gotime = int
type_synonym duration = int

definition wrap64 :: "int \<Rightarrow> int" where
  "wrap64 x = (x + 2 ^ 63) mod 2 ^ 64 - 2 ^ 63"

definition int64_max :: int where
  "int64_max = 2 ^ 63 - 1"

definition second :: duration where "second = 1000000000"
definition minute :: duration where "minute = 60 * second"
definition hour :: duration where "hour = 60 * minute"

definition is_zero :: "gotime \<Rightarrow> bool" where
  "is_zero t = (t = 0)"

definition time_sub :: "gotime \<Rightarrow> gotime \<Rightarrow> duration" where
  "time_sub t u = max (- (2 ^ 63)) (min int64_max (t - u))"

lemma wrap64_id: "- (2 ^ 63) \<le> x \<Longrightarrow> x \<le> int64_max \<Longrightarrow> wrap64 x = x"
  by (simp add: wrap64_def int64_max_def)

lemma wrap64_range: "- (2 ^ 63) \<le> wrap64 x \<and> wrap64 x \<le> int64_max"
proof -
  have "0 \<le> (x + 2 ^ 63) mod 2 ^ 64" "(x + 2 ^ 63) mod 2 ^ 64 < (2 ^ 64 :: int)"
    by (rule pos_mod_sign, simp, rule pos_mod_bound, simp)
  thus ?thesis by (simp add: wrap64_def int64_max_def)
qed

lemma wrap64_Suc: "0 \<le> x \<Longrightarrow> x < int64_max \<Longrightarrow> wrap64 (x + 1) = x + 1"
  by (rule wrap64_id) (auto simp: int64_max_def)

lemma time_sub_gt: "0 \<le> d \<Longrightarrow> d < int64_max \<Longrightarrow> (d < time_sub t u) = (d < t - u)"
  by (auto simp: time_sub_def int64_max_def)

section \<open>Maps\<close>

type_synonym ('k, 'v) gomap = "('k \<times> 'v) list"

abbreviation mget :: "('k, 'v) gomap \<Rightarrow> 'k \<Rightarrow> 'v option" where
  "mget m k \<equiv> map_of m k"

abbreviation mput :: "'k \<Rightarrow> 'v \<Rightarrow> ('k, 'v) gomap \<Rightarrow> ('k, 'v) gomap" where
  "mput \<equiv> AList.update"

abbreviation mdel :: "'k \<Rightarrow> ('k, 'v) gomap \<Rightarrow> ('k, 'v) gomap" where
  "mdel \<equiv> AList.delete"

abbreviation mkeys :: "('k, 'v) gomap \<Rightarrow> 'k set" where
  "mkeys m \<equiv> fst ` set m"

abbreviation wf_map :: "('k, 'v) gomap \<Rightarrow> bool" where
  "wf_map m \<equiv> distinct (map fst m)"

declare map_of_eq_Some_iff [simp del]

text \<open>\<open>range\<close> with a deletion of the current key, and \<open>range\<close> with an assignment to it.\<close>

definition mfilter :: "('k \<Rightarrow> 'v \<Rightarrow> bool) \<Rightarrow> ('k, 'v) gomap \<Rightarrow> ('k, 'v) gomap" where
  "mfilter P m = filter (\<lambda>(k, v). P k v) m"

definition mupdate :: "('k \<Rightarrow> 'v \<Rightarrow> 'w) \<Rightarrow> ('k, 'v) gomap \<Rightarrow> ('k, 'w) gomap" where
  "mupdate f m = map (\<lambda>(k, v). (k, f k v)) m"

lemma mput_get [simp]: "mget (mput k v m) k' = (if k' = k then Some v else mget m k')"
  by (simp add: update_conv')

lemma mdel_get [simp]: "mget (mdel k m) k' = (if k' = k then None else mget m k')"
  by (simp add: delete_conv')

lemma mput_wf [simp]: "wf_map m \<Longrightarrow> wf_map (mput k v m)"
  by (rule distinct_update)

lemma mdel_wf [simp]: "wf_map m \<Longrightarrow> wf_map (mdel k m)"
  by (rule distinct_delete)

lemma map_fst_mfilter_subset: "set (map fst (mfilter P m)) \<subseteq> set (map fst m)"
  by (auto simp: mfilter_def)

lemma mfilter_wf [simp]: "wf_map m \<Longrightarrow> wf_map (mfilter P m)"
  unfolding mfilter_def by (rule distinct_map_filter)

lemma mupdate_keys [simp]: "map fst (mupdate f m) = map fst m"
  by (induction m) (auto simp: mupdate_def)

lemma mupdate_get [simp]: "mget (mupdate f m) k = map_option (f k) (mget m k)"
  by (induction m) (auto simp: mupdate_def)

lemma mupdate_length [simp]: "length (mupdate f m) = length m"
  by (simp add: mupdate_def)

lemma mfilter_get: "wf_map m \<Longrightarrow>
  mget (mfilter P m) k = (case mget m k of None \<Rightarrow> None | Some v \<Rightarrow> if P k v then Some v else None)"
proof (induction m)
  case (Cons a m)
  obtain k' v' where a: "a = (k', v')" by (cases a)
  have "k' \<notin> fst ` set m" using Cons.prems a by auto
  hence "mget m k' = None" by (simp add: map_of_eq_None_iff)
  thus ?case using Cons a by (auto simp: mfilter_def split: option.splits)
qed (simp add: mfilter_def)

lemma mfilter_length: "length (mfilter P m) \<le> length m"
  by (simp add: mfilter_def)

lemma mget_in_set: "mget m k = Some v \<Longrightarrow> (k, v) \<in> set m"
  by (rule map_of_SomeD)

lemma mget_iff: "wf_map m \<Longrightarrow> (mget m k = Some v) = ((k, v) \<in> set m)"
  by (rule map_of_eq_Some_iff)

lemma length_mput: "length (mput k v m) = (if mget m k = None then Suc (length m) else length m)"
  by (induction m) auto

lemma length_mdel: "wf_map m \<Longrightarrow>
  length (mdel k m) = (if mget m k = None then length m else length m - 1)"
proof (induction m)
  case (Cons a m)
  obtain k' v' where a: "a = (k', v')" by (cases a)
  have "k' \<notin> fst ` set m" using Cons.prems a by auto
  hence "mget m k' = None" by (simp add: map_of_eq_None_iff)
  moreover have "mget m k \<noteq> None \<Longrightarrow> 0 < length m" by (cases m) auto
  ultimately show ?case using Cons a by (auto simp: delete_simps split: if_splits)
qed simp

lemma mput_set: "wf_map m \<Longrightarrow>
  set (mput k v m) = insert (k, v) {p \<in> set m. fst p \<noteq> k}"
proof -
  assume wf: "wf_map m"
  have "p \<in> set (mput k v m) \<longleftrightarrow> mget (mput k v m) (fst p) = Some (snd p)" for p
    using mget_iff [OF mput_wf [OF wf], of k v "fst p" "snd p"] by simp
  also have "\<dots> p \<longleftrightarrow> p = (k, v) \<or> (fst p \<noteq> k \<and> mget m (fst p) = Some (snd p))" for p
    by (cases p) auto
  finally show ?thesis using mget_iff [OF wf] by auto
qed

lemma mdel_set: "set (mdel k m) = {p \<in> set m. fst p \<noteq> k}"
  by (auto simp: AList.delete_eq)

text \<open>Maps with entries deleted.\<close>

definition submap :: "('k, 'v) gomap \<Rightarrow> ('k, 'v) gomap \<Rightarrow> bool" where
  "submap m' m \<longleftrightarrow> wf_map m' \<and> length m' \<le> length m \<and>
     (\<forall>k v. mget m' k = Some v \<longrightarrow> mget m k = Some v)"

lemma submap_refl: "wf_map m \<Longrightarrow> submap m m"
  by (simp add: submap_def)

lemma submap_trans: "submap m'' m' \<Longrightarrow> submap m' m \<Longrightarrow> submap m'' m"
  unfolding submap_def by (meson order_trans)

lemma submap_mfilter: "wf_map m \<Longrightarrow> submap (mfilter P m) m"
  using mfilter_length [of P m]
  by (auto simp: submap_def mfilter_get split: option.splits if_splits)

lemma submap_mdel: "wf_map m \<Longrightarrow> submap (mdel k m) m"
  by (auto simp: submap_def length_mdel split: if_splits)

lemma submap_None: "submap m' m \<Longrightarrow> mget m k = None \<Longrightarrow> mget m' k = None"
  by (cases "mget m' k") (auto simp: submap_def)

lemma length_le_keys:
  assumes "wf_map m'" and "mkeys m' \<subseteq> mkeys m"
  shows "length m' \<le> length m"
proof -
  have "length m' = card (mkeys m')" using distinct_card [OF assms(1)] by simp
  also have "\<dots> \<le> card (mkeys m)" using assms(2) by (intro card_mono) auto
  also have "\<dots> \<le> length m" using card_length [of "map fst m"] by simp
  finally show ?thesis .
qed

lemma submapI:
  assumes "wf_map m'" and "\<And>k v. mget m' k = Some v \<Longrightarrow> mget m k = Some v"
  shows "submap m' m"
proof -
  have "mkeys m' \<subseteq> mkeys m"
  proof
    fix k assume "k \<in> mkeys m'"
    then obtain v where "mget m' k = Some v" using assms(1) by (auto simp: mget_iff)
    thus "k \<in> mkeys m" using mget_in_set [OF assms(2)] by force
  qed
  thus ?thesis using assms length_le_keys by (auto simp: submap_def)
qed

section \<open>Sorting\<close>

fun insert_by :: "('a \<Rightarrow> 'a \<Rightarrow> bool) \<Rightarrow> 'a \<Rightarrow> 'a list \<Rightarrow> 'a list" where
  "insert_by lt x [] = [x]"
| "insert_by lt x (y # ys) = (if lt y x then y # insert_by lt x ys else x # y # ys)"

definition sortSlice :: "('a \<Rightarrow> 'a \<Rightarrow> bool) \<Rightarrow> 'a list \<Rightarrow> 'a list" where
  "sortSlice lt xs = foldr (insert_by lt) xs []"

lemma mset_insert_by [simp]: "mset (insert_by lt x ys) = add_mset x (mset ys)"
  by (induction ys) auto

lemma mset_sortSlice [simp]: "mset (sortSlice lt xs) = mset xs"
  by (induction xs) (auto simp: sortSlice_def)

lemma set_sortSlice [simp]: "set (sortSlice lt xs) = set xs"
  using mset_eq_setD [OF mset_sortSlice] .

lemma length_sortSlice [simp]: "length (sortSlice lt xs) = length xs"
  using mset_eq_length [OF mset_sortSlice] .

lemma sortSlice_sorted: "sorted_wrt (\<lambda>a b. \<not> lt b a) xs \<Longrightarrow> sortSlice lt xs = xs"
proof (induction xs)
  case (Cons x xs)
  hence "sortSlice lt (x # xs) = insert_by lt x xs" by (simp add: sortSlice_def)
  thus ?case using Cons.prems by (cases xs) auto
qed (simp add: sortSlice_def)

text \<open>What \<^verbatim>\<open>sort.Slice\<close> asks of its \<^verbatim>\<open>less\<close> argument, and what it then gives.\<close>

locale slice_order =
  fixes lt :: "'a \<Rightarrow> 'a \<Rightarrow> bool"
  assumes lt_asym: "lt x y \<Longrightarrow> \<not> lt y x"
    and lt_cotrans: "lt x z \<Longrightarrow> lt x y \<or> lt y z"
begin

lemma insert_by_sorted:
  "sorted_wrt (\<lambda>a b. \<not> lt b a) ys \<Longrightarrow> sorted_wrt (\<lambda>a b. \<not> lt b a) (insert_by lt x ys)"
proof (induction ys)
  case (Cons y ys)
  show ?case
  proof (cases "lt y x")
    case True
    have "set (insert_by lt x ys) = insert x (set ys)"
      by (metis mset_insert_by set_mset_add_mset_insert set_mset_mset)
    thus ?thesis using Cons True lt_asym by auto
  next
    case False
    have "\<not> lt z x" if "z \<in> set ys" for z
      using Cons.prems that False lt_cotrans [of z x y] by auto
    thus ?thesis using Cons.prems False by auto
  qed
qed simp

lemma sorted_slice: "sorted_wrt (\<lambda>a b. \<not> lt b a) (sortSlice lt xs)"
  unfolding sortSlice_def by (induction xs) (auto intro: insert_by_sorted)

end

interpretation key_asc: slice_order "\<lambda>a b. (f a :: 'b :: linorder) < f b" for f
  by unfold_locales auto

interpretation key_desc: slice_order "\<lambda>a b. (f a :: 'b :: linorder) > f b" for f
  by unfold_locales auto

section \<open>Byte strings\<close>

text \<open>
  \<open>ws_runes\<close> are the UTF-8 encodings of the runes \<^verbatim>\<open>unicode.IsSpace\<close> accepts.
  \<open>strip ws\<close> removes a leading member of \<open>ws\<close> as long as there is one.
\<close>

definition ws_runes :: "string list" where
  "ws_runes =
     map (\<lambda>b. [b]) [CHR 0x09, CHR 0x0A, CHR 0x0B, CHR 0x0C, CHR 0x0D, CHR 0x20]
   @ map (\<lambda>b. [CHR 0xC2, b]) [CHR 0x85, CHR 0xA0]
   @ [[CHR 0xE1, CHR 0x9A, CHR 0x80]]
   @ map (\<lambda>b. [CHR 0xE2, CHR 0x80, b])
       [CHR 0x80, CHR 0x81, CHR 0x82, CHR 0x83, CHR 0x84, CHR 0x85, CHR 0x86, CHR 0x87,
        CHR 0x88, CHR 0x89, CHR 0x8A, CHR 0xA8, CHR 0xA9, CHR 0xAF]
   @ [[CHR 0xE2, CHR 0x81, CHR 0x9F], [CHR 0xE3, CHR 0x80, CHR 0x80]]"

fun starts_with :: "string \<Rightarrow> string \<Rightarrow> bool" where
  "starts_with [] s = True"
| "starts_with (c # w) [] = False"
| "starts_with (c # w) (d # s) = (c = d \<and> starts_with w s)"

function strip :: "string list \<Rightarrow> string \<Rightarrow> string" where
  "strip ws s = (case find (\<lambda>w. w \<noteq> [] \<and> starts_with w s) ws of
       None \<Rightarrow> s
     | Some w \<Rightarrow> strip ws (drop (length w) s))"
  by pat_completeness auto

lemma starts_with_prefix: "starts_with w s = prefix w s"
  by (induction w s rule: starts_with.induct) auto

lemma find_strip_shorter:
  "find (\<lambda>w. w \<noteq> [] \<and> starts_with w s) ws = Some w \<Longrightarrow> length (drop (length w) s) < length s"
  by (auto simp: find_Some_iff starts_with_prefix prefix_def)

termination strip
  by (relation "measure (\<lambda>(ws, s). length s)") (auto dest: find_strip_shorter)

declare strip.simps [simp del]

definition trimLeft :: "string \<Rightarrow> string" where
  "trimLeft s = strip ws_runes s"

definition trimRight :: "string \<Rightarrow> string" where
  "trimRight s = rev (strip (map rev ws_runes) (rev s))"

definition trimSpace :: "string \<Rightarrow> string" where
  "trimSpace s = trimRight (trimLeft s)"

lemma strip_suffix: "suffix (strip ws s) s"
proof (induction ws s rule: strip.induct)
  case (1 ws s)
  show ?case
  proof (cases "find (\<lambda>w. w \<noteq> [] \<and> starts_with w s) ws")
    case None
    thus ?thesis by (subst strip.simps) simp
  next
    case (Some w)
    have "suffix (drop (length w) s) s" by (rule suffix_drop)
    thus ?thesis using Some 1 [of w] suffix_order.trans by (subst strip.simps) auto
  qed
qed

lemma strip_free: "w \<in> set ws \<Longrightarrow> w \<noteq> [] \<Longrightarrow> \<not> prefix w (strip ws s)"
proof (induction ws s rule: strip.induct)
  case (1 ws s)
  show ?case
  proof (cases "find (\<lambda>w. w \<noteq> [] \<and> starts_with w s) ws")
    case None
    hence "strip ws s = s" by (subst strip.simps) simp
    thus ?thesis using None 1 by (auto simp: find_None_iff starts_with_prefix)
  next
    case (Some w)
    thus ?thesis using 1 by (subst strip.simps) auto
  qed
qed

lemma strip_id: "(\<And>w. w \<in> set ws \<Longrightarrow> w \<noteq> [] \<Longrightarrow> \<not> prefix w s) \<Longrightarrow> strip ws s = s"
  by (subst strip.simps) (auto simp: find_Some_iff starts_with_prefix split: option.splits)

lemma strip_idem [simp]: "strip ws (strip ws s) = strip ws s"
  by (rule strip_id) (rule strip_free)

lemma trimRight_prefix: "prefix (trimRight s) s"
  using strip_suffix [of "map rev ws_runes" "rev s"]
  by (simp add: trimRight_def suffix_to_prefix)

lemma trimSpace_idem [simp]: "trimSpace (trimSpace s) = trimSpace s"
proof -
  have "trimLeft (trimRight (trimLeft s)) = trimRight (trimLeft s)"
    unfolding trimLeft_def
    by (rule strip_id)
       (metis prefix_order.trans strip_free trimRight_prefix)
  thus ?thesis by (simp add: trimSpace_def trimRight_def)
qed

lemma trimSpace_length: "length (trimSpace s) \<le> length s"
  using strip_suffix [of ws_runes s] trimRight_prefix [of "trimLeft s"]
  by (auto simp: trimSpace_def trimLeft_def dest!: suffix_length_le prefix_length_le)

lemma trimSpace_Nil [simp]: "trimSpace [] = []"
  using trimSpace_length [of "[]"] by simp

section \<open>Searching lists\<close>

lemma find_unique:
  assumes "x \<in> set xs" and "P x" and "\<And>y. y \<in> set xs \<Longrightarrow> P y \<Longrightarrow> y = x"
  shows "find P xs = Some x"
proof (cases "find P xs")
  case None
  thus ?thesis using assms(1,2) by (auto simp: find_None_iff)
next
  case (Some y)
  hence "y \<in> set xs" "P y" by (auto simp: find_Some_iff)
  thus ?thesis using Some assms(3) by simp
qed

end
