(* ===== verification/Domain_Model.thy ===== *)
theory Domain_Model
  imports Go_Prelude
begin

text \<open>
  The data of \<^verbatim>\<open>internal/domain\<close>: one record per struct, in the order of the sources. The
  fields keep their Go names behind a prefix of the struct. A Go \<^verbatim>\<open>map\<close> field is a
  \<^typ>\<open>('k, 'v) gomap\<close>, a nil map is the empty one. The values of \<^verbatim>\<open>map[string]any\<close> are what
  \<^verbatim>\<open>encoding/json\<close> decodes into an interface value; a number is the \<^verbatim>\<open>float64\<close> it decodes
  to, as sign and magnitude.
\<close>

section \<open>Registrations and notifications (models.go)\<close>

record Registration =
  rg_InstallationID :: string
  rg_DeviceSecret :: string
  rg_DeviceSecretHash :: string
  rg_Provider :: string
  rg_FirebaseInstallation :: string
  rg_APNsDeviceToken :: string
  rg_Endpoint :: string
  rg_P256DH :: string
  rg_Auth :: string
  rg_AppVersion :: string
  rg_Platform :: string
  rg_UserID :: string
  rg_UserLogin :: string
  rg_ChannelIDs :: "string list"
  rg_ModeratorChannelIDs :: "string list"
  rg_NotificationRules :: "string list"
  rg_NotificationChannelRules :: "(string, string list) gomap"
  rg_MutedUntilEpochMillis :: "(string, int) gomap"
  rg_HighlightPhrases :: "string list"
  rg_SelectedUserLogins :: "string list"
  rg_UpdatedAt :: gotime

definition empty_Registration :: Registration where
  "empty_Registration = \<lparr> rg_InstallationID = '''', rg_DeviceSecret = '''',
     rg_DeviceSecretHash = '''', rg_Provider = '''', rg_FirebaseInstallation = '''',
     rg_APNsDeviceToken = '''', rg_Endpoint = '''', rg_P256DH = '''', rg_Auth = '''',
     rg_AppVersion = '''', rg_Platform = '''', rg_UserID = '''', rg_UserLogin = '''',
     rg_ChannelIDs = [], rg_ModeratorChannelIDs = [], rg_NotificationRules = [],
     rg_NotificationChannelRules = [], rg_MutedUntilEpochMillis = [],
     rg_HighlightPhrases = [], rg_SelectedUserLogins = [], rg_UpdatedAt = 0 \<rparr>"

record Notification =
  nt_EventID :: string
  nt_Type :: string
  nt_Title :: string
  nt_Body :: string
  nt_ChannelID :: string
  nt_ChannelLogin :: string
  nt_MessageID :: string
  nt_ActorID :: string
  nt_ActorLogin :: string
  nt_ActorDisplayName :: string
  nt_Destination :: string
  nt_Silent :: bool
  nt_CreatedAtEpochMillis :: int

definition empty_Notification :: Notification where
  "empty_Notification = \<lparr> nt_EventID = '''', nt_Type = '''', nt_Title = '''', nt_Body = '''',
     nt_ChannelID = '''', nt_ChannelLogin = '''', nt_MessageID = '''', nt_ActorID = '''',
     nt_ActorLogin = '''', nt_ActorDisplayName = '''', nt_Destination = '''',
     nt_Silent = False, nt_CreatedAtEpochMillis = 0 \<rparr>"

section \<open>EventSub envelopes (eventsub.go)\<close>

datatype any =
    AnyNull
  | AnyBool bool
  | AnyNumber bool rat
  | AnyString string
  | AnyArray "any list"
  | AnyObject "(string \<times> any) list"

type_synonym event = "(string, any) gomap"

record EventSubSubscription =
  su_ID :: string
  su_Type :: string
  su_Version :: string
  su_Status :: string
  su_Condition :: "(string, string) gomap"

record EventSubEnvelope =
  en_Challenge :: string
  en_Subscription :: EventSubSubscription
  en_Event :: event

definition empty_EventSubEnvelope :: EventSubEnvelope where
  "empty_EventSubEnvelope = \<lparr> en_Challenge = '''',
     en_Subscription = \<lparr> su_ID = '''', su_Type = '''', su_Version = '''', su_Status = '''',
                          su_Condition = [] \<rparr>,
     en_Event = [] \<rparr>"

section \<open>Deliveries and the EventSub inbox (delivery.go)\<close>

definition DeliveryStatusPending :: string where "DeliveryStatusPending = ''pending''"
definition DeliveryStatusSent :: string where "DeliveryStatusSent = ''sent''"
definition DeliveryStatusAcked :: string where "DeliveryStatusAcked = ''acked''"
definition DeliveryStatusDead :: string where "DeliveryStatusDead = ''dead''"
definition EventSubInboxStatusPending :: string where "EventSubInboxStatusPending = ''pending''"
definition EventSubInboxStatusDead :: string where "EventSubInboxStatusDead = ''dead''"

definition MaxDeliveryRecords :: nat where "MaxDeliveryRecords = 50000"
definition MaxSeenEventRecords :: nat where "MaxSeenEventRecords = 100000"
definition MaxEventSubInboxRecords :: nat where "MaxEventSubInboxRecords = 100000"

lemmas status_defs = DeliveryStatusPending_def DeliveryStatusSent_def DeliveryStatusAcked_def
  DeliveryStatusDead_def EventSubInboxStatusPending_def EventSubInboxStatusDead_def

record DeliveryRecord =
  dr_ID :: string
  dr_EventID :: string
  dr_InstallationID :: string
  dr_Notification :: Notification
  dr_Status :: string
  dr_AttemptCount :: int
  dr_AvailableAt :: gotime
  dr_ExpiresAt :: gotime
  dr_CreatedAt :: gotime
  dr_SentAt :: gotime
  dr_AckedAt :: gotime
  dr_LastError :: string

definition empty_DeliveryRecord :: DeliveryRecord where
  "empty_DeliveryRecord = \<lparr> dr_ID = '''', dr_EventID = '''', dr_InstallationID = '''',
     dr_Notification = empty_Notification, dr_Status = '''', dr_AttemptCount = 0,
     dr_AvailableAt = 0, dr_ExpiresAt = 0, dr_CreatedAt = 0, dr_SentAt = 0, dr_AckedAt = 0,
     dr_LastError = '''' \<rparr>"

record ChannelNotificationState =
  cs_Title :: string
  cs_CategoryName :: string
  cs_UpdatedAt :: gotime

record EventSubInboxRecord =
  ib_MessageID :: string
  ib_Envelope :: EventSubEnvelope
  ib_Status :: string
  ib_AttemptCount :: int
  ib_AvailableAt :: gotime
  ib_ExpiresAt :: gotime
  ib_ReceivedAt :: gotime
  ib_LastAttemptAt :: gotime
  ib_LastError :: string

definition empty_EventSubInboxRecord :: EventSubInboxRecord where
  "empty_EventSubInboxRecord = \<lparr> ib_MessageID = '''', ib_Envelope = empty_EventSubEnvelope,
     ib_Status = '''', ib_AttemptCount = 0, ib_AvailableAt = 0, ib_ExpiresAt = 0,
     ib_ReceivedAt = 0, ib_LastAttemptAt = 0, ib_LastError = '''' \<rparr>"

record DeliveryDiskState =
  dd_Records :: "(string, DeliveryRecord) gomap"
  dd_Seen :: "(string, gotime) gomap"
  dd_EventSubInbox :: "(string, EventSubInboxRecord) gomap"
  dd_ChannelStates :: "(string, ChannelNotificationState) gomap"

section \<open>Settings snapshots (settings.go)\<close>

definition MaxSettingsSyncHistory :: nat where "MaxSettingsSyncHistory = 20"

record SettingsSyncSnapshot =
  sn_Revision :: int
  sn_UpdatedAt :: gotime
  sn_UpdatedByInstallationID :: string
  sn_AppVersion :: string
  sn_ContentHash :: string
  sn_Payload :: string

definition empty_SettingsSyncSnapshot :: SettingsSyncSnapshot where
  "empty_SettingsSyncSnapshot = \<lparr> sn_Revision = 0, sn_UpdatedAt = 0,
     sn_UpdatedByInstallationID = '''', sn_AppVersion = '''', sn_ContentHash = '''',
     sn_Payload = '''' \<rparr>"

record SettingsSyncUserState =
  us_Current :: "SettingsSyncSnapshot option"
  us_History :: "SettingsSyncSnapshot list"

section \<open>Audit records (audit.go)\<close>

definition MaxAuditRecords :: nat where "MaxAuditRecords = 20000"

record AuditRecord =
  au_ID :: string
  au_Timestamp :: gotime
  au_Action :: string
  au_Status :: string
  au_InstallationID :: string
  au_UserID :: string
  au_ChannelID :: string
  au_EventID :: string
  au_Detail :: string

definition empty_AuditRecord :: AuditRecord where
  "empty_AuditRecord = \<lparr> au_ID = '''', au_Timestamp = 0, au_Action = '''', au_Status = '''',
     au_InstallationID = '''', au_UserID = '''', au_ChannelID = '''', au_EventID = '''',
     au_Detail = '''' \<rparr>"

section \<open>Authentication records (auth.go)\<close>

definition MaxPendingAuthRecords :: nat where "MaxPendingAuthRecords = 10000"
definition MaxAuthHandoffs :: nat where "MaxAuthHandoffs = 10000"
definition MaxAuthSessions :: nat where "MaxAuthSessions = 100000"

record EncryptedValue =
  ev_Nonce :: string
  ev_Ciphertext :: string

record AuthCredentialRecord =
  cr_ID :: string
  cr_ClientID :: string
  cr_UserID :: string
  cr_Login :: string
  cr_Scopes :: "string list"
  cr_AccessToken :: EncryptedValue
  cr_RefreshToken :: EncryptedValue
  cr_AccessExpiresAt :: gotime
  cr_LastValidatedAt :: gotime
  cr_UpdatedAt :: gotime

record AuthCredential =
  ac_ID :: string
  ac_ClientID :: string
  ac_UserID :: string
  ac_Login :: string
  ac_Scopes :: "string list"
  ac_AccessToken :: string
  ac_RefreshToken :: string
  ac_AccessExpiresAt :: gotime
  ac_LastValidatedAt :: gotime
  ac_UpdatedAt :: gotime

record AuthSessionRecord =
  se_CredentialID :: string
  se_InstallationID :: string
  se_DeviceHash :: string
  se_CreatedAt :: gotime
  se_ExpiresAt :: gotime

record PendingAuthRecord =
  pa_InstallationID :: string
  pa_DeviceHash :: string
  pa_AppCallbackURI :: string
  pa_CreatedAt :: gotime
  pa_ExpiresAt :: gotime

record AuthHandoffRecord =
  ho_CredentialID :: string
  ho_InstallationID :: string
  ho_DeviceHash :: string
  ho_AppCallbackURI :: string
  ho_StateHash :: string
  ho_CreatedAt :: gotime
  ho_ExpiresAt :: gotime

record AuthDiskState =
  ad_Credentials :: "(string, AuthCredentialRecord) gomap"
  ad_Sessions :: "(string, AuthSessionRecord) gomap"
  ad_Pending :: "(string, PendingAuthRecord) gomap"
  ad_Handoffs :: "(string, AuthHandoffRecord) gomap"

record AccountRevocationTargets =
  rt_InstallationIDs :: "string list"
  rt_Credentials :: "AuthCredential list"

record AccountRevocationResult =
  rr_RemovedSessions :: int
  rr_RemovedCredentials :: int

section \<open>Errors\<close>

text \<open>
  The sentinel errors of the package, and for an error built from a text with
  \<^verbatim>\<open>errors.New\<close> or \<^verbatim>\<open>fmt.Errorf\<close> its text.
\<close>

datatype err =
    ErrRegistrationNotFound
  | ErrDeviceSecretMismatch
  | ErrSettingsSyncConflict
  | ErrSettingsSyncRevisionNotFound
  | ErrAuthNotFound
  | ErrAuthExpired
  | ErrAuthDeviceMismatch
  | ErrAuthStateMismatch
  | ErrAuthCapacity
  | ErrText string

end
