(* ===== verification/Credentials.thy ===== *)
theory Credentials
  imports Domain_Model
begin

text \<open>
  Hashing, token generation and sealing of secrets: \<^verbatim>\<open>internal/security/credentials.go\<close>, the
  equal helpers of \<^verbatim>\<open>internal/storage/memory/auth_store.go\<close>, and the key decoding of
  \<^verbatim>\<open>internal/config/auth_key.go\<close>. The base64 encodings are computed. SHA-256 is a parameter
  \<open>sha256\<close> from byte strings to byte strings, AES-GCM is a parameter of the record type
  \<open>AEAD\<close>, and \<open>rnd\<close> is what the random source gives, \<^term>\<open>None\<close> being its failure.
\<close>

section \<open>Base64\<close>

definition url_alphabet :: string where
  "url_alphabet = ''ABCDEFGHIJKLMNOPQRSTUVWXYZabcdefghijklmnopqrstuvwxyz0123456789-_''"

definition std_alphabet :: string where
  "std_alphabet = ''ABCDEFGHIJKLMNOPQRSTUVWXYZabcdefghijklmnopqrstuvwxyz0123456789+/''"

fun sextets :: "nat list \<Rightarrow> nat list" where
  "sextets [] = []"
| "sextets [a] = [a div 4, (a mod 4) * 16]"
| "sextets [a, b] = [a div 4, (a mod 4) * 16 + b div 16, (b mod 16) * 4]"
| "sextets (a # b # c # r) =
     (a div 4) # ((a mod 4) * 16 + b div 16) # ((b mod 16) * 4 + c div 64) # (c mod 64) # sextets r"

fun octets :: "nat list \<Rightarrow> nat list option" where
  "octets [] = Some []"
| "octets [w] = None"
| "octets [w, x] = Some [w * 4 + x div 16]"
| "octets [w, x, y] = Some [w * 4 + x div 16, (x mod 16) * 16 + y div 4]"
| "octets (w # x # y # z # r) = (case octets r of
       None \<Rightarrow> None
     | Some bs \<Rightarrow>
         Some ((w * 4 + x div 16) # ((x mod 16) * 16 + y div 4) # ((y mod 4) * 64 + z) # bs))"

definition base64_encode :: "string \<Rightarrow> string \<Rightarrow> string" where
  "base64_encode alphabet s = map (\<lambda>n. alphabet ! n) (sextets (map of_char s))"

fun index_of :: "'a \<Rightarrow> 'a list \<Rightarrow> nat option" where
  "index_of x [] = None"
| "index_of x (y # ys) = (if x = y then Some 0 else map_option Suc (index_of x ys))"

text \<open>The decoder skips carriage returns and line feeds, as Go's does.\<close>

definition base64_decode_raw :: "string \<Rightarrow> string \<Rightarrow> string option" where
  "base64_decode_raw alphabet s =
     (case those (map (\<lambda>c. index_of c alphabet)
              (filter (\<lambda>c. c \<noteq> CHR 0x0A \<and> c \<noteq> CHR 0x0D) s)) of
        None \<Rightarrow> None
      | Some ns \<Rightarrow> map_option (map char_of) (octets ns))"

text \<open>With padding, the length without line breaks is a multiple of four and only the end may
  hold one or two padding characters.\<close>

definition base64_decode_padded :: "string \<Rightarrow> string \<Rightarrow> string option" where
  "base64_decode_padded alphabet s =
     (let t = filter (\<lambda>c. c \<noteq> CHR 0x0A \<and> c \<noteq> CHR 0x0D) s;
          body = rev (dropWhile (\<lambda>c. c = CHR ''='') (rev t))
      in if length t mod 4 \<noteq> 0 \<or> length t - length body > 2 then None
         else base64_decode_raw alphabet body)"

definition rawURL_encode :: "string \<Rightarrow> string" where
  "rawURL_encode s = base64_encode url_alphabet s"

definition rawURL_decode :: "string \<Rightarrow> string option" where
  "rawURL_decode s = base64_decode_raw url_alphabet s"

section \<open>Hashes and comparison\<close>

definition hashSecret :: "(string \<Rightarrow> string) \<Rightarrow> string \<Rightarrow> string" where
  "hashSecret sha256 value = rawURL_encode (sha256 value)"

definition secureHashEqual :: "string \<Rightarrow> string \<Rightarrow> bool" where
  "secureHashEqual left right =
     (if length left \<noteq> length right \<or> left = '''' then False else left = right)"

definition secureEqual :: "(string \<Rightarrow> string) \<Rightarrow> string \<Rightarrow> string \<Rightarrow> bool" where
  "secureEqual sha256 left right \<longleftrightarrow> length left = length right \<and> left \<noteq> '''' \<and>
     secureHashEqual (hashSecret sha256 left) (hashSecret sha256 right)"

definition randomToken :: "string option \<Rightarrow> string \<Rightarrow> err + string" where
  "randomToken rnd pfx = (case rnd of
       None \<Rightarrow> Inl (ErrText ''generate secure token'')
     | Some buffer \<Rightarrow> Inr (pfx @ rawURL_encode buffer))"

section \<open>Sealing\<close>

record AEAD =
  ae_NonceSize :: nat
  ae_Seal :: "string \<Rightarrow> string \<Rightarrow> string \<Rightarrow> string"
  ae_Open :: "string \<Rightarrow> string \<Rightarrow> string \<Rightarrow> string option"

text \<open>What an authenticated cipher promises: opening what was sealed, under the same nonce and
  associated data, gives the plaintext.\<close>

definition aead_correct :: "AEAD \<Rightarrow> bool" where
  "aead_correct aead \<longleftrightarrow> (\<forall>nonce plaintext aad. length nonce = ae_NonceSize aead \<longrightarrow>
     ae_Open aead nonce (ae_Seal aead nonce plaintext aad) aad = Some plaintext)"

definition sealAuthValue :: "AEAD option \<Rightarrow> string option \<Rightarrow> string \<Rightarrow> string \<Rightarrow> err + EncryptedValue" where
  "sealAuthValue aead rnd aad plaintext = (case aead of
       None \<Rightarrow> Inl (ErrText ''auth encryption is not configured'')
     | Some a \<Rightarrow> (case rnd of
           None \<Rightarrow> Inl (ErrText ''generate auth nonce'')
         | Some nonce \<Rightarrow>
             Inr \<lparr> ev_Nonce = rawURL_encode nonce,
                   ev_Ciphertext = rawURL_encode (ae_Seal a nonce plaintext aad) \<rparr>))"

definition openAuthValue :: "AEAD option \<Rightarrow> string \<Rightarrow> EncryptedValue \<Rightarrow> err + string" where
  "openAuthValue aead aad v = (case aead of
       None \<Rightarrow> Inl (ErrText ''auth encryption is not configured'')
     | Some a \<Rightarrow> (case rawURL_decode (ev_Nonce v) of
           None \<Rightarrow> Inl (ErrText ''decode auth nonce'')
         | Some nonce \<Rightarrow> (case rawURL_decode (ev_Ciphertext v) of
               None \<Rightarrow> Inl (ErrText ''decode auth ciphertext'')
             | Some ciphertext \<Rightarrow> (case ae_Open a nonce ciphertext aad of
                   None \<Rightarrow> Inl (ErrText ''decrypt auth value'')
                 | Some plaintext \<Rightarrow> Inr plaintext))))"

section \<open>The encryption key\<close>

definition DecodeAuthKey :: "string \<Rightarrow> err + string" where
  "DecodeAuthKey v =
     (if v = '''' then Inl (ErrText ''AUTH_ENCRYPTION_KEY is required'')
      else case List.map_filter (\<lambda>decoder. decoder v)
             [base64_decode_raw url_alphabet, base64_decode_padded url_alphabet,
              base64_decode_raw std_alphabet, base64_decode_padded std_alphabet] of
             [] \<Rightarrow> Inl (ErrText ''AUTH_ENCRYPTION_KEY must be base64 or base64url'')
           | decoded # _ \<Rightarrow>
               if length decoded \<noteq> 32
               then Inl (ErrText ''AUTH_ENCRYPTION_KEY must decode to 32 bytes'')
               else Inr decoded)"

section \<open>Lemmas\<close>

lemma sextets_bound: "\<forall>b \<in> set bs. b < 256 \<Longrightarrow> \<forall>n \<in> set (sextets bs). n < 64"
  by (induction bs rule: sextets.induct) auto

lemma octets_sextets: "\<forall>b \<in> set bs. b < 256 \<Longrightarrow> octets (sextets bs) = Some bs"
proof (induction bs rule: sextets.induct)
  case (4 a b c r)
  have "a div 4 * 4 + ((a mod 4) * 16 + b div 16) div 16 = a" using 4 by auto
  moreover have "((a mod 4) * 16 + b div 16) mod 16 * 16 + ((b mod 16) * 4 + c div 64) div 4 = b"
    using 4 by auto
  moreover have "((b mod 16) * 4 + c div 64) mod 4 * 64 + c mod 64 = c" using 4 by auto
  ultimately show ?case using 4 by simp
qed auto

lemma index_of_nth: "distinct xs \<Longrightarrow> n < length xs \<Longrightarrow> index_of (xs ! n) xs = Some n"
  by (induction xs arbitrary: n) (auto simp: nth_Cons split: nat.splits)

lemma those_map_Some: "(\<And>x. x \<in> set xs \<Longrightarrow> f x = Some (g x)) \<Longrightarrow> those (map f xs) = Some (map g xs)"
  by (induction xs) auto

lemma url_alphabet_props: "distinct url_alphabet" "length url_alphabet = 64"
  "CHR 0x0A \<notin> set url_alphabet" "CHR 0x0D \<notin> set url_alphabet"
  by (simp_all add: url_alphabet_def)

lemma rawURL_roundtrip: "rawURL_decode (rawURL_encode s) = Some s"
proof -
  let ?ns = "sextets (map of_char s)"
  have b: "\<forall>x \<in> set (map of_char s). x < (256::nat)" by auto
  hence ns: "n < 64" if "n \<in> set ?ns" for n using sextets_bound that by blast
  have "url_alphabet ! n \<in> set url_alphabet" if "n \<in> set ?ns" for n
    using ns [OF that] url_alphabet_props(2) by (intro nth_mem) simp
  hence "url_alphabet ! n \<noteq> CHR 0x0A \<and> url_alphabet ! n \<noteq> CHR 0x0D" if "n \<in> set ?ns" for n
    using that url_alphabet_props(3,4) by metis
  hence "filter (\<lambda>c. c \<noteq> CHR 0x0A \<and> c \<noteq> CHR 0x0D) (map (\<lambda>n. url_alphabet ! n) ?ns) =
      map (\<lambda>n. url_alphabet ! n) ?ns"
    by (intro filter_True) auto
  moreover have "those (map (\<lambda>c. index_of c url_alphabet) (map (\<lambda>n. url_alphabet ! n) ?ns)) = Some ?ns"
    using those_map_Some [of ?ns "\<lambda>n. index_of (url_alphabet ! n) url_alphabet" "\<lambda>n. n"]
      ns index_of_nth [OF url_alphabet_props(1)] url_alphabet_props(2)
    by (simp add: comp_def)
  ultimately show ?thesis
    using octets_sextets [OF b]
    by (simp add: rawURL_decode_def rawURL_encode_def base64_decode_raw_def base64_encode_def comp_def)
qed

lemma rawURL_encode_inj: "rawURL_encode a = rawURL_encode b \<longleftrightarrow> a = b"
  by (metis rawURL_roundtrip option.inject)

lemma hashSecret_eq_iff: "hashSecret sha256 a = hashSecret sha256 b \<longleftrightarrow> sha256 a = sha256 b"
  by (simp add: hashSecret_def rawURL_encode_inj)

lemma secureHashEqual_iff: "secureHashEqual l r \<longleftrightarrow> l = r \<and> l \<noteq> ''''"
  by (auto simp: secureHashEqual_def)

lemma rawURL_encode_nonempty: "s \<noteq> '''' \<Longrightarrow> rawURL_encode s \<noteq> ''''"
  by (cases s; cases "tl s"; cases "tl (tl s)")
     (auto simp: rawURL_encode_def base64_encode_def split: list.splits)

lemma hashSecret_nonempty: "length (sha256 v) = 32 \<Longrightarrow> hashSecret sha256 v \<noteq> ''''"
  unfolding hashSecret_def by (rule rawURL_encode_nonempty) auto

lemma seal_open:
  assumes "aead_correct a" and "length nonce = ae_NonceSize a"
    and "sealAuthValue (Some a) (Some nonce) aad plaintext = Inr v"
  shows "openAuthValue (Some a) aad v = Inr plaintext"
  using assms by (auto simp: sealAuthValue_def openAuthValue_def rawURL_roundtrip aead_correct_def)

end
