(* ===== verification/Go_Strings.thy ===== *)
theory Go_Strings
  imports Go_Prelude
begin

text \<open>
  The string functions of Go's standard library that the application uses. UTF-8 is decoded
  and encoded as by \<^verbatim>\<open>unicode/utf8\<close>: a rune is a natural number, and a byte that starts no valid
  encoding counts as the replacement rune. What Unicode's tables say about runes beyond ASCII
  is the parameter \<open>uc\<close>; for ASCII it is computed.
\<close>

section \<open>Searching and splitting\<close>

definition hasPrefix :: "string \<Rightarrow> string \<Rightarrow> bool" where
  "hasPrefix s pfx = starts_with pfx s"

definition hasSuffix :: "string \<Rightarrow> string \<Rightarrow> bool" where
  "hasSuffix s sfx = starts_with (rev sfx) (rev s)"

definition trimPrefix :: "string \<Rightarrow> string \<Rightarrow> string" where
  "trimPrefix s pfx = (if hasPrefix s pfx then drop (length pfx) s else s)"

definition trimSuffix :: "string \<Rightarrow> string \<Rightarrow> string" where
  "trimSuffix s sfx = (if hasSuffix s sfx then take (length s - length sfx) s else s)"

fun contains :: "string \<Rightarrow> string \<Rightarrow> bool" where
  "contains [] t = (t = [])"
| "contains (c # s) t = (starts_with t (c # s) \<or> contains s t)"

text \<open>\<^verbatim>\<open>strings.Trim\<close> with a set of ASCII characters.\<close>

definition trimSet :: "string \<Rightarrow> string \<Rightarrow> string" where
  "trimSet s cutset =
     rev (dropWhile (\<lambda>c. c \<in> set cutset) (rev (dropWhile (\<lambda>c. c \<in> set cutset) s)))"

text \<open>\<^verbatim>\<open>strings.Split\<close> at a single character: never empty.\<close>

fun splitChar :: "char \<Rightarrow> string \<Rightarrow> string list" where
  "splitChar sep [] = [[]]"
| "splitChar sep (c # s) = (if c = sep then [] # splitChar sep s
     else case splitChar sep s of [] \<Rightarrow> [[c]] | p # ps \<Rightarrow> (c # p) # ps)"

fun joinStrings :: "string \<Rightarrow> string list \<Rightarrow> string" where
  "joinStrings sep [] = []"
| "joinStrings sep [p] = p"
| "joinStrings sep (p # ps) = p @ sep @ joinStrings sep ps"

definition indexByte :: "string \<Rightarrow> char \<Rightarrow> nat option" where
  "indexByte s c = (if c \<in> set s then Some (length (takeWhile (\<lambda>d. d \<noteq> c) s)) else None)"

section \<open>UTF-8\<close>

type_synonym rune = nat

definition runeError :: rune where "runeError = 0xFFFD"

definition in_range :: "nat \<Rightarrow> nat \<Rightarrow> nat \<Rightarrow> bool" where
  "in_range lo hi x \<longleftrightarrow> lo \<le> x \<and> x \<le> hi"

text \<open>The first rune of a string and the number of bytes it takes: two, three and four byte
  encodings after their first byte, then the whole.\<close>

definition second_lo :: "nat \<Rightarrow> nat" where
  "second_lo a = (if a = 0xE0 then 0xA0 else if a = 0xF0 then 0x90 else 0x80)"

definition second_hi :: "nat \<Rightarrow> nat" where
  "second_hi a = (if a = 0xED then 0x9F else if a = 0xF4 then 0x8F else 0xBF)"

definition decode2 :: "nat \<Rightarrow> nat list \<Rightarrow> rune \<times> nat" where
  "decode2 a bs = (case bs of
       b # _ \<Rightarrow> if in_range 0x80 0xBF b then ((a - 0xC0) * 64 + (b - 0x80), 2) else (runeError, 1)
     | [] \<Rightarrow> (runeError, 1))"

definition decode3 :: "nat \<Rightarrow> nat list \<Rightarrow> rune \<times> nat" where
  "decode3 a bs = (case bs of
       b # c # _ \<Rightarrow>
         if in_range (second_lo a) (second_hi a) b \<and> in_range 0x80 0xBF c
         then ((a - 0xE0) * 4096 + (b - 0x80) * 64 + (c - 0x80), 3) else (runeError, 1)
     | _ \<Rightarrow> (runeError, 1))"

definition decode4 :: "nat \<Rightarrow> nat list \<Rightarrow> rune \<times> nat" where
  "decode4 a bs = (case bs of
       b # c # d # _ \<Rightarrow>
         if in_range (second_lo a) (second_hi a) b \<and>
            in_range 0x80 0xBF c \<and> in_range 0x80 0xBF d
         then ((a - 0xF0) * 262144 + (b - 0x80) * 4096 + (c - 0x80) * 64 + (d - 0x80), 4)
         else (runeError, 1)
     | _ \<Rightarrow> (runeError, 1))"

fun decode_bytes :: "nat list \<Rightarrow> rune \<times> nat" where
  "decode_bytes [] = (runeError, 0)"
| "decode_bytes (a # bs) =
     (if a < 0x80 then (a, 1)
      else if in_range 0xC2 0xDF a then decode2 a bs
      else if in_range 0xE0 0xEF a then decode3 a bs
      else if in_range 0xF0 0xF4 a then decode4 a bs
      else (runeError, 1))"

definition decodeRune :: "string \<Rightarrow> rune \<times> nat" where
  "decodeRune s = decode_bytes (map of_char (take 4 s))"

lemmas decode_parts = decode2_def decode3_def decode4_def

lemma decode_bytes_width: "bs \<noteq> [] \<Longrightarrow> 1 \<le> snd (decode_bytes bs) \<and> snd (decode_bytes bs) \<le> length bs"
  by (cases bs) (auto simp: decode_parts split: list.splits)

lemma decodeRune_width: "s \<noteq> [] \<Longrightarrow> 1 \<le> snd (decodeRune s) \<and> snd (decodeRune s) \<le> length s"
  using decode_bytes_width [of "map of_char (take 4 s)"] by (auto simp: decodeRune_def)

text \<open>\<^verbatim>\<open>range\<close> over a string: the runes with their widths.\<close>

function rune_items :: "string \<Rightarrow> (rune \<times> nat) list" where
  "rune_items s = (if s = [] then [] else decodeRune s # rune_items (drop (snd (decodeRune s)) s))"
  by pat_completeness auto

termination rune_items
  by (relation "measure length") (use decodeRune_width in \<open>force+\<close>)

declare rune_items.simps [simp del]

definition runes :: "string \<Rightarrow> rune list" where
  "runes s = map fst (rune_items s)"

definition valid_rune :: "rune \<Rightarrow> bool" where
  "valid_rune r \<longleftrightarrow> r < 0xD800 \<or> in_range 0xE000 0x10FFFF r"

definition encode_bytes :: "rune \<Rightarrow> nat list" where
  "encode_bytes r =
     (if r < 0x80 then [r]
      else if r < 0x800 then [0xC0 + r div 64, 0x80 + r mod 64]
      else if r < 0x10000 then [0xE0 + r div 4096, 0x80 + r div 64 mod 64, 0x80 + r mod 64]
      else [0xF0 + r div 262144, 0x80 + r div 4096 mod 64, 0x80 + r div 64 mod 64, 0x80 + r mod 64])"

definition encodeRune :: "rune \<Rightarrow> string" where
  "encodeRune r = map char_of (encode_bytes (if valid_rune r then r else runeError))"

definition of_runes :: "rune list \<Rightarrow> string" where
  "of_runes rs = concat (map encodeRune rs)"

text \<open>\<^verbatim>\<open>strings.ToValidUTF8\<close>: each run of invalid bytes becomes one replacement.\<close>

fun valid_items :: "string \<Rightarrow> bool \<Rightarrow> (rune \<times> nat) list \<Rightarrow> string" where
  "valid_items rep bad [] = []"
| "valid_items rep bad ((r, w) # is) =
     (if r = runeError \<and> w = 1 then (if bad then [] else rep) @ valid_items rep True is
      else encodeRune r @ valid_items rep False is)"

definition toValidUTF8 :: "string \<Rightarrow> string \<Rightarrow> string" where
  "toValidUTF8 s rep = valid_items rep False (rune_items s)"

section \<open>Case\<close>

record Unicode =
  uc_lower :: "rune \<Rightarrow> rune"
  uc_fold :: "rune \<Rightarrow> rune"
  uc_letter :: "rune \<Rightarrow> bool"
  uc_digit :: "rune \<Rightarrow> bool"

definition lowerRune :: "Unicode \<Rightarrow> rune \<Rightarrow> rune" where
  "lowerRune uc r = (if r < 0x80 then (if in_range 65 90 r then r + 32 else r) else uc_lower uc r)"

definition toLower :: "Unicode \<Rightarrow> string \<Rightarrow> string" where
  "toLower uc s = of_runes (map (lowerRune uc) (runes s))"

text \<open>\<^verbatim>\<open>uc_fold\<close> gives the least rune of the orbit of \<^verbatim>\<open>unicode.SimpleFold\<close>.\<close>

definition foldRune :: "Unicode \<Rightarrow> rune \<Rightarrow> rune" where
  "foldRune uc r = (if r < 0x80 then (if in_range 97 122 r then r - 32 else r) else uc_fold uc r)"

definition equalFold :: "Unicode \<Rightarrow> string \<Rightarrow> string \<Rightarrow> bool" where
  "equalFold uc s t \<longleftrightarrow> map (foldRune uc) (runes s) = map (foldRune uc) (runes t)"

definition isLetter :: "Unicode \<Rightarrow> rune \<Rightarrow> bool" where
  "isLetter uc r = (if r < 0x80 then in_range 65 90 r \<or> in_range 97 122 r else uc_letter uc r)"

definition isDigitRune :: "Unicode \<Rightarrow> rune \<Rightarrow> bool" where
  "isDigitRune uc r = (if r < 0x80 then in_range 48 57 r else uc_digit uc r)"

text \<open>Tables with nothing beyond ASCII, for evaluation on concrete inputs.\<close>

definition ascii_tables :: Unicode where
  "ascii_tables = \<lparr> uc_lower = (\<lambda>r. r), uc_fold = (\<lambda>r. r), uc_letter = (\<lambda>_. False), uc_digit = (\<lambda>_. False) \<rparr>"

section \<open>Numbers\<close>

fun digits_of :: "nat \<Rightarrow> string" where
  "digits_of n = (if n < 10 then [char_of (48 + n)] else digits_of (n div 10) @ [char_of (48 + n mod 10)])"

declare digits_of.simps [simp del]

definition itoa :: "int \<Rightarrow> string" where
  "itoa i = (if i < 0 then CHR ''-'' # digits_of (nat (- i)) else digits_of (nat i))"

definition digit_val :: "char \<Rightarrow> nat option" where
  "digit_val c = (if in_range 48 57 (of_char c) then Some (of_char c - 48) else None)"

fun parse_digits :: "nat \<Rightarrow> string \<Rightarrow> nat option" where
  "parse_digits acc [] = Some acc"
| "parse_digits acc (c # s) = (case digit_val c of None \<Rightarrow> None | Some d \<Rightarrow> parse_digits (acc * 10 + d) s)"

text \<open>\<^verbatim>\<open>strconv.Atoi\<close> and \<^verbatim>\<open>strconv.ParseInt\<close> in base 10 with 64 bits: an optional sign, at least
  one digit, nothing else, in range.\<close>

definition atoi :: "string \<Rightarrow> int option" where
  "atoi s =
     (let (neg, ds) = (case s of
            [] \<Rightarrow> (False, [])
          | c # r \<Rightarrow> if c = CHR ''-'' then (True, r) else if c = CHR ''+'' then (False, r) else (False, s))
      in if ds = [] then None
         else case parse_digits 0 ds of
                None \<Rightarrow> None
              | Some n \<Rightarrow> let i = (if neg then - int n else int n)
                          in if - (2 ^ 63) \<le> i \<and> i \<le> int64_max then Some i else None)"

section \<open>Lemmas\<close>

lemma splitChar_nonempty: "splitChar sep s \<noteq> []"
  by (induction s) (auto split: list.splits)

lemma joinStrings_Cons: "ps \<noteq> [] \<Longrightarrow> joinStrings sep (p # ps) = p @ sep @ joinStrings sep ps"
  by (cases ps) auto

lemma join_split: "joinStrings [sep] (splitChar sep s) = s"
proof (induction s)
  case (Cons c s)
  show ?case
  proof (cases "c = sep")
    case True
    thus ?thesis using Cons splitChar_nonempty by (simp add: joinStrings_Cons)
  next
    case False
    obtain p ps where "splitChar sep s = p # ps" using splitChar_nonempty by (cases "splitChar sep s") auto
    thus ?thesis using Cons False by (cases ps) auto
  qed
qed simp

lemma splitChar_free: "p \<in> set (splitChar sep s) \<Longrightarrow> sep \<notin> set p"
  by (induction s arbitrary: p) (auto split: if_splits list.splits)

lemma splitChar_append: "sep \<notin> set p \<Longrightarrow> splitChar sep (p @ sep # s) = p # splitChar sep s"
  by (induction p) auto

lemma splitChar_none: "sep \<notin> set p \<Longrightarrow> splitChar sep p = [p]"
  by (induction p) auto

lemma rune_split3: "(r :: nat) = r div 4096 * 4096 + r div 64 mod 64 * 64 + r mod 64"
  using mod_mult2_eq [of r 64 64] div_mult_mod_eq [of r 4096] by simp

lemma rune_split4: "(r :: nat) = r div 262144 * 262144 + r div 4096 mod 64 * 4096 + r div 64 mod 64 * 64 + r mod 64"
  using mod_mult2_eq [of r 4096 64] div_mult_mod_eq [of r 262144] mod_mult2_eq [of r 64 64] by simp

lemma decode_encode_bytes:
  assumes "valid_rune r"
  shows "decode_bytes (encode_bytes r @ t) = (r, length (encode_bytes r))"
proof -
  consider "r < 0x80" | "0x80 \<le> r" "r < 0x800" | "0x800 \<le> r" "r < 0x10000" | "0x10000 \<le> r" by linarith
  thus ?thesis
  proof cases
    case 2
    hence "2 \<le> r div 64" "r div 64 < 32" by (simp_all add: div_le_mono [of 128 r 64, simplified] less_mult_imp_div_less)
    thus ?thesis using 2 by (simp add: encode_bytes_def in_range_def decode_parts)
  next
      case 3
    define a b c where "a = r div 4096" and "b = r div 64 mod 64" and "c = r mod 64"
    have r: "r = a * 4096 + b * 64 + c" and bc: "b < 64" "c < 64"
      unfolding a_def b_def c_def using rune_split3 by simp_all
    have a: "a < 16" using 3 unfolding a_def by simp
    have lo: "a = 0 \<Longrightarrow> 32 \<le> b" using 3 r bc by linarith
    have hi: "a = 13 \<Longrightarrow> b \<le> 31" using assms r bc unfolding valid_rune_def in_range_def by linarith
    have e: "encode_bytes r = [0xE0 + a, 0x80 + b, 0x80 + c]"
      using 3 unfolding encode_bytes_def a_def b_def c_def by simp
    show ?thesis unfolding e using a bc lo hi by (simp add: in_range_def decode_parts second_lo_def second_hi_def r)
  next
    case 4
    define a b c d where "a = r div 262144" and "b = r div 4096 mod 64" and "c = r div 64 mod 64" and "d = r mod 64"
    have r: "r = a * 262144 + b * 4096 + c * 64 + d" and bcd: "b < 64" "c < 64" "d < 64"
      unfolding a_def b_def c_def d_def using rune_split4 by simp_all
    have up: "r \<le> 0x10FFFF" using assms 4 by (auto simp: valid_rune_def in_range_def)
    have a: "a \<le> 4" using up r by linarith
    have lo: "a = 0 \<Longrightarrow> 16 \<le> b" using 4 r bcd by linarith
    have hi: "a = 4 \<Longrightarrow> b \<le> 15" using up r bcd by linarith
    have e: "encode_bytes r = [0xF0 + a, 0x80 + b, 0x80 + c, 0x80 + d]"
      using 4 unfolding encode_bytes_def a_def b_def c_def d_def by simp
    show ?thesis unfolding e using a bcd lo hi by (simp add: in_range_def decode_parts second_lo_def second_hi_def r)
  qed (simp add: encode_bytes_def)
qed

lemma encode_bytes_length: "1 \<le> length (encode_bytes r) \<and> length (encode_bytes r) \<le> 4"
  by (simp add: encode_bytes_def)

lemma encode_bytes_bound: "valid_rune r \<Longrightarrow> b \<in> set (encode_bytes r) \<Longrightarrow> b < 256"
  by (auto simp: encode_bytes_def valid_rune_def in_range_def split: if_splits)

lemma decodeRune_encode:
  assumes "valid_rune r"
  shows "decodeRune (encodeRune r @ t) = (r, length (encodeRune r))"
proof -
  let ?e = "encode_bytes r"
  have id: "map ((of_char :: char \<Rightarrow> nat) \<circ> char_of) ?e = ?e"
    using encode_bytes_bound [OF assms] by (simp add: map_idI of_char_of)
  have "decodeRune (encodeRune r @ t) = decode_bytes (?e @ map of_char (take (4 - length ?e) t))"
    using encode_bytes_length [of r] assms by (simp add: decodeRune_def encodeRune_def id)
  thus ?thesis using decode_encode_bytes [OF assms] assms by (simp add: encodeRune_def)
qed

lemma rune_items_encode:
  assumes "valid_rune r"
  shows "rune_items (encodeRune r @ t) = (r, length (encodeRune r)) # rune_items t"
proof -
  have "encodeRune r @ t \<noteq> []" using encode_bytes_length [of r] assms by (auto simp: encodeRune_def)
  thus ?thesis using decodeRune_encode [OF assms] by (subst rune_items.simps) simp
qed

lemma rune_items_Nil [simp]: "rune_items [] = []"
  by (simp add: rune_items.simps)

text \<open>Decoding what was encoded gives the runes back.\<close>

lemma rune_items_of_runes:
  "list_all valid_rune rs \<Longrightarrow> rune_items (of_runes rs) = map (\<lambda>r. (r, length (encodeRune r))) rs"
  by (induction rs) (auto simp: of_runes_def rune_items_encode)

lemma runes_of_runes: "list_all valid_rune rs \<Longrightarrow> runes (of_runes rs) = rs"
  by (simp add: runes_def rune_items_of_runes comp_def)

lemma valid_runeError: "valid_rune runeError"
  by (simp add: valid_rune_def runeError_def in_range_def)

lemma decode3_valid:
  assumes "in_range 0xE0 0xEF a" and "in_range (second_lo a) (second_hi a) b"
    and "in_range 0x80 0xBF c"
  shows "valid_rune ((a - 0xE0) * 4096 + (b - 0x80) * 64 + (c - 0x80))"
proof -
  define a' b' c' where "a' = a - 0xE0" and "b' = b - 0x80" and "c' = c - 0x80"
  have b: "a' \<le> 15" "b' \<le> 63" "c' \<le> 63" "a' = 13 \<Longrightarrow> b' \<le> 31"
    using assms unfolding a'_def b'_def c'_def in_range_def second_lo_def second_hi_def by (auto split: if_splits)
  consider "a' < 13" | "a' = 13" | "13 < a'" by linarith
  hence "a' * 4096 + b' * 64 + c' < 0xD800 \<or> 0xE000 \<le> a' * 4096 + b' * 64 + c'"
    using b by cases linarith+
  moreover have "a' * 4096 + b' * 64 + c' \<le> 0x10FFFF" using b by linarith
  ultimately have "valid_rune (a' * 4096 + b' * 64 + c')" by (auto simp: valid_rune_def in_range_def)
  thus ?thesis unfolding a'_def b'_def c'_def .
qed

lemma decode4_valid:
  assumes "in_range 0xF0 0xF4 a" and "in_range (second_lo a) (second_hi a) b"
    and "in_range 0x80 0xBF c" and "in_range 0x80 0xBF d"
  shows "valid_rune ((a - 0xF0) * 262144 + (b - 0x80) * 4096 + (c - 0x80) * 64 + (d - 0x80))"
proof -
  define a' b' c' d' where "a' = a - 0xF0" and "b' = b - 0x80" and "c' = c - 0x80" and "d' = d - 0x80"
  have b: "a' \<le> 4" "b' \<le> 63" "c' \<le> 63" "d' \<le> 63" "a' = 4 \<Longrightarrow> b' \<le> 15" "a' = 0 \<Longrightarrow> 16 \<le> b'"
    using assms unfolding a'_def b'_def c'_def d'_def in_range_def second_lo_def second_hi_def by (auto split: if_splits)
  consider "a' = 0" | "0 < a'" "a' < 4" | "a' = 4" using b(1) by linarith
  hence "in_range 0xE000 0x10FFFF (a' * 262144 + b' * 4096 + c' * 64 + d')"
    unfolding in_range_def using b by cases linarith+
  hence "valid_rune (a' * 262144 + b' * 4096 + c' * 64 + d')" by (simp add: valid_rune_def)
  thus ?thesis unfolding a'_def b'_def c'_def d'_def .
qed

lemma decode2_valid:
  assumes "in_range 0xC2 0xDF a" and "in_range 0x80 0xBF b"
  shows "valid_rune ((a - 0xC0) * 64 + (b - 0x80))"
  using assms unfolding valid_rune_def in_range_def by linarith

lemma decode_bytes_valid: "valid_rune (fst (decode_bytes bs))"
proof (cases bs)
  case (Cons a cs)
  have "in_range 0xC2 0xDF a \<Longrightarrow> valid_rune (fst (decode2 a cs))"
    by (auto simp: decode2_def valid_runeError intro: decode2_valid split: list.split)
  moreover have "in_range 0xE0 0xEF a \<Longrightarrow> valid_rune (fst (decode3 a cs))"
    unfolding decode3_def by (auto simp: valid_runeError intro: decode3_valid split: list.split)
  moreover have "in_range 0xF0 0xF4 a \<Longrightarrow> valid_rune (fst (decode4 a cs))"
    unfolding decode4_def by (auto simp: valid_runeError intro: decode4_valid split: list.split)
  moreover have "a < 0x80 \<Longrightarrow> valid_rune a" by (simp add: valid_rune_def)
  ultimately show ?thesis by (simp add: Cons valid_runeError)
qed (simp add: valid_runeError)


lemma decodeRune_valid: "valid_rune (fst (decodeRune s))"
  by (simp add: decodeRune_def decode_bytes_valid)

lemma rune_items_valid: "list_all (\<lambda>(r, w). valid_rune r) (rune_items s)"
proof (induction s rule: rune_items.induct)
  case (1 s)
  show ?case
  proof (cases "s = []")
    case False
    hence "rune_items s = decodeRune s # rune_items (drop (snd (decodeRune s)) s)" by (subst rune_items.simps) simp
    thus ?thesis using 1 False decodeRune_valid [of s] by (simp add: case_prod_beta)
  qed simp
qed

lemma runes_valid: "list_all valid_rune (runes s)"
  using rune_items_valid [of s] by (induction "rune_items s") (auto simp: runes_def list_all_iff)

text \<open>What the lower-case mapping of Unicode's tables satisfies.\<close>

definition lower_ok :: "Unicode \<Rightarrow> bool" where
  "lower_ok uc \<longleftrightarrow> (\<forall>r. valid_rune r \<longrightarrow> valid_rune (lowerRune uc r) \<and> lowerRune uc (lowerRune uc r) = lowerRune uc r)"

lemma lower_ok_ascii: "lower_ok ascii_tables"
  by (auto simp: lower_ok_def lowerRune_def ascii_tables_def valid_rune_def in_range_def)

lemma runes_toLower: "lower_ok uc \<Longrightarrow> runes (toLower uc s) = map (lowerRune uc) (runes s)"
  unfolding toLower_def
  by (rule runes_of_runes) (use runes_valid [of s] in \<open>auto simp: list_all_iff lower_ok_def\<close>)

lemma toLower_idem: "lower_ok uc \<Longrightarrow> toLower uc (toLower uc s) = toLower uc s"
  using runes_valid [of s]
  by (simp add: toLower_def [of uc "toLower uc s"] runes_toLower)
     (auto simp: toLower_def lower_ok_def list_all_iff intro!: arg_cong [of _ _ of_runes])

text \<open>Printed numbers are read back.\<close>

lemma digits_of_nonempty: "digits_of n \<noteq> []"
  by (subst digits_of.simps) simp

lemma digit_val_char: "d < 10 \<Longrightarrow> digit_val (char_of (48 + d)) = Some d"
  by (simp add: digit_val_def in_range_def of_char_of)

lemma parse_digits_snoc: "parse_digits acc (s @ [c]) = (case parse_digits acc s of None \<Rightarrow> None
    | Some n \<Rightarrow> map_option (\<lambda>d. n * 10 + d) (digit_val c))"
  by (induction acc s rule: parse_digits.induct) (auto split: option.splits)

lemma parse_digits_of: "parse_digits 0 (digits_of n) = Some n"
proof (induction n rule: digits_of.induct)
  case (1 n)
  show ?case
  proof (cases "n < 10")
    case True
    thus ?thesis using digit_val_char [OF True] by (subst digits_of.simps) simp
  next
    case False
    thus ?thesis using 1 digit_val_char [of "n mod 10"] by (subst digits_of.simps) (simp add: parse_digits_snoc)
  qed
qed

lemma digits_of_digit: "c \<in> set (digits_of n) \<Longrightarrow> digit_val c \<noteq> None"
proof (induction n rule: digits_of.induct)
  case (1 n)
  thus ?case using digit_val_char [of n] digit_val_char [of "n mod 10"]
    by (subst (asm) (2) digits_of.simps) (auto split: if_splits)
qed

lemma atoi_itoa:
  assumes "- (2 ^ 63) \<le> i" and "i \<le> int64_max"
  shows "atoi (itoa i) = Some i"
proof (cases "i < 0")
  case True
  thus ?thesis using assms parse_digits_of [of "nat (- i)"] digits_of_nonempty
    by (simp add: atoi_def itoa_def)
next
  case False
  obtain c r where cr: "digits_of (nat i) = c # r" using digits_of_nonempty by (cases "digits_of (nat i)") auto
  have "digit_val c \<noteq> None" using digits_of_digit [of c "nat i"] cr by simp
  hence "c \<noteq> CHR ''-''" "c \<noteq> CHR ''+''" by (auto simp: digit_val_def in_range_def)
  thus ?thesis using assms False parse_digits_of [of "nat i"] cr by (simp add: atoi_def itoa_def)
qed

section \<open>ASCII strings\<close>

definition graphic :: "char \<Rightarrow> bool" where
  "graphic c \<longleftrightarrow> in_range 0x21 0x7E (of_char c)"

lemma ws_runes_ends: "w \<in> set ws_runes \<Longrightarrow> w \<noteq> [] \<and> \<not> graphic (hd w) \<and> \<not> graphic (last w)"
  unfolding ws_runes_def by (auto simp: graphic_def in_range_def)

lemma prefix_hd: "prefix w s \<Longrightarrow> w \<noteq> [] \<Longrightarrow> hd w = hd s"
  by (auto simp: prefix_def)

lemma trimSpace_id: "s \<noteq> [] \<Longrightarrow> graphic (hd s) \<Longrightarrow> graphic (last s) \<Longrightarrow> trimSpace s = s"
proof -
  assume a: "s \<noteq> []" "graphic (hd s)" "graphic (last s)"
  have "trimLeft s = s" unfolding trimLeft_def
    by (rule strip_id) (use a ws_runes_ends prefix_hd in metis)
  moreover have "strip (map rev ws_runes) (rev s) = rev s"
  proof (rule strip_id)
    fix w assume w: "w \<in> set (map rev ws_runes)"
    then obtain v where v: "v \<in> set ws_runes" "w = rev v" by auto
    show "\<not> prefix w (rev s)"
      using prefix_hd [of w "rev s"] ws_runes_ends [OF v(1)] v(2) a by (auto simp: hd_rev)
  qed
  ultimately show ?thesis by (simp add: trimSpace_def trimRight_def)
qed

lemma rune_items_ascii: "list_all (\<lambda>c. of_char c < (0x80 :: nat)) s \<Longrightarrow> rune_items s = map (\<lambda>c. (of_char c, 1)) s"
proof (induction s)
  case (Cons c s)
  hence "decodeRune (c # s) = (of_char c, 1)" by (simp add: decodeRune_def take_Cons')
  thus ?case using Cons by (subst rune_items.simps) simp
qed simp

lemma runes_ascii: "list_all (\<lambda>c. of_char c < (0x80 :: nat)) s \<Longrightarrow> runes s = map of_char s"
  by (simp add: runes_def rune_items_ascii)

lemma toLower_ascii:
  "list_all (\<lambda>c. of_char c < (0x80 :: nat) \<and> \<not> in_range 65 90 (of_char c)) s \<Longrightarrow> toLower uc s = s"
proof (induction s)
  case (Cons c s)
  have "runes (c # s) = map of_char (c # s)" by (rule runes_ascii) (use Cons.prems in \<open>auto simp: list_all_iff\<close>)
  moreover have "runes s = map of_char s" by (rule runes_ascii) (use Cons.prems in \<open>auto simp: list_all_iff\<close>)
  ultimately show ?case using Cons by (simp add: toLower_def of_runes_def lowerRune_def encodeRune_def valid_rune_def encode_bytes_def)
qed (simp add: toLower_def of_runes_def runes_def)

end
