(* ===== verification/Registration_Store.thy ===== *)
theory Registration_Store
  imports Credentials
begin

text \<open>
  The registration repository: its port (\<^verbatim>\<open>internal/domain/repositories.go\<close>) as a record of
  operations over a store state, the contract as the locale \<open>registration_repository\<close>, the
  in-memory store (\<^verbatim>\<open>internal/storage/memory/store.go\<close>) and the PostgreSQL one
  (\<^verbatim>\<open>internal/storage/postgres/postgres_registration.go\<close>), both interpretations of the locale.

  The PostgreSQL table is a map from its primary key to its row. \<open>db n\<close> says whether the n-th
  call an operation makes to the database succeeds; a call that fails aborts the operation with
  the transaction rolled back. A timestamp column keeps microseconds. The columns that hold JSON
  objects are kept as the maps they encode.
\<close>

section \<open>The port\<close>

record 's RegistrationRepository =
  rp_Upsert :: "'s \<Rightarrow> Registration \<Rightarrow> 's \<times> err option"
  rp_List :: "'s \<Rightarrow> Registration list"
  rp_Get :: "'s \<Rightarrow> string \<Rightarrow> err + Registration"
  rp_Authenticate :: "'s \<Rightarrow> string \<Rightarrow> string \<Rightarrow> err + Registration"
  rp_Delete :: "'s \<Rightarrow> string \<Rightarrow> string \<Rightarrow> 's \<times> err option"
  rp_DeleteForAccount :: "'s \<Rightarrow> string \<Rightarrow> string list \<Rightarrow> 's \<times> (err + string list)"

section \<open>The in-memory store\<close>

type_synonym RegistrationStore = "(string, Registration) gomap"

definition OpenStore :: RegistrationStore where
  "OpenStore = []"

definition reg_persistLocked :: "RegistrationStore \<Rightarrow> err option" where
  "reg_persistLocked s = None"

definition registrationSecretMatches :: "(string \<Rightarrow> string) \<Rightarrow> Registration \<Rightarrow> string \<Rightarrow> bool" where
  "registrationSecretMatches sha256 registration provided =
     (if provided = '''' then False
      else if rg_DeviceSecretHash registration \<noteq> ''''
           then secureHashEqual (rg_DeviceSecretHash registration) (hashSecret sha256 provided)
           else secureEqual sha256 (rg_DeviceSecret registration) provided)"

text \<open>What the store hands out: the registration without its secrets. The deep copies the code
  makes of its lists and maps are the identity on values.\<close>

definition publicRegistration :: "Registration \<Rightarrow> Registration" where
  "publicRegistration r = r\<lparr> rg_DeviceSecret := '''', rg_DeviceSecretHash := '''' \<rparr>"

definition reg_Upsert :: "(string \<Rightarrow> string) \<Rightarrow> RegistrationStore \<Rightarrow> Registration
    \<Rightarrow> RegistrationStore \<times> err option" where
  "reg_Upsert sha256 s registration =
     (let providedSecret = rg_DeviceSecret registration
      in if providedSecret = '''' then (s, Some ErrDeviceSecretMismatch)
         else if (case mget s (rg_InstallationID registration) of
                    None \<Rightarrow> False
                  | Some existing \<Rightarrow> \<not> registrationSecretMatches sha256 existing providedSecret)
              then (s, Some ErrDeviceSecretMismatch)
              else let registration = registration\<lparr> rg_DeviceSecretHash := hashSecret sha256 providedSecret,
                                                    rg_DeviceSecret := '''' \<rparr>;
                       s' = mput (rg_InstallationID registration) registration s
                   in (s', reg_persistLocked s'))"

definition reg_List :: "RegistrationStore \<Rightarrow> Registration list" where
  "reg_List s = map (\<lambda>(_, registration). publicRegistration registration) s"

definition reg_Get :: "RegistrationStore \<Rightarrow> string \<Rightarrow> err + Registration" where
  "reg_Get s installationID = (case mget s installationID of
       None \<Rightarrow> Inl ErrRegistrationNotFound
     | Some registration \<Rightarrow> Inr (publicRegistration registration))"

definition reg_Authenticate :: "(string \<Rightarrow> string) \<Rightarrow> RegistrationStore \<Rightarrow> string \<Rightarrow> string
    \<Rightarrow> err + Registration" where
  "reg_Authenticate sha256 s installationID deviceSecret = (case mget s installationID of
       None \<Rightarrow> Inl ErrRegistrationNotFound
     | Some registration \<Rightarrow>
         if \<not> registrationSecretMatches sha256 registration deviceSecret
         then Inl ErrDeviceSecretMismatch
         else Inr (publicRegistration registration))"

definition reg_Delete :: "(string \<Rightarrow> string) \<Rightarrow> RegistrationStore \<Rightarrow> string \<Rightarrow> string
    \<Rightarrow> RegistrationStore \<times> err option" where
  "reg_Delete sha256 s installationID deviceSecret = (case mget s installationID of
       None \<Rightarrow> (s, Some ErrRegistrationNotFound)
     | Some registration \<Rightarrow>
         if \<not> registrationSecretMatches sha256 registration deviceSecret
         then (s, Some ErrDeviceSecretMismatch)
         else let s' = mdel installationID s in (s', reg_persistLocked s'))"

definition reg_DeleteForAccount :: "RegistrationStore \<Rightarrow> string \<Rightarrow> string list
    \<Rightarrow> RegistrationStore \<times> (err + string list)" where
  "reg_DeleteForAccount s userID installationIDs =
     (let userID = trimSpace userID;
          targets = set (filter (\<lambda>i. i \<noteq> '''') (map trimSpace installationIDs));
          hit = (\<lambda>installationID registration.
                  \<not> (installationID \<notin> targets \<and> (userID = '''' \<or> rg_UserID registration \<noteq> userID)));
          removed = map fst (mfilter hit s);
          s' = mfilter (\<lambda>i r. \<not> hit i r) s
      in if removed = [] then (s', Inr [])
         else case reg_persistLocked s' of
                Some e \<Rightarrow> (s', Inl e)
              | None \<Rightarrow> (s', Inr (sort removed)))"

definition memory_registrations :: "(string \<Rightarrow> string) \<Rightarrow> RegistrationStore RegistrationRepository" where
  "memory_registrations sha256 = \<lparr> rp_Upsert = reg_Upsert sha256, rp_List = reg_List, rp_Get = reg_Get,
     rp_Authenticate = reg_Authenticate sha256, rp_Delete = reg_Delete sha256,
     rp_DeleteForAccount = reg_DeleteForAccount \<rparr>"

section \<open>The PostgreSQL store\<close>

definition fmtDatabase :: "string \<Rightarrow> err" where
  "fmtDatabase operation = ErrText operation"

definition pg_time :: "gotime \<Rightarrow> gotime" where
  "pg_time t = t div 1000 * 1000"

fun compactFrom :: "string set \<Rightarrow> string list \<Rightarrow> string list" where
  "compactFrom seen [] = []"
| "compactFrom seen (x # values) =
     (let v = trimSpace x
      in if v = '''' \<or> v \<in> seen then compactFrom seen values
         else v # compactFrom (insert v seen) values)"

definition compactStrings :: "string list \<Rightarrow> string list" where
  "compactStrings values = compactFrom {} values"

definition pg_Upsert :: "(nat \<Rightarrow> bool) \<Rightarrow> (string \<Rightarrow> string) \<Rightarrow> RegistrationStore \<Rightarrow> Registration
    \<Rightarrow> RegistrationStore \<times> err option" where
  "pg_Upsert db sha256 s registration =
     (if trimSpace (rg_InstallationID registration) = '''' \<or> rg_DeviceSecret registration = ''''
      then (s, Some ErrDeviceSecretMismatch)
      else if \<not> db 0 then (s, Some (fmtDatabase ''begin registration upsert''))
      else if \<not> db 1 then (s, Some (fmtDatabase ''load registration for upsert''))
      else if (case mget s (rg_InstallationID registration) of
                 None \<Rightarrow> False
               | Some row \<Rightarrow> \<not> secureHashEqual (rg_DeviceSecretHash row)
                                (hashSecret sha256 (rg_DeviceSecret registration)))
           then (s, Some ErrDeviceSecretMismatch)
      else let row = registration\<lparr> rg_DeviceSecretHash := hashSecret sha256 (rg_DeviceSecret registration),
                       rg_DeviceSecret := '''', rg_UpdatedAt := pg_time (rg_UpdatedAt registration) \<rparr>
           in if \<not> db 2 then (s, Some (fmtDatabase ''upsert registration''))
              else if \<not> db 3 then (s, Some (fmtDatabase ''commit registration upsert''))
              else (mput (rg_InstallationID registration) row s, None))"

definition pg_List :: "(nat \<Rightarrow> bool) \<Rightarrow> RegistrationStore \<Rightarrow> Registration list" where
  "pg_List db s = (if \<not> db 0 then []
     else map (\<lambda>(_, r). publicRegistration r) (sortSlice (\<lambda>a b. fst a < fst b) s))"

definition pg_Get :: "(nat \<Rightarrow> bool) \<Rightarrow> RegistrationStore \<Rightarrow> string \<Rightarrow> err + Registration" where
  "pg_Get db s installationID =
     (if \<not> db 0 then Inl (fmtDatabase ''get registration'')
      else case mget s installationID of
             None \<Rightarrow> Inl ErrRegistrationNotFound
           | Some registration \<Rightarrow> Inr (publicRegistration registration))"

definition pg_Authenticate :: "(nat \<Rightarrow> bool) \<Rightarrow> (string \<Rightarrow> string) \<Rightarrow> RegistrationStore \<Rightarrow> string
    \<Rightarrow> string \<Rightarrow> err + Registration" where
  "pg_Authenticate db sha256 s installationID deviceSecret =
     (if \<not> db 0 then Inl (fmtDatabase ''authenticate registration'')
      else case mget s installationID of
             None \<Rightarrow> Inl ErrRegistrationNotFound
           | Some registration \<Rightarrow>
               if \<not> secureHashEqual (rg_DeviceSecretHash registration) (hashSecret sha256 deviceSecret)
               then Inl ErrDeviceSecretMismatch
               else Inr (publicRegistration registration))"

definition pg_Delete :: "(nat \<Rightarrow> bool) \<Rightarrow> (string \<Rightarrow> string) \<Rightarrow> RegistrationStore \<Rightarrow> string
    \<Rightarrow> string \<Rightarrow> RegistrationStore \<times> err option" where
  "pg_Delete db sha256 s installationID deviceSecret =
     (if \<not> db 0 then (s, Some (fmtDatabase ''load registration for delete''))
      else case mget s installationID of
             None \<Rightarrow> (s, Some ErrRegistrationNotFound)
           | Some registration \<Rightarrow>
               if \<not> secureHashEqual (rg_DeviceSecretHash registration) (hashSecret sha256 deviceSecret)
               then (s, Some ErrDeviceSecretMismatch)
               else if \<not> db 1 then (s, Some (fmtDatabase ''delete registration''))
               else (mdel installationID s, None))"

definition pg_DeleteForAccount :: "(nat \<Rightarrow> bool) \<Rightarrow> RegistrationStore \<Rightarrow> string \<Rightarrow> string list
    \<Rightarrow> RegistrationStore \<times> (err + string list)" where
  "pg_DeleteForAccount db s userID installationIDs =
     (let userID = trimSpace userID;
          installationIDs = compactStrings installationIDs;
          hit = (\<lambda>installationID row.
                  (userID \<noteq> '''' \<and> rg_UserID row = userID) \<or> installationID \<in> set installationIDs)
      in if \<not> db 0 then (s, Inl (fmtDatabase ''delete registrations for account''))
         else (mfilter (\<lambda>i r. \<not> hit i r) s, Inr (sort (map fst (mfilter hit s)))))"

definition postgres_registrations :: "(nat \<Rightarrow> bool) \<Rightarrow> (string \<Rightarrow> string)
    \<Rightarrow> RegistrationStore RegistrationRepository" where
  "postgres_registrations db sha256 = \<lparr> rp_Upsert = pg_Upsert db sha256, rp_List = pg_List db,
     rp_Get = pg_Get db, rp_Authenticate = pg_Authenticate db sha256, rp_Delete = pg_Delete db sha256,
     rp_DeleteForAccount = pg_DeleteForAccount db \<rparr>"

section \<open>The contract\<close>

text \<open>
  \<open>view s i\<close> is what the store has for an installation: the registration without secrets, and
  the hash of the device secret it belongs to. \<open>stored\<close> is what of a registration a write
  keeps.
\<close>

locale registration_repository =
  fixes repo :: "'s RegistrationRepository"
    and inv :: "'s \<Rightarrow> bool"
    and view :: "'s \<Rightarrow> string \<Rightarrow> (Registration \<times> string) option"
    and stored :: "Registration \<Rightarrow> Registration"
    and hash :: "string \<Rightarrow> string"
  assumes view_id: "inv s \<Longrightarrow> view s i = Some (r, h) \<Longrightarrow> rg_InstallationID r = i"
    and stored_keeps: "rg_UserID (stored r) = rg_UserID r"
      "rg_ModeratorChannelIDs (stored r) = rg_ModeratorChannelIDs r"
      "rg_InstallationID (stored r) = rg_InstallationID r"
    and get_view: "inv s \<Longrightarrow> rp_Get repo s i =
      (case view s i of None \<Rightarrow> Inl ErrRegistrationNotFound | Some (r, h) \<Rightarrow> Inr r)"
    and list_view: "inv s \<Longrightarrow> r \<in> set (rp_List repo s) \<longleftrightarrow> (\<exists>i h. view s i = Some (r, h))"
    and authenticate_view: "inv s \<Longrightarrow> d \<noteq> '''' \<Longrightarrow> rp_Authenticate repo s i d =
      (case view s i of None \<Rightarrow> Inl ErrRegistrationNotFound
       | Some (r, h) \<Rightarrow> if secureHashEqual h (hash d) then Inr r else Inl ErrDeviceSecretMismatch)"
    and upsert_blank: "rg_DeviceSecret r = '''' \<Longrightarrow> rp_Upsert repo s r = (s, Some ErrDeviceSecretMismatch)"
    and upsert_mismatch: "inv s \<Longrightarrow> view s (rg_InstallationID r) = Some (r', h) \<Longrightarrow>
      \<not> secureHashEqual h (hash (rg_DeviceSecret r)) \<Longrightarrow>
      rp_Upsert repo s r = (s, Some ErrDeviceSecretMismatch)"
    and upsert_ok: "inv s \<Longrightarrow> trimSpace (rg_InstallationID r) \<noteq> '''' \<Longrightarrow> rg_DeviceSecret r \<noteq> '''' \<Longrightarrow>
      (\<And>r' h. view s (rg_InstallationID r) = Some (r', h) \<Longrightarrow> secureHashEqual h (hash (rg_DeviceSecret r))) \<Longrightarrow>
      \<exists>s'. rp_Upsert repo s r = (s', None) \<and> inv s' \<and> view s' = (view s)(rg_InstallationID r \<mapsto>
        (publicRegistration (stored r), hash (rg_DeviceSecret r)))"
    and delete_missing: "inv s \<Longrightarrow> view s i = None \<Longrightarrow> rp_Delete repo s i d = (s, Some ErrRegistrationNotFound)"
    and delete_mismatch: "inv s \<Longrightarrow> view s i = Some (r, h) \<Longrightarrow> \<not> secureHashEqual h (hash d) \<Longrightarrow>
      rp_Delete repo s i d = (s, Some ErrDeviceSecretMismatch)"
    and delete_ok: "inv s \<Longrightarrow> view s i = Some (r, h) \<Longrightarrow> d \<noteq> '''' \<Longrightarrow> secureHashEqual h (hash d) \<Longrightarrow>
      \<exists>s'. rp_Delete repo s i d = (s', None) \<and> inv s' \<and> view s' = (view s)(i := None)"
    and account_view: "inv s \<Longrightarrow> rp_DeleteForAccount repo s u is = (s', res) \<Longrightarrow>
      inv s' \<and> (\<forall>i. view s' i = (case view s i of None \<Rightarrow> None
        | Some (r, h) \<Rightarrow> if (trimSpace u \<noteq> '''' \<and> rg_UserID r = trimSpace u) \<or>
                             (i \<noteq> '''' \<and> i \<in> trimSpace ` set is) then None else Some (r, h)))"
begin

lemma upsert_cases:
  assumes "inv s"
  shows "rp_Upsert repo s r = (s, Some ErrDeviceSecretMismatch) \<or> trimSpace (rg_InstallationID r) = '''' \<or>
    (\<exists>s'. rp_Upsert repo s r = (s', None) \<and> inv s' \<and> view s' = (view s)(rg_InstallationID r \<mapsto>
        (publicRegistration (stored r), hash (rg_DeviceSecret r))))"
  using upsert_ok [OF assms, of r] upsert_blank [of r s] upsert_mismatch [OF assms, of r]
  by (metis surj_pair)

text \<open>A registration stays with the device that made it: an upsert for the same installation
  under a secret of another hash changes nothing, and under its own secret the device
  authenticates and is handed what it stored.\<close>

lemma registration_bound:
  assumes "inv s" and "rp_Upsert repo s r = (s1, None)" and "trimSpace (rg_InstallationID r) \<noteq> ''''"
    and "hash (rg_DeviceSecret r) \<noteq> ''''"
  shows "inv s1 \<and> rp_Authenticate repo s1 (rg_InstallationID r) (rg_DeviceSecret r) = Inr (publicRegistration (stored r)) \<and>
    (\<forall>r'. rg_InstallationID r' = rg_InstallationID r \<longrightarrow> hash (rg_DeviceSecret r') \<noteq> hash (rg_DeviceSecret r) \<longrightarrow>
       rp_Upsert repo s1 r' = (s1, Some ErrDeviceSecretMismatch) \<and>
       rp_Delete repo s1 (rg_InstallationID r) (rg_DeviceSecret r') = (s1, Some ErrDeviceSecretMismatch))"
proof -
  have d: "rg_DeviceSecret r \<noteq> ''''" using assms(2) upsert_blank [of r s] by force
  have v: "inv s1 \<and> view s1 = (view s)(rg_InstallationID r \<mapsto>
      (publicRegistration (stored r), hash (rg_DeviceSecret r)))"
    using upsert_cases [OF assms(1), of r] assms(2,3) by auto
  hence here: "view s1 (rg_InstallationID r) = Some (publicRegistration (stored r), hash (rg_DeviceSecret r))"
    by simp
  have "secureHashEqual (hash (rg_DeviceSecret r)) (hash (rg_DeviceSecret r))"
    using assms(4) by (simp add: secureHashEqual_iff)
  hence "rp_Authenticate repo s1 (rg_InstallationID r) (rg_DeviceSecret r) = Inr (publicRegistration (stored r))"
    using authenticate_view d here v by simp
  thus ?thesis using v here upsert_mismatch [of s1] delete_mismatch [of s1] by (auto simp: secureHashEqual_iff)
qed

end

section \<open>The stores meet the contract\<close>

definition reg_inv :: "RegistrationStore \<Rightarrow> bool" where
  "reg_inv s \<longleftrightarrow> wf_map s \<and> (\<forall>i r. mget s i = Some r \<longrightarrow> rg_InstallationID r = i \<and> rg_DeviceSecret r = '''')"

definition reg_view :: "RegistrationStore \<Rightarrow> string \<Rightarrow> (Registration \<times> string) option" where
  "reg_view s i = map_option (\<lambda>r. (publicRegistration r, rg_DeviceSecretHash r)) (mget s i)"

lemma reg_inv_init: "reg_inv OpenStore"
  by (simp add: reg_inv_def OpenStore_def)

lemma secret_matches:
  "reg_inv s \<Longrightarrow> mget s i = Some r \<Longrightarrow>
   registrationSecretMatches sha256 r d \<longleftrightarrow> d \<noteq> '''' \<and> secureHashEqual (rg_DeviceSecretHash r) (hashSecret sha256 d)"
  by (auto simp: registrationSecretMatches_def reg_inv_def secureEqual_def secureHashEqual_iff)

lemma reg_inv_put: "reg_inv s \<Longrightarrow> rg_InstallationID r = i \<Longrightarrow> rg_DeviceSecret r = '''' \<Longrightarrow> reg_inv (mput i r s)"
  by (simp add: reg_inv_def)

lemma reg_inv_del: "reg_inv s \<Longrightarrow> reg_inv (mdel i s)"
  by (simp add: reg_inv_def)

lemma reg_inv_filter: "reg_inv s \<Longrightarrow> reg_inv (mfilter P s)"
  by (auto simp: reg_inv_def mfilter_get split: option.splits if_splits)

lemma reg_view_put: "reg_view (mput i r s) = (reg_view s)(i \<mapsto> (publicRegistration r, rg_DeviceSecretHash r))"
  by (auto simp: reg_view_def)

lemma reg_view_del: "reg_view (mdel i s) = (reg_view s)(i := None)"
  by (auto simp: reg_view_def)

lemma reg_view_list: "reg_inv s \<Longrightarrow>
  r \<in> (\<lambda>(_, r). publicRegistration r) ` set s \<longleftrightarrow> (\<exists>i h. reg_view s i = Some (r, h))"
  by (force simp: reg_view_def reg_inv_def mget_iff)

lemma reg_view_filter: "reg_inv s \<Longrightarrow> reg_view (mfilter P s) i =
    (case reg_view s i of None \<Rightarrow> None
     | Some (r, h) \<Rightarrow> if P i (the (mget s i)) then Some (r, h) else None)"
  by (auto simp: reg_view_def reg_inv_def mfilter_get split: option.splits)

lemma public_keeps: "rg_UserID (publicRegistration r) = rg_UserID r"
  "rg_InstallationID (publicRegistration r) = rg_InstallationID r"
  by (simp_all add: publicRegistration_def)

interpretation mem_reg: registration_repository "memory_registrations sha256" reg_inv reg_view "\<lambda>r. r"
    "hashSecret sha256" for sha256
proof (unfold_locales, goal_cases)
  case (1 s i r h) thus ?case by (auto simp: reg_view_def reg_inv_def public_keeps)
next
  case (5 s i) thus ?case
    by (auto simp: memory_registrations_def reg_Get_def reg_view_def split: option.splits)
next
  case (6 s r) thus ?case using reg_view_list [OF 6, of r] by (simp add: memory_registrations_def reg_List_def)
next
  case (7 s d i) thus ?case using secret_matches [OF 7(1)]
    by (auto simp: memory_registrations_def reg_Authenticate_def reg_view_def split: option.splits)
next
  case (8 r s) thus ?case by (simp add: memory_registrations_def reg_Upsert_def)
next
  case (9 s r r' h) thus ?case using secret_matches [OF 9(1)]
    by (auto simp: memory_registrations_def reg_Upsert_def reg_view_def Let_def split: option.splits)
next
  case (10 s r)
  let ?r = "r\<lparr> rg_DeviceSecretHash := hashSecret sha256 (rg_DeviceSecret r), rg_DeviceSecret := '''' \<rparr>"
  have "rp_Upsert (memory_registrations sha256) s r = (mput (rg_InstallationID r) ?r s, None)"
    using 10 secret_matches [OF 10(1)]
    by (auto simp: memory_registrations_def reg_Upsert_def reg_view_def Let_def reg_persistLocked_def split: option.splits)
  moreover have "publicRegistration ?r = publicRegistration r" by (simp add: publicRegistration_def)
  ultimately show ?case using reg_inv_put [OF 10(1), of ?r] by (simp add: reg_view_put)
next
  case (11 s i d) thus ?case by (simp add: memory_registrations_def reg_Delete_def reg_view_def)
next
  case (12 s i r h d) thus ?case using secret_matches [OF 12(1)]
    by (auto simp: memory_registrations_def reg_Delete_def reg_view_def split: option.splits)
next
  case (13 s i r h d) thus ?case using secret_matches [OF 13(1)] reg_inv_del [OF 13(1), of i]
    by (auto simp: memory_registrations_def reg_Delete_def reg_view_def reg_view_del Let_def reg_persistLocked_def
        intro!: ext split: option.splits)
next
  case (14 s u "is" s' res)
  let ?hit = "\<lambda>i r. \<not> (i \<notin> set (filter (\<lambda>i. i \<noteq> '''') (map trimSpace is)) \<and> (trimSpace u = '''' \<or> rg_UserID r \<noteq> trimSpace u))"
  have "s' = mfilter (\<lambda>i r. \<not> ?hit i r) s"
    using 14 by (auto simp: memory_registrations_def reg_DeleteForAccount_def Let_def reg_persistLocked_def split: if_splits)
  thus ?case using reg_inv_filter [OF 14(1)] reg_view_filter [OF 14(1)]
    by (auto simp: reg_view_def publicRegistration_def split: option.splits)
qed simp_all

lemma compactFrom_set: "set (compactFrom seen xs) = {v \<in> trimSpace ` set xs. v \<noteq> '''' \<and> v \<notin> seen}"
  by (induction seen xs rule: compactFrom.induct) (auto simp: Let_def)

lemma compactStrings_set: "set (compactStrings xs) = {v \<in> trimSpace ` set xs. v \<noteq> ''''}"
  by (simp add: compactStrings_def compactFrom_set)

interpretation pg_reg: registration_repository "postgres_registrations (\<lambda>_. True) sha256" reg_inv reg_view
    "\<lambda>r. r\<lparr> rg_UpdatedAt := pg_time (rg_UpdatedAt r) \<rparr>" "hashSecret sha256" for sha256
proof (unfold_locales, goal_cases)
  case (1 s i r h) thus ?case by (auto simp: reg_view_def reg_inv_def public_keeps)
next
  case (5 s i) thus ?case
    by (auto simp: postgres_registrations_def pg_Get_def reg_view_def split: option.splits)
next
  case (6 s r) thus ?case using reg_view_list [OF 6, of r] by (simp add: postgres_registrations_def pg_List_def)
next
  case (7 s d i) thus ?case
    by (auto simp: postgres_registrations_def pg_Authenticate_def reg_view_def split: option.splits)
next
  case (8 r s) thus ?case by (simp add: postgres_registrations_def pg_Upsert_def)
next
  case (9 s r r' h) thus ?case
    by (auto simp: postgres_registrations_def pg_Upsert_def reg_view_def split: option.splits)
next
  case (10 s r)
  let ?r = "r\<lparr> rg_DeviceSecretHash := hashSecret sha256 (rg_DeviceSecret r), rg_DeviceSecret := '''',
    rg_UpdatedAt := pg_time (rg_UpdatedAt r) \<rparr>"
  have "rp_Upsert (postgres_registrations (\<lambda>_. True) sha256) s r = (mput (rg_InstallationID r) ?r s, None)"
    using 10 by (auto simp: postgres_registrations_def pg_Upsert_def reg_view_def Let_def split: option.splits)
  moreover have "publicRegistration ?r = publicRegistration (r\<lparr> rg_UpdatedAt := pg_time (rg_UpdatedAt r) \<rparr>)"
    by (simp add: publicRegistration_def)
  ultimately show ?case using reg_inv_put [OF 10(1), of ?r] by (simp add: reg_view_put)
next
  case (11 s i d) thus ?case by (simp add: postgres_registrations_def pg_Delete_def reg_view_def)
next
  case (12 s i r h d) thus ?case
    by (auto simp: postgres_registrations_def pg_Delete_def reg_view_def split: option.splits)
next
  case (13 s i r h d) thus ?case using reg_inv_del [OF 13(1), of i]
    by (auto simp: postgres_registrations_def pg_Delete_def reg_view_def reg_view_del intro!: ext split: option.splits)
next
  case (14 s u "is" s' res)
  let ?hit = "\<lambda>i r. (trimSpace u \<noteq> '''' \<and> rg_UserID r = trimSpace u) \<or> i \<in> set (compactStrings is)"
  have "s' = mfilter (\<lambda>i r. \<not> ?hit i r) s"
    using 14 by (auto simp: postgres_registrations_def pg_DeleteForAccount_def Let_def)
  thus ?case using reg_inv_filter [OF 14(1)] reg_view_filter [OF 14(1)]
    by (auto simp: reg_view_def publicRegistration_def compactStrings_set split: option.splits)
qed simp_all

section \<open>What the repository promises\<close>


definition reg_demo :: Registration where
  "reg_demo = empty_Registration\<lparr> rg_InstallationID := ''i1'', rg_DeviceSecret := ''s1'' \<rparr>"

definition reg_demo_sha :: "string \<Rightarrow> string" where
  "reg_demo_sha v = take 32 (v @ replicate 32 CHR ''.'')"

lemma reg_demo_trim: "trimSpace ''i1'' = ''i1''"
  by code_simp


text \<open>Whatever database call of a write fails, the table is as before and the caller is told.\<close>

lemma pg_registration_atomic:
  "\<not> (db 0 \<and> db 1 \<and> db 2 \<and> db 3) \<Longrightarrow> \<exists>e. pg_Upsert db sha256 s r = (s, Some e)"
  "\<not> (db 0 \<and> db 1) \<Longrightarrow> \<exists>e. pg_Delete db sha256 s i d = (s, Some e)"
  by (auto simp: pg_Upsert_def pg_Delete_def Let_def split: option.split)

end
