(* ===== verification/Audit_Store.thy ===== *)
theory Audit_Store
  imports Credentials Go_Strings Registration_Store
begin

text \<open>
  The audit log: its port, the in-memory log (\<^verbatim>\<open>internal/storage/memory/audit_store.go\<close>) and the
  PostgreSQL one (\<^verbatim>\<open>internal/storage/postgres/postgres_audit.go\<close>), with the contract as the
  locale \<open>audit_repository\<close>. \<open>now\<close> is the clock reading, \<open>rnd\<close> the random bytes of a fresh id,
  \<open>db n\<close> whether the n-th database call succeeds.
\<close>

section \<open>The port\<close>

record 's AuditRepository =
  ar_Append :: "'s \<Rightarrow> AuditRecord \<Rightarrow> gotime \<Rightarrow> string option \<Rightarrow> 's \<times> err option"
  ar_ListAudit :: "'s \<Rightarrow> int \<Rightarrow> AuditRecord list"

section \<open>The in-memory log\<close>

type_synonym AuditStore = "AuditRecord list"

definition newMemoryAuditStore :: AuditStore where
  "newMemoryAuditStore = []"

definition audit_persistLocked :: "AuditStore \<Rightarrow> err option" where
  "audit_persistLocked s = None"

definition audit_trimLocked :: "AuditStore \<Rightarrow> AuditStore" where
  "audit_trimLocked s =
     (if length s \<le> MaxAuditRecords then s
      else let start = length s - MaxAuditRecords in drop start s)"

text \<open>The id and the timestamp a record gets when it has none.\<close>

definition audit_id :: "string option \<Rightarrow> AuditRecord \<Rightarrow> err + AuditRecord" where
  "audit_id rnd record =
     (if au_ID record = '''' then
        (case randomToken rnd ''audit_'' of Inl e \<Rightarrow> Inl e | Inr v \<Rightarrow> Inr (record\<lparr> au_ID := v \<rparr>))
      else Inr record)"

definition audit_stamp :: "gotime \<Rightarrow> AuditRecord \<Rightarrow> AuditRecord" where
  "audit_stamp now record =
     (if is_zero (au_Timestamp record) then record\<lparr> au_Timestamp := now \<rparr> else record)"

definition audit_Append :: "AuditStore \<Rightarrow> AuditRecord \<Rightarrow> gotime \<Rightarrow> string option
    \<Rightarrow> AuditStore \<times> err option" where
  "audit_Append s record now rnd =
     (case audit_id rnd record of
        Inl e \<Rightarrow> (s, Some e)
      | Inr record \<Rightarrow>
          (let record = audit_stamp now record;
               record = (if length (au_Detail record) > 1000
                         then record\<lparr> au_Detail := take 1000 (au_Detail record) \<rparr> else record);
               s' = audit_trimLocked (s @ [record])
           in (s', audit_persistLocked s')))"

definition audit_List :: "AuditStore \<Rightarrow> int \<Rightarrow> AuditRecord list" where
  "audit_List s limit =
     (let limit = (if limit \<le> 0 \<or> limit > 1000 then 200 else limit);
          start = int (length s) - limit;
          start = (if start < 0 then 0 else start)
      in sortSlice (\<lambda>a b. au_Timestamp a > au_Timestamp b) (drop (nat start) s))"

definition audit_ListAudit :: "AuditStore \<Rightarrow> int \<Rightarrow> AuditRecord list" where
  "audit_ListAudit s limit = audit_List s limit"

definition memory_audit :: "AuditStore AuditRepository" where
  "memory_audit = \<lparr> ar_Append = audit_Append, ar_ListAudit = audit_ListAudit \<rparr>"

section \<open>The PostgreSQL log\<close>

definition normalizeLimit :: "int \<Rightarrow> int \<Rightarrow> int \<Rightarrow> int" where
  "normalizeLimit limit fallback maximum =
     (if limit \<le> 0 \<or> limit > maximum then fallback else limit)"

text \<open>The replacement is the encoding of the replacement rune.\<close>

definition truncateAuditText :: "string \<Rightarrow> int \<Rightarrow> string" where
  "truncateAuditText v maxRunes =
     (if maxRunes \<le> 0 then ''''
      else let v = toValidUTF8 v (encodeRune runeError); rs = runes v
           in if int (length rs) \<le> maxRunes then v else of_runes (take (nat maxRunes) rs))"

definition truncateAuditRecord :: "AuditRecord \<Rightarrow> AuditRecord" where
  "truncateAuditRecord r = r\<lparr> au_Action := truncateAuditText (au_Action r) 128,
     au_Status := truncateAuditText (au_Status r) 64,
     au_InstallationID := truncateAuditText (au_InstallationID r) 256,
     au_UserID := truncateAuditText (au_UserID r) 256,
     au_ChannelID := truncateAuditText (au_ChannelID r) 256,
     au_EventID := truncateAuditText (au_EventID r) 256,
     au_Detail := truncateAuditText (au_Detail r) 1000 \<rparr>"

text \<open>\<^verbatim>\<open>ORDER BY timestamp DESC, id DESC\<close>.\<close>

definition audit_newest :: "AuditRecord list \<Rightarrow> AuditRecord list" where
  "audit_newest s = sortSlice (\<lambda>a b. (au_Timestamp a, au_ID a) > (au_Timestamp b, au_ID b)) s"

definition pg_audit_Append :: "(nat \<Rightarrow> bool) \<Rightarrow> AuditRecord list \<Rightarrow> AuditRecord \<Rightarrow> gotime
    \<Rightarrow> string option \<Rightarrow> AuditRecord list \<times> err option" where
  "pg_audit_Append db s record now rnd =
     (case audit_id rnd (truncateAuditRecord record) of
        Inl e \<Rightarrow> (s, Some e)
      | Inr record \<Rightarrow>
          (let record = audit_stamp now record;
               row = record\<lparr> au_Timestamp := pg_time (au_Timestamp record) \<rparr>
           in if \<not> db 0 then (s, Some (fmtDatabase ''begin audit append''))
              else if \<not> db 1 \<or> au_ID row \<in> au_ID ` set s then (s, Some (fmtDatabase ''insert audit record''))
              else if \<not> db 2 then (s, Some (fmtDatabase ''trim audit records''))
              else if \<not> db 3 then (s, Some (fmtDatabase ''audit append''))
              else (take MaxAuditRecords (audit_newest (row # s)), None)))"

definition pg_listAudit :: "(nat \<Rightarrow> bool) \<Rightarrow> AuditRecord list \<Rightarrow> int \<Rightarrow> AuditRecord list" where
  "pg_listAudit db s limit =
     (let limit = normalizeLimit limit 200 1000
      in if \<not> db 0 then [] else take (nat limit) (audit_newest s))"

definition postgres_audit :: "(nat \<Rightarrow> bool) \<Rightarrow> AuditRecord list AuditRepository" where
  "postgres_audit db = \<lparr> ar_Append = pg_audit_Append db, ar_ListAudit = pg_listAudit db \<rparr>"

section \<open>The contract\<close>

locale audit_repository =
  fixes repo :: "'s AuditRepository" and inv :: "'s \<Rightarrow> bool" and records :: "'s \<Rightarrow> AuditRecord list"
  assumes bound: "inv s \<Longrightarrow> length (records s) \<le> MaxAuditRecords"
    and append_keeps: "inv s \<Longrightarrow> ar_Append repo s r now rnd = (s', x) \<Longrightarrow> inv s' \<and>
      (if x = None then \<exists>a. au_ID a \<noteq> '''' \<and> (au_ID r \<noteq> '''' \<longrightarrow> au_ID a = au_ID r) \<and>
           set (records s') \<subseteq> insert a (set (records s)) \<and>
           (length (records s) < MaxAuditRecords \<longrightarrow> set (records s') = insert a (set (records s)))
       else records s' = records s)"
    and listed: "inv s \<Longrightarrow> set (ar_ListAudit repo s n) \<subseteq> set (records s) \<and>
      length (ar_ListAudit repo s n) \<le> 1000 \<and>
      sorted_wrt (\<lambda>a b. au_Timestamp b \<le> au_Timestamp a) (ar_ListAudit repo s n)"
begin

lemma run_bound:
  "inv s \<Longrightarrow> length (records (foldl (\<lambda>s (r, now, rnd). fst (ar_Append repo s r now rnd)) s xs)) \<le> MaxAuditRecords"
proof (induction xs arbitrary: s)
  case (Cons x xs)
  obtain r now rnd where x: "x = (r, now, rnd)" by (cases x)
  have "inv (fst (ar_Append repo s r now rnd))"
    using append_keeps [OF Cons.prems, of r now rnd] by (cases "ar_Append repo s r now rnd") auto
  thus ?case using Cons.IH by (simp add: x)
qed (simp add: bound)

end

section \<open>The logs meet the contract\<close>

definition audit_inv :: "AuditRecord list \<Rightarrow> bool" where
  "audit_inv s \<longleftrightarrow> length s \<le> MaxAuditRecords"

lemma audit_id_ok: "audit_id rnd r = Inr a \<Longrightarrow> au_ID a \<noteq> '''' \<and> (au_ID r \<noteq> '''' \<longrightarrow> au_ID a = au_ID r)"
  by (auto simp: audit_id_def randomToken_def split: if_splits option.splits)

lemma audit_stamp_id [simp]: "au_ID (audit_stamp now r) = au_ID r"
  by (simp add: audit_stamp_def)

lemma audit_trim: "length (audit_trimLocked s) \<le> MaxAuditRecords" "set (audit_trimLocked s) \<subseteq> set s"
  "length s \<le> MaxAuditRecords \<Longrightarrow> audit_trimLocked s = s"
  by (auto simp: audit_trimLocked_def Let_def dest: in_set_dropD)

lemma audit_Append_ok:
  assumes "audit_Append s r now rnd = (s', None)"
  shows "\<exists>a. au_ID a \<noteq> '''' \<and> (au_ID r \<noteq> '''' \<longrightarrow> au_ID a = au_ID r) \<and> s' = audit_trimLocked (s @ [a])"
proof -
  obtain a where "audit_id rnd r = Inr a" using assms by (auto simp: audit_Append_def split: sum.splits)
  thus ?thesis using assms audit_id_ok [of rnd r a]
    by (intro exI [of _ "let b = audit_stamp now a in if length (au_Detail b) > 1000 then b\<lparr> au_Detail := take 1000 (au_Detail b) \<rparr> else b"])
       (auto simp: audit_Append_def Let_def)
qed

lemma audit_Append_error: "audit_Append s r now rnd = (s', Some e) \<Longrightarrow> s' = s"
  by (auto simp: audit_Append_def Let_def audit_persistLocked_def split: sum.splits)

lemma audit_List_length: "length (audit_List s n) \<le> 1000"
  by (auto simp: audit_List_def Let_def)

interpretation mem_audit: audit_repository memory_audit audit_inv "\<lambda>s. s"
proof (unfold_locales, goal_cases)
  case (1 s) thus ?case by (simp add: audit_inv_def)
next
  case (2 s r now rnd s' x)
  hence ap: "audit_Append s r now rnd = (s', x)" by (simp add: memory_audit_def)
  show ?case
  proof (cases x)
    case None
    obtain a where a: "au_ID a \<noteq> ''''" "au_ID r \<noteq> '''' \<longrightarrow> au_ID a = au_ID r" "s' = audit_trimLocked (s @ [a])"
      using audit_Append_ok [OF ap [unfolded None]] by blast
    have "set s' \<subseteq> insert a (set s)" using a(3) audit_trim(2) [of "s @ [a]"] by auto
    moreover have "length s < MaxAuditRecords \<Longrightarrow> set s' = insert a (set s)"
      using a(3) audit_trim(3) [of "s @ [a]"] by simp
    ultimately show ?thesis using None a audit_trim(1) [of "s @ [a]"] by (auto simp: audit_inv_def)
  next
    case (Some e)
    thus ?thesis using audit_Append_error [OF ap [unfolded Some]] 2(1) by simp
  qed
next
  case (3 s n)
  have "sorted_wrt (\<lambda>a b. \<not> au_Timestamp a < au_Timestamp b) (audit_List s n)"
    unfolding audit_List_def Let_def by (rule key_desc.sorted_slice)
  moreover have "set (audit_List s n) \<subseteq> set s" by (auto simp: audit_List_def Let_def dest: in_set_dropD)
  ultimately show ?case using audit_List_length [of s n]
    by (simp add: memory_audit_def audit_ListAudit_def linorder_not_less)
qed

lemma sorted_wrt_take: "sorted_wrt P xs \<Longrightarrow> sorted_wrt P (take n xs)"
  by (metis append_take_drop_id sorted_wrt_append)

lemma set_take_all: "length xs \<le> n \<Longrightarrow> set (take n xs) = set xs"
  by simp

lemma audit_newest_props: "set (audit_newest s) = set s" "length (audit_newest s) = length s"
  "sorted_wrt (\<lambda>a b. au_Timestamp b \<le> au_Timestamp a) (audit_newest s)"
proof -
  have "sorted_wrt (\<lambda>a b. \<not> (au_Timestamp a, au_ID a) < (au_Timestamp b, au_ID b)) (audit_newest s)"
    unfolding audit_newest_def by (rule key_desc.sorted_slice)
  thus "sorted_wrt (\<lambda>a b. au_Timestamp b \<le> au_Timestamp a) (audit_newest s)"
    by (rule sorted_wrt_mono_rel [rotated]) (auto simp: linorder_not_less less_eq_prod_def)
qed (simp_all add: audit_newest_def)

interpretation pg_audit: audit_repository "postgres_audit db" audit_inv "\<lambda>s. s" for db
proof (unfold_locales, goal_cases)
  case (1 s) thus ?case by (simp add: audit_inv_def)
next
  case (2 s r now rnd s' x)
  hence ap: "pg_audit_Append db s r now rnd = (s', x)" by (simp add: postgres_audit_def)
  show ?case
  proof (cases x)
    case None
    obtain a where a: "audit_id rnd (truncateAuditRecord r) = Inr a"
      using ap None by (auto simp: pg_audit_Append_def split: sum.splits)
    define b where "b = (let c = audit_stamp now a in c\<lparr> au_Timestamp := pg_time (au_Timestamp c) \<rparr>)"
    have s': "s' = take MaxAuditRecords (audit_newest (b # s))"
      using ap a None by (auto simp: pg_audit_Append_def Let_def b_def split: if_splits)
    have "au_ID b \<noteq> '''' \<and> (au_ID r \<noteq> '''' \<longrightarrow> au_ID b = au_ID r)"
      using audit_id_ok [OF a] by (simp add: b_def Let_def truncateAuditRecord_def)
    moreover have "set s' \<subseteq> insert b (set s)"
      using audit_newest_props(1) [of "b # s"] by (auto simp: s' dest: in_set_takeD)
    moreover have "length s < MaxAuditRecords \<Longrightarrow> set s' = insert b (set s)"
      using set_take_all [of "audit_newest (b # s)" MaxAuditRecords] by (simp add: s' audit_newest_props)
    ultimately show ?thesis using None by (auto simp: audit_inv_def s')
  next
    case (Some e)
    hence "s' = s" using ap by (auto simp: pg_audit_Append_def Let_def split: sum.splits if_splits)
    thus ?thesis using Some 2(1) by simp
  qed
next
  case (3 s n)
  have "nat (normalizeLimit n 200 1000) \<le> 1000" by (auto simp: normalizeLimit_def)
  moreover have "set (pg_listAudit db s n) \<subseteq> set s"
    using audit_newest_props(1) [of s] by (auto simp: pg_listAudit_def Let_def dest: in_set_takeD)
  ultimately show ?case using sorted_wrt_take [OF audit_newest_props(3) [of s]]
    by (auto simp: postgres_audit_def pg_listAudit_def Let_def)
qed

section \<open>What the log promises\<close>



text \<open>What is written to the database is bounded and valid UTF-8.\<close>

lemma list_all_take: "list_all P xs \<Longrightarrow> list_all P (take n xs)"
  by (metis append_take_drop_id list_all_append)

lemma truncateAuditText_bound: "length (runes (truncateAuditText v (int n))) \<le> n"
  using list_all_take [OF runes_valid [of "toValidUTF8 v (encodeRune runeError)"], of n]
  by (auto simp: truncateAuditText_def Let_def runes_of_runes) (simp add: runes_def)

end
