(* ===== verification/Auth_Store.thy ===== *)
theory Auth_Store
  imports Credentials
begin

text \<open>
  The in-memory authentication repository, \<^verbatim>\<open>internal/storage/memory/auth_store.go\<close>: pending
  OAuth logins, one-time handoffs, sealed credentials and device sessions, each kept under the
  hash of its secret. \<open>sha256\<close> and \<open>aead\<close> are the parameters of theory \<open>Credentials\<close>, \<open>now\<close> the
  clock readings an operation makes, \<open>rnd\<close> what the random source gives. An operation that
  changes the store returns the new store first.
\<close>

definition newAuthState :: AuthDiskState where
  "newAuthState = \<lparr> ad_Credentials = [], ad_Sessions = [], ad_Pending = [], ad_Handoffs = [] \<rparr>"

text \<open>Opening a store: \<open>newGCM\<close> is the parameter that makes the cipher of a 32-byte key.\<close>

definition OpenAuthStore :: "(string \<Rightarrow> AEAD) \<Rightarrow> string \<Rightarrow> err + AEAD \<times> AuthDiskState" where
  "OpenAuthStore newGCM base64Key = (case DecodeAuthKey base64Key of
       Inl e \<Rightarrow> Inl e
     | Inr key \<Rightarrow> Inr (newGCM key, newAuthState))"

definition auth_persistLocked :: "AuthDiskState \<Rightarrow> err option" where
  "auth_persistLocked s = None"

definition credentialInUseLocked :: "AuthDiskState \<Rightarrow> string \<Rightarrow> bool" where
  "credentialInUseLocked s credentialID \<longleftrightarrow>
     (\<exists>session \<in> set (map snd (ad_Sessions s)). se_CredentialID session = credentialID) \<or>
     (\<exists>handoff \<in> set (map snd (ad_Handoffs s)). ho_CredentialID handoff = credentialID)"

definition dropUnusedCredentials :: "AuthDiskState \<Rightarrow> AuthDiskState" where
  "dropUnusedCredentials s =
     s\<lparr> ad_Credentials := mfilter (\<lambda>i _. credentialInUseLocked s i) (ad_Credentials s) \<rparr>"

definition cleanupExpiredLocked :: "gotime \<Rightarrow> AuthDiskState \<Rightarrow> AuthDiskState" where
  "cleanupExpiredLocked now s =
     (let s = s\<lparr> ad_Pending := mfilter (\<lambda>_ p. \<not> now > pa_ExpiresAt p) (ad_Pending s) \<rparr>;
          s = s\<lparr> ad_Handoffs := mfilter (\<lambda>_ h. \<not> now > ho_ExpiresAt h) (ad_Handoffs s) \<rparr>;
          s = s\<lparr> ad_Sessions := mfilter (\<lambda>_ x. \<not> now > se_ExpiresAt x) (ad_Sessions s) \<rparr>
      in dropUnusedCredentials s)"

section \<open>Pending logins\<close>

definition PutPending :: "(string \<Rightarrow> string) \<Rightarrow> AuthDiskState \<Rightarrow> string \<Rightarrow> PendingAuthRecord \<Rightarrow> gotime
    \<Rightarrow> AuthDiskState \<times> err option" where
  "PutPending sha256 s state record now =
     (let s = cleanupExpiredLocked now s;
          s = s\<lparr> ad_Pending := mfilter (\<lambda>_ existing.
                 \<not> (pa_InstallationID existing = pa_InstallationID record \<and>
                    secureHashEqual (pa_DeviceHash existing) (pa_DeviceHash record))) (ad_Pending s) \<rparr>
      in if length (ad_Pending s) \<ge> MaxPendingAuthRecords then (s, Some ErrAuthCapacity)
         else let s' = s\<lparr> ad_Pending := mput (hashSecret sha256 state) record (ad_Pending s) \<rparr>
              in (s', auth_persistLocked s'))"

definition GetPending :: "(string \<Rightarrow> string) \<Rightarrow> AuthDiskState \<Rightarrow> string \<Rightarrow> gotime
    \<Rightarrow> err + PendingAuthRecord" where
  "GetPending sha256 s state now = (case mget (ad_Pending s) (hashSecret sha256 state) of
       None \<Rightarrow> Inl ErrAuthNotFound
     | Some record \<Rightarrow> if now > pa_ExpiresAt record then Inl ErrAuthExpired else Inr record)"

definition ConsumePending :: "(string \<Rightarrow> string) \<Rightarrow> AuthDiskState \<Rightarrow> string \<Rightarrow> gotime
    \<Rightarrow> AuthDiskState \<times> (err + PendingAuthRecord)" where
  "ConsumePending sha256 s state now =
     (let key = hashSecret sha256 state
      in case mget (ad_Pending s) key of
           None \<Rightarrow> (s, Inl ErrAuthNotFound)
         | Some record \<Rightarrow>
             (let s' = s\<lparr> ad_Pending := mdel key (ad_Pending s) \<rparr>
              in case auth_persistLocked s' of
                   Some e \<Rightarrow> (s', Inl e)
                 | None \<Rightarrow> if now > pa_ExpiresAt record then (s', Inl ErrAuthExpired)
                           else (s', Inr record)))"

section \<open>Handoffs and credentials\<close>

text \<open>The common part of \<^verbatim>\<open>PutHandoff\<close> and \<^verbatim>\<open>PutCredentialAndHandoff\<close>: the new handoff
  replaces those of the device, and is withdrawn when the store is full. \<open>now\<close> and \<open>now'\<close> are
  the two clock readings.\<close>

definition storeHandoff :: "(string \<Rightarrow> string) \<Rightarrow> AuthDiskState \<Rightarrow> string \<Rightarrow> AuthHandoffRecord
    \<Rightarrow> gotime \<Rightarrow> gotime \<Rightarrow> AuthDiskState \<times> err option" where
  "storeHandoff sha256 s code record now now' =
     (let s = s\<lparr> ad_Handoffs := mfilter (\<lambda>_ existing.
                 \<not> (ho_InstallationID existing = ho_InstallationID record \<and>
                    secureHashEqual (ho_DeviceHash existing) (ho_DeviceHash record))) (ad_Handoffs s) \<rparr>;
          handoffKey = hashSecret sha256 code;
          s = s\<lparr> ad_Handoffs := mput handoffKey record (ad_Handoffs s) \<rparr>;
          s = cleanupExpiredLocked now s
      in if length (ad_Handoffs s) > MaxAuthHandoffs then
           (let s = s\<lparr> ad_Handoffs := mdel handoffKey (ad_Handoffs s) \<rparr>;
                s = cleanupExpiredLocked now' s
            in case auth_persistLocked s of
                 Some e \<Rightarrow> (s, Some e)
               | None \<Rightarrow> (s, Some ErrAuthCapacity))
         else (s, auth_persistLocked s))"

definition PutHandoff :: "(string \<Rightarrow> string) \<Rightarrow> AuthDiskState \<Rightarrow> string \<Rightarrow> AuthHandoffRecord
    \<Rightarrow> gotime \<Rightarrow> gotime \<Rightarrow> AuthDiskState \<times> err option" where
  "PutHandoff sha256 s code record now now' = storeHandoff sha256 s code record now now'"

definition ConsumeHandoff :: "(string \<Rightarrow> string) \<Rightarrow> AuthDiskState \<Rightarrow> string \<Rightarrow> string \<Rightarrow> string \<Rightarrow> string
    \<Rightarrow> gotime \<Rightarrow> AuthDiskState \<times> (err + AuthHandoffRecord)" where
  "ConsumeHandoff sha256 s code installationID deviceSecret state now =
     (let key = hashSecret sha256 code
      in case mget (ad_Handoffs s) key of
           None \<Rightarrow> (s, Inl ErrAuthNotFound)
         | Some record \<Rightarrow>
             if now > ho_ExpiresAt record then
               (s\<lparr> ad_Handoffs := mdel key (ad_Handoffs s) \<rparr>, Inl ErrAuthExpired)
             else if ho_InstallationID record \<noteq> installationID \<or>
                     \<not> secureHashEqual (ho_DeviceHash record) (hashSecret sha256 deviceSecret) then
               (s, Inl ErrAuthDeviceMismatch)
             else if \<not> secureHashEqual (ho_StateHash record) (hashSecret sha256 state) then
               (s, Inl ErrAuthStateMismatch)
             else
               (let s' = s\<lparr> ad_Handoffs := mdel key (ad_Handoffs s) \<rparr>
                in case auth_persistLocked s' of
                     Some e \<Rightarrow> (s', Inl e)
                   | None \<Rightarrow> (s', Inr record)))"

definition setCredentialLocked :: "AEAD option \<Rightarrow> AuthDiskState \<Rightarrow> AuthCredential
    \<Rightarrow> string option \<Rightarrow> string option \<Rightarrow> err + AuthDiskState" where
  "setCredentialLocked aead s credential rnd rnd' =
     (case sealAuthValue aead rnd (ac_ID credential @ '':access'') (ac_AccessToken credential) of
        Inl e \<Rightarrow> Inl e
      | Inr access \<Rightarrow>
          (case sealAuthValue aead rnd' (ac_ID credential @ '':refresh'') (ac_RefreshToken credential) of
             Inl e \<Rightarrow> Inl e
           | Inr refresh \<Rightarrow>
               Inr (s\<lparr> ad_Credentials := mput (ac_ID credential)
                 \<lparr> cr_ID = ac_ID credential, cr_ClientID = ac_ClientID credential,
                   cr_UserID = ac_UserID credential, cr_Login = ac_Login credential,
                   cr_Scopes = ac_Scopes credential, cr_AccessToken = access,
                   cr_RefreshToken = refresh, cr_AccessExpiresAt = ac_AccessExpiresAt credential,
                   cr_LastValidatedAt = ac_LastValidatedAt credential,
                   cr_UpdatedAt = ac_UpdatedAt credential \<rparr> (ad_Credentials s) \<rparr>)))"

definition PutCredential :: "AEAD option \<Rightarrow> AuthDiskState \<Rightarrow> AuthCredential
    \<Rightarrow> string option \<Rightarrow> string option \<Rightarrow> AuthDiskState \<times> err option" where
  "PutCredential aead s credential rnd rnd' =
     (case setCredentialLocked aead s credential rnd rnd' of
        Inl e \<Rightarrow> (s, Some e)
      | Inr s' \<Rightarrow> (s', auth_persistLocked s'))"

definition PutCredentialAndHandoff :: "(string \<Rightarrow> string) \<Rightarrow> AEAD option \<Rightarrow> AuthDiskState
    \<Rightarrow> AuthCredential \<Rightarrow> string \<Rightarrow> AuthHandoffRecord \<Rightarrow> string option \<Rightarrow> string option
    \<Rightarrow> gotime \<Rightarrow> gotime \<Rightarrow> AuthDiskState \<times> err option" where
  "PutCredentialAndHandoff sha256 aead s credential code record rnd rnd' now now' =
     (if ac_ID credential = '''' \<or> ho_CredentialID record \<noteq> ac_ID credential
      then (s, Some (ErrText ''credential and handoff do not match''))
      else case setCredentialLocked aead s credential rnd rnd' of
             Inl e \<Rightarrow> (s, Some e)
           | Inr s' \<Rightarrow> storeHandoff sha256 s' code record now now')"

definition open_credential :: "AEAD option \<Rightarrow> string \<Rightarrow> AuthCredentialRecord \<Rightarrow> err + AuthCredential" where
  "open_credential aead i record =
     (case openAuthValue aead (i @ '':access'') (cr_AccessToken record) of
        Inl e \<Rightarrow> Inl e
      | Inr access \<Rightarrow>
          (case openAuthValue aead (i @ '':refresh'') (cr_RefreshToken record) of
             Inl e \<Rightarrow> Inl e
           | Inr refresh \<Rightarrow>
               Inr \<lparr> ac_ID = cr_ID record, ac_ClientID = cr_ClientID record,
                     ac_UserID = cr_UserID record, ac_Login = cr_Login record,
                     ac_Scopes = cr_Scopes record, ac_AccessToken = access,
                     ac_RefreshToken = refresh, ac_AccessExpiresAt = cr_AccessExpiresAt record,
                     ac_LastValidatedAt = cr_LastValidatedAt record,
                     ac_UpdatedAt = cr_UpdatedAt record \<rparr>))"

definition GetCredential :: "AEAD option \<Rightarrow> AuthDiskState \<Rightarrow> string \<Rightarrow> err + AuthCredential" where
  "GetCredential aead s i = (case mget (ad_Credentials s) i of
       None \<Rightarrow> Inl ErrAuthNotFound
     | Some record \<Rightarrow> open_credential aead i record)"

definition CredentialForInstallation :: "(string \<Rightarrow> string) \<Rightarrow> AEAD option \<Rightarrow> AuthDiskState
    \<Rightarrow> string \<Rightarrow> string \<Rightarrow> gotime \<Rightarrow> err + AuthCredential" where
  "CredentialForInstallation sha256 aead s installationID deviceSecret now =
     (case find (\<lambda>session. \<not> (se_InstallationID session \<noteq> installationID \<or> now > se_ExpiresAt session \<or>
              \<not> secureHashEqual (se_DeviceHash session) (hashSecret sha256 deviceSecret)))
            (map snd (ad_Sessions s)) of
        None \<Rightarrow> Inl ErrAuthNotFound
      | Some session \<Rightarrow> (case mget (ad_Credentials s) (se_CredentialID session) of
            None \<Rightarrow> Inl ErrAuthNotFound
          | Some record \<Rightarrow> open_credential aead (cr_ID record) record))"

definition DeleteCredentialIfUnused :: "AuthDiskState \<Rightarrow> string \<Rightarrow> AuthDiskState \<times> err option" where
  "DeleteCredentialIfUnused s credentialID =
     (if credentialInUseLocked s credentialID then (s, None)
      else if mget (ad_Credentials s) credentialID = None then (s, None)
      else let s' = s\<lparr> ad_Credentials := mdel credentialID (ad_Credentials s) \<rparr>
           in (s', auth_persistLocked s'))"

section \<open>Sessions\<close>

text \<open>The sessions a new one replaces: the expired ones and those of the installation.\<close>

definition dropReplacedSessions :: "gotime \<Rightarrow> string \<Rightarrow> AuthDiskState \<Rightarrow> AuthDiskState" where
  "dropReplacedSessions now installationID s =
     s\<lparr> ad_Sessions := mfilter (\<lambda>_ existing.
          \<not> (now > se_ExpiresAt existing \<or> se_InstallationID existing = installationID))
          (ad_Sessions s) \<rparr>"

definition CreateSession :: "(string \<Rightarrow> string) \<Rightarrow> AuthDiskState \<Rightarrow> string \<Rightarrow> string \<Rightarrow> string
    \<Rightarrow> duration \<Rightarrow> gotime \<Rightarrow> string option \<Rightarrow> AuthDiskState \<times> (err + string \<times> gotime)" where
  "CreateSession sha256 s credentialID installationID deviceSecret ttl now rnd =
     (if mget (ad_Credentials s) credentialID = None then (s, Inl ErrAuthNotFound)
      else
        (let expectedDeviceHash = hashSecret sha256 deviceSecret
         in if \<exists>existing \<in> set (map snd (ad_Sessions s)).
                 se_InstallationID existing = installationID \<and> \<not> now > se_ExpiresAt existing \<and>
                 \<not> secureHashEqual (se_DeviceHash existing) expectedDeviceHash
            then (s, Inl ErrAuthDeviceMismatch)
            else
              (let s = dropReplacedSessions now installationID s
               in if length (ad_Sessions s) \<ge> MaxAuthSessions then (s, Inl ErrAuthCapacity)
                  else case randomToken rnd ''fsv1_'' of
                    Inl e \<Rightarrow> (s, Inl e)
                  | Inr token \<Rightarrow>
                      (let expiresAt = now + ttl;
                           s = s\<lparr> ad_Sessions := mput (hashSecret sha256 token)
                                  \<lparr> se_CredentialID = credentialID,
                                    se_InstallationID = installationID,
                                    se_DeviceHash = expectedDeviceHash,
                                    se_CreatedAt = now, se_ExpiresAt = expiresAt \<rparr> (ad_Sessions s) \<rparr>;
                           s = cleanupExpiredLocked now s
                       in case auth_persistLocked s of
                            Some e \<Rightarrow> (s, Inl e)
                          | None \<Rightarrow> (s, Inr (token, expiresAt))))))"

definition dropCredentialIfFree :: "string \<Rightarrow> AuthDiskState \<Rightarrow> AuthDiskState" where
  "dropCredentialIfFree credentialID s =
     (if \<not> credentialInUseLocked s credentialID
      then s\<lparr> ad_Credentials := mdel credentialID (ad_Credentials s) \<rparr> else s)"

definition ResolveSession :: "(string \<Rightarrow> string) \<Rightarrow> AuthDiskState \<Rightarrow> string \<Rightarrow> string \<Rightarrow> string
    \<Rightarrow> duration \<Rightarrow> gotime \<Rightarrow> AuthDiskState \<times> (err + AuthSessionRecord)" where
  "ResolveSession sha256 s token installationID deviceSecret renewTTL now =
     (let key = hashSecret sha256 token
      in case mget (ad_Sessions s) key of
           None \<Rightarrow> (s, Inl ErrAuthNotFound)
         | Some record \<Rightarrow>
             if now > se_ExpiresAt record then
               (dropCredentialIfFree (se_CredentialID record)
                  (s\<lparr> ad_Sessions := mdel key (ad_Sessions s) \<rparr>), Inl ErrAuthExpired)
             else if se_InstallationID record \<noteq> installationID \<or>
                     \<not> secureHashEqual (se_DeviceHash record) (hashSecret sha256 deviceSecret) then
               (s, Inl ErrAuthDeviceMismatch)
             else if renewTTL > 0 \<and> se_ExpiresAt record < now + renewTTL div 2 then
               (let record = record\<lparr> se_ExpiresAt := now + renewTTL \<rparr>;
                    s' = s\<lparr> ad_Sessions := mput key record (ad_Sessions s) \<rparr>
                in case auth_persistLocked s' of
                     Some e \<Rightarrow> (s', Inl e)
                   | None \<Rightarrow> (s', Inr record))
             else (s, Inr record))"

definition SessionAccount :: "(string \<Rightarrow> string) \<Rightarrow> AuthDiskState \<Rightarrow> string \<Rightarrow> string \<Rightarrow> string
    \<Rightarrow> gotime \<Rightarrow> err + string \<times> bool" where
  "SessionAccount sha256 s token installationID deviceSecret now =
     (case mget (ad_Sessions s) (hashSecret sha256 token) of
        None \<Rightarrow> Inl ErrAuthNotFound
      | Some record \<Rightarrow>
          if se_InstallationID record \<noteq> installationID \<or>
             \<not> secureHashEqual (se_DeviceHash record) (hashSecret sha256 deviceSecret)
          then Inl ErrAuthDeviceMismatch
          else case mget (ad_Credentials s) (se_CredentialID record) of
                 None \<Rightarrow> Inl ErrAuthNotFound
               | Some credential \<Rightarrow>
                   if trimSpace (cr_UserID credential) = '''' then Inl ErrAuthNotFound
                   else Inr (cr_UserID credential, now > se_ExpiresAt record))"

definition DeleteSession :: "(string \<Rightarrow> string) \<Rightarrow> AuthDiskState \<Rightarrow> string \<Rightarrow> string \<Rightarrow> string
    \<Rightarrow> AuthDiskState \<times> err option" where
  "DeleteSession sha256 s token installationID deviceSecret =
     (let key = hashSecret sha256 token
      in case mget (ad_Sessions s) key of
           None \<Rightarrow> (s, Some ErrAuthNotFound)
         | Some record \<Rightarrow>
             if se_InstallationID record \<noteq> installationID \<or>
                \<not> secureHashEqual (se_DeviceHash record) (hashSecret sha256 deviceSecret)
             then (s, Some ErrAuthDeviceMismatch)
             else let s' = dropCredentialIfFree (se_CredentialID record)
                             (s\<lparr> ad_Sessions := mdel key (ad_Sessions s) \<rparr>)
                  in (s', auth_persistLocked s'))"

section \<open>Revocation\<close>

definition InstallationBinding :: "(string \<Rightarrow> string) \<Rightarrow> AuthDiskState \<Rightarrow> string \<Rightarrow> string
    \<Rightarrow> bool \<times> err option" where
  "InstallationBinding sha256 s installationID deviceSecret =
     (let deviceHash = hashSecret sha256 deviceSecret;
          artifacts = map (\<lambda>x. (se_InstallationID x, se_DeviceHash x)) (map snd (ad_Sessions s)) @
                      map (\<lambda>x. (pa_InstallationID x, pa_DeviceHash x)) (map snd (ad_Pending s)) @
                      map (\<lambda>x. (ho_InstallationID x, ho_DeviceHash x)) (map snd (ad_Handoffs s));
          own = filter (\<lambda>(i, _). i = installationID) artifacts
      in if \<exists>(_, h) \<in> set own. secureHashEqual h deviceHash then (True, None)
         else if own \<noteq> [] then (False, Some ErrAuthDeviceMismatch)
         else (False, Some ErrAuthNotFound))"

text \<open>One deleting loop of \<^verbatim>\<open>RevokeInstallation\<close> over one of the three maps: entries of the
  installation are deleted one by one, and the loop ends with False at the first one of another
  device secret.\<close>

fun revokeScan :: "('v \<Rightarrow> string) \<Rightarrow> ('v \<Rightarrow> string) \<Rightarrow> string \<Rightarrow> string \<Rightarrow> (string, 'v) gomap
    \<Rightarrow> (string, 'v) gomap \<Rightarrow> int \<Rightarrow> (string, 'v) gomap \<times> int \<times> bool" where
  "revokeScan inst dev installationID deviceHash [] m removed = (m, removed, True)"
| "revokeScan inst dev installationID deviceHash ((key, v) # rest) m removed =
     (if inst v \<noteq> installationID
      then revokeScan inst dev installationID deviceHash rest m removed
      else if \<not> secureHashEqual (dev v) deviceHash then (m, removed, False)
      else revokeScan inst dev installationID deviceHash rest (mdel key m) (removed + 1))"

definition RevokeInstallation :: "(string \<Rightarrow> string) \<Rightarrow> AuthDiskState \<Rightarrow> string \<Rightarrow> string
    \<Rightarrow> AuthDiskState \<times> int \<times> err option" where
  "RevokeInstallation sha256 s installationID deviceSecret =
     (let deviceHash = hashSecret sha256 deviceSecret;
          (sessions, removedSessions, ok1) =
            revokeScan se_InstallationID se_DeviceHash installationID deviceHash
              (ad_Sessions s) (ad_Sessions s) 0;
          s = s\<lparr> ad_Sessions := sessions \<rparr>
      in if \<not> ok1 then (s, 0, Some ErrAuthDeviceMismatch)
         else
           (let (pending, removedPending, ok2) =
                  revokeScan pa_InstallationID pa_DeviceHash installationID deviceHash
                    (ad_Pending s) (ad_Pending s) 0;
                s = s\<lparr> ad_Pending := pending \<rparr>
            in if \<not> ok2 then (s, 0, Some ErrAuthDeviceMismatch)
               else
                 (let (handoffs, removedHandoffs, ok3) =
                        revokeScan ho_InstallationID ho_DeviceHash installationID deviceHash
                          (ad_Handoffs s) (ad_Handoffs s) 0;
                      s = s\<lparr> ad_Handoffs := handoffs \<rparr>
                  in if \<not> ok3 then (s, 0, Some ErrAuthDeviceMismatch)
                     else
                       (let s' = dropUnusedCredentials s;
                            mutated = (removedSessions > 0 \<or> removedPending > 0 \<or> removedHandoffs > 0 \<or>
                                       length (ad_Credentials s') < length (ad_Credentials s))
                        in if \<not> mutated then (s', 0, None)
                           else (s', removedSessions, auth_persistLocked s')))))"

fun open_all :: "AEAD option \<Rightarrow> (string, AuthCredentialRecord) gomap \<Rightarrow> err + AuthCredential list" where
  "open_all aead [] = Inr []"
| "open_all aead ((i, record) # rest) = (case open_credential aead i record of
       Inl e \<Rightarrow> Inl e
     | Inr c \<Rightarrow> (case open_all aead rest of Inl e \<Rightarrow> Inl e | Inr cs \<Rightarrow> Inr (c # cs)))"

definition AccountTargets :: "AEAD option \<Rightarrow> AuthDiskState \<Rightarrow> string
    \<Rightarrow> err + AccountRevocationTargets" where
  "AccountTargets aead s userID =
     (let userID = trimSpace userID
      in if userID = '''' then Inl ErrAuthNotFound
         else
           (let own = filter (\<lambda>(_, record). cr_UserID record = userID) (ad_Credentials s)
            in case open_all aead own of
                 Inl e \<Rightarrow> Inl e
               | Inr credentials \<Rightarrow>
                   Inr \<lparr> rt_InstallationIDs = sort (remdups (map se_InstallationID
                           (filter (\<lambda>session. se_CredentialID session \<in> set (map fst own))
                             (map snd (ad_Sessions s))))),
                         rt_Credentials = sortSlice (\<lambda>a b. ac_ID a < ac_ID b) credentials \<rparr>))"

text \<open>The handoff loop of \<^verbatim>\<open>RevokeAccount\<close>: a matching handoff is deleted and its installation
  joins the set that later handoffs are matched against.\<close>

fun revokeHandoffs :: "string set \<Rightarrow> (string, AuthHandoffRecord) gomap
    \<Rightarrow> (string, AuthHandoffRecord) gomap \<Rightarrow> string set \<Rightarrow> (string, AuthHandoffRecord) gomap \<times> string set" where
  "revokeHandoffs credentialIDs [] m installations = (m, installations)"
| "revokeHandoffs credentialIDs ((key, handoff) # rest) m installations =
     (if ho_CredentialID handoff \<notin> credentialIDs \<and> ho_InstallationID handoff \<notin> installations
      then revokeHandoffs credentialIDs rest m installations
      else revokeHandoffs credentialIDs rest (mdel key m)
             (insert (ho_InstallationID handoff) installations))"

definition RevokeAccount :: "AuthDiskState \<Rightarrow> string \<Rightarrow> string list
    \<Rightarrow> AuthDiskState \<times> (err + AccountRevocationResult)" where
  "RevokeAccount s userID extraInstallationIDs =
     (let userID = trimSpace userID
      in if userID = '''' then (s, Inl ErrAuthNotFound)
         else
           (let credentialIDs = set (map fst (filter (\<lambda>(_, c). cr_UserID c = userID) (ad_Credentials s)));
                installations = set (filter (\<lambda>i. i \<noteq> '''') (map trimSpace extraInstallationIDs));
                hit = (\<lambda>session. se_CredentialID session \<in> credentialIDs);
                removed = filter hit (map snd (ad_Sessions s));
                installations = installations \<union> set (map se_InstallationID removed);
                s1 = s\<lparr> ad_Sessions := mfilter (\<lambda>_ x. \<not> hit x) (ad_Sessions s) \<rparr>;
                (handoffs, installations) =
                  revokeHandoffs credentialIDs (ad_Handoffs s1) (ad_Handoffs s1) installations;
                s2 = s1\<lparr> ad_Handoffs := handoffs \<rparr>;
                s3 = s2\<lparr> ad_Pending := mfilter (\<lambda>_ p. pa_InstallationID p \<notin> installations)
                                        (ad_Pending s2) \<rparr>;
                s4 = s3\<lparr> ad_Credentials := mfilter (\<lambda>i _. i \<notin> credentialIDs) (ad_Credentials s3) \<rparr>;
                s5 = dropUnusedCredentials s4
            in (s5, Inr \<lparr> rr_RemovedSessions = int (length removed),
                          rr_RemovedCredentials =
                            int (length (ad_Credentials s3) - length (ad_Credentials s4)) \<rparr>)))"

end
