(* ===== verification/Auth_Laws.thy ===== *)
theory Auth_Laws
  imports Auth_Store
begin

text \<open>
  The invariant of the authentication store and that every operation keeps it. Deletions are
  covered by one lemma: a store that is part of a good one, and keeps the credentials it still
  refers to, is good.
\<close>

section \<open>The invariant\<close>

definition one_per_device :: "('v \<Rightarrow> string) \<Rightarrow> ('v \<Rightarrow> string) \<Rightarrow> (string, 'v) gomap \<Rightarrow> bool" where
  "one_per_device inst dev m \<longleftrightarrow> (\<forall>k k' x x'. mget m k = Some x \<longrightarrow> mget m k' = Some x' \<longrightarrow>
     inst x = inst x' \<longrightarrow> secureHashEqual (dev x) (dev x') \<longrightarrow> k = k')"

definition one_per_installation :: "(string, AuthSessionRecord) gomap \<Rightarrow> bool" where
  "one_per_installation m \<longleftrightarrow> (\<forall>k k' x x'. mget m k = Some x \<longrightarrow> mget m k' = Some x' \<longrightarrow>
     se_InstallationID x = se_InstallationID x' \<longrightarrow> k = k')"

definition auth_core :: "AuthDiskState \<Rightarrow> bool" where
  "auth_core s \<longleftrightarrow>
     wf_map (ad_Credentials s) \<and> wf_map (ad_Sessions s) \<and> wf_map (ad_Pending s) \<and> wf_map (ad_Handoffs s) \<and>
     (\<forall>i c. mget (ad_Credentials s) i = Some c \<longrightarrow> cr_ID c = i) \<and>
     (\<forall>k x. mget (ad_Sessions s) k = Some x \<longrightarrow> mget (ad_Credentials s) (se_CredentialID x) \<noteq> None) \<and>
     (\<forall>k x. mget (ad_Handoffs s) k = Some x \<longrightarrow> mget (ad_Credentials s) (ho_CredentialID x) \<noteq> None) \<and>
     one_per_installation (ad_Sessions s) \<and>
     one_per_device pa_InstallationID pa_DeviceHash (ad_Pending s) \<and>
     one_per_device ho_InstallationID ho_DeviceHash (ad_Handoffs s)"

definition auth_inv :: "AuthDiskState \<Rightarrow> bool" where
  "auth_inv s \<longleftrightarrow> auth_core s \<and> length (ad_Sessions s) \<le> MaxAuthSessions \<and>
     length (ad_Pending s) \<le> MaxPendingAuthRecords \<and> length (ad_Handoffs s) \<le> MaxAuthHandoffs"

lemma auth_inv_init: "auth_inv newAuthState"
  by (simp add: auth_inv_def auth_core_def newAuthState_def one_per_device_def one_per_installation_def)

lemma auth_invD: "auth_inv s \<Longrightarrow> auth_core s"
  by (simp add: auth_inv_def)

lemma auth_coreD:
  assumes "auth_core s"
  shows "wf_map (ad_Credentials s)" "wf_map (ad_Sessions s)" "wf_map (ad_Pending s)"
    "wf_map (ad_Handoffs s)" "one_per_installation (ad_Sessions s)"
    "one_per_device pa_InstallationID pa_DeviceHash (ad_Pending s)"
    "one_per_device ho_InstallationID ho_DeviceHash (ad_Handoffs s)"
  using assms by (auto simp: auth_core_def)

section \<open>Deletions\<close>

definition auth_sub :: "AuthDiskState \<Rightarrow> AuthDiskState \<Rightarrow> bool" where
  "auth_sub s' s \<longleftrightarrow> submap (ad_Sessions s') (ad_Sessions s) \<and> submap (ad_Pending s') (ad_Pending s) \<and>
     submap (ad_Handoffs s') (ad_Handoffs s) \<and> submap (ad_Credentials s') (ad_Credentials s) \<and>
     (\<forall>i. credentialInUseLocked s' i \<longrightarrow> mget (ad_Credentials s') i = mget (ad_Credentials s) i)"

lemma auth_sub_lengths:
  assumes "auth_sub s' s"
  shows "length (ad_Sessions s') \<le> length (ad_Sessions s)" "length (ad_Pending s') \<le> length (ad_Pending s)"
    "length (ad_Handoffs s') \<le> length (ad_Handoffs s)"
  using assms by (simp_all add: auth_sub_def submap_def)

lemma auth_sub_gets:
  assumes "auth_sub s' s"
  shows "mget (ad_Sessions s') k = Some x \<Longrightarrow> mget (ad_Sessions s) k = Some x"
    "mget (ad_Pending s') k = Some p \<Longrightarrow> mget (ad_Pending s) k = Some p"
    "mget (ad_Handoffs s') k = Some h \<Longrightarrow> mget (ad_Handoffs s) k = Some h"
    "mget (ad_Credentials s') k = Some c \<Longrightarrow> mget (ad_Credentials s) k = Some c"
  using assms by (simp_all add: auth_sub_def submap_def)

lemma one_per_device_sub: "one_per_device inst dev m \<Longrightarrow> submap m' m \<Longrightarrow> one_per_device inst dev m'"
  unfolding one_per_device_def submap_def by blast

lemma one_per_installation_sub: "one_per_installation m \<Longrightarrow> submap m' m \<Longrightarrow> one_per_installation m'"
  unfolding one_per_installation_def submap_def by blast

lemma in_use_session: "mget (ad_Sessions s) k = Some x \<Longrightarrow> credentialInUseLocked s (se_CredentialID x)"
  using mget_in_set [of "ad_Sessions s" k x] by (force simp: credentialInUseLocked_def)

lemma in_use_handoff: "mget (ad_Handoffs s) k = Some x \<Longrightarrow> credentialInUseLocked s (ho_CredentialID x)"
  using mget_in_set [of "ad_Handoffs s" k x] by (force simp: credentialInUseLocked_def)

lemma auth_sub_core:
  assumes inv: "auth_core s" and sub: "auth_sub s' s"
  shows "auth_core s'"
proof -
  have subs: "submap (ad_Sessions s') (ad_Sessions s)" "submap (ad_Pending s') (ad_Pending s)"
      "submap (ad_Handoffs s') (ad_Handoffs s)" "submap (ad_Credentials s') (ad_Credentials s)"
    and use: "\<And>i. credentialInUseLocked s' i \<Longrightarrow> mget (ad_Credentials s') i = mget (ad_Credentials s) i"
    using sub by (auto simp: auth_sub_def)
  have 1: "mget (ad_Credentials s') (se_CredentialID x) \<noteq> None" if "mget (ad_Sessions s') k = Some x" for k x
  proof -
    have "mget (ad_Sessions s) k = Some x" using subs(1) that by (auto simp: submap_def)
    thus ?thesis using inv use [OF in_use_session [OF that]] by (auto simp: auth_core_def)
  qed
  have 2: "mget (ad_Credentials s') (ho_CredentialID x) \<noteq> None" if "mget (ad_Handoffs s') k = Some x" for k x
  proof -
    have "mget (ad_Handoffs s) k = Some x" using subs(3) that by (auto simp: submap_def)
    thus ?thesis using inv use [OF in_use_handoff [OF that]] by (auto simp: auth_core_def)
  qed
  have 3: "cr_ID c = i" if "mget (ad_Credentials s') i = Some c" for i c
    using subs(4) that inv by (auto simp: submap_def auth_core_def)
  have 4: "one_per_installation (ad_Sessions s')" "one_per_device pa_InstallationID pa_DeviceHash (ad_Pending s')"
      "one_per_device ho_InstallationID ho_DeviceHash (ad_Handoffs s')"
    using auth_coreD [OF inv] subs by (auto intro: one_per_device_sub one_per_installation_sub)
  have 5: "wf_map (ad_Credentials s')" "wf_map (ad_Sessions s')" "wf_map (ad_Pending s')" "wf_map (ad_Handoffs s')"
    using subs by (auto simp: submap_def)
  show ?thesis unfolding auth_core_def using 1 2 3 4 5 by blast
qed

lemma auth_sub_inv: "auth_inv s \<Longrightarrow> auth_sub s' s \<Longrightarrow> auth_inv s'"
proof -
  assume inv: "auth_inv s" and sub: "auth_sub s' s"
  show "auth_inv s'" using auth_sub_lengths [OF sub] auth_sub_core [OF auth_invD [OF inv] sub] inv by (simp add: auth_inv_def)
qed

lemma in_use_mono:
  assumes "submap (ad_Sessions s') (ad_Sessions s)" and "submap (ad_Handoffs s') (ad_Handoffs s)"
    and "wf_map (ad_Sessions s)" "wf_map (ad_Handoffs s)"
    and "credentialInUseLocked s' i"
  shows "credentialInUseLocked s i"
proof -
  from assms(5) consider k x where "(k, x) \<in> set (ad_Sessions s')" "se_CredentialID x = i"
    | k x where "(k, x) \<in> set (ad_Handoffs s')" "ho_CredentialID x = i"
    by (auto simp: credentialInUseLocked_def)
  thus ?thesis
  proof cases
    case 1
    hence "mget (ad_Sessions s) k = Some x" using assms(1) by (auto simp: submap_def mget_iff)
    thus ?thesis using in_use_session 1(2) by blast
  next
    case 2
    hence "mget (ad_Handoffs s) k = Some x" using assms(2) by (auto simp: submap_def mget_iff)
    thus ?thesis using in_use_handoff 2(2) by blast
  qed
qed

lemma auth_sub_refl: "auth_core s \<Longrightarrow> auth_sub s s"
  by (simp add: auth_sub_def auth_core_def submap_refl)

lemma auth_sub_trans:
  assumes "auth_sub s2 s1" and "auth_sub s1 s"
  shows "auth_sub s2 s"
proof -
  have "credentialInUseLocked s1 i" if "credentialInUseLocked s2 i" for i
    using that assms in_use_mono [of s2 s1 i] by (auto simp: auth_sub_def submap_def)
  thus ?thesis using assms by (auto simp: auth_sub_def intro: submap_trans)
qed

lemma dropUnused_sub: "auth_core s \<Longrightarrow> auth_sub (dropUnusedCredentials s) s"
  by (auto simp: auth_core_def auth_sub_def dropUnusedCredentials_def submap_refl submap_mfilter
      mfilter_get credentialInUseLocked_def split: option.splits)

text \<open>After the sweep every credential left is referred to.\<close>

lemma dropUnused_used:
  assumes "wf_map (ad_Credentials s)" and "mget (ad_Credentials (dropUnusedCredentials s)) i \<noteq> None"
  shows "credentialInUseLocked (dropUnusedCredentials s) i"
  using assms by (auto simp: dropUnusedCredentials_def mfilter_get credentialInUseLocked_def
      split: option.splits if_splits)

lemma auth_sub_artifacts:
  assumes "submap se (ad_Sessions s)" "submap pe (ad_Pending s)" "submap ho (ad_Handoffs s)"
    and "auth_core s"
  shows "auth_sub (s\<lparr> ad_Sessions := se, ad_Pending := pe, ad_Handoffs := ho \<rparr>) s"
  using assms by (simp add: auth_sub_def submap_refl auth_core_def)

lemma auth_sub_sweep:
  assumes "auth_core s" and "auth_sub s' s"
  shows "auth_sub (dropUnusedCredentials s') s"
  using dropUnused_sub [OF auth_sub_core [OF assms]] assms(2) by (rule auth_sub_trans)

lemma cleanupExpired_sub:
  assumes "auth_core s"
  shows "auth_sub (cleanupExpiredLocked now s) s"
proof -
  let ?s = "s\<lparr> ad_Sessions := mfilter (\<lambda>_ x. \<not> now > se_ExpiresAt x) (ad_Sessions s),
               ad_Pending := mfilter (\<lambda>_ p. \<not> now > pa_ExpiresAt p) (ad_Pending s),
               ad_Handoffs := mfilter (\<lambda>_ h. \<not> now > ho_ExpiresAt h) (ad_Handoffs s) \<rparr>"
  have "auth_sub ?s s" using assms auth_coreD [OF assms]
    by (intro auth_sub_artifacts submap_mfilter)
  hence "auth_sub (dropUnusedCredentials ?s) s" by (rule auth_sub_sweep [OF assms])
  moreover have "cleanupExpiredLocked now s = dropUnusedCredentials ?s"
    by (simp add: cleanupExpiredLocked_def Let_def dropUnusedCredentials_def credentialInUseLocked_def)
  ultimately show ?thesis by simp
qed

lemma cleanupExpired_core: "auth_core s \<Longrightarrow> auth_core (cleanupExpiredLocked now s)"
  using auth_sub_core cleanupExpired_sub by blast

lemma cleanupExpired_inv [inv_intros]: "auth_inv s \<Longrightarrow> auth_inv (cleanupExpiredLocked now s)"
  using auth_sub_inv cleanupExpired_sub auth_invD by blast

section \<open>Every operation keeps the invariant\<close>

lemma one_per_device_mput:
  assumes "one_per_device inst dev m"
    and "\<And>k' x'. mget m k' = Some x' \<Longrightarrow> \<not> (inst x' = inst x \<and> secureHashEqual (dev x') (dev x))"
  shows "one_per_device inst dev (mput k x m)"
  unfolding one_per_device_def
proof (intro allI impI)
  fix k1 k2 x1 x2
  assume gets: "mget (mput k x m) k1 = Some x1" "mget (mput k x m) k2 = Some x2"
    and same: "inst x1 = inst x2" "secureHashEqual (dev x1) (dev x2)"
  consider "k1 = k" "k2 = k" | "k1 = k" "k2 \<noteq> k" | "k1 \<noteq> k" "k2 = k" | "k1 \<noteq> k" "k2 \<noteq> k"
    by blast
  thus "k1 = k2"
  proof cases
    case 2
    thus ?thesis using assms(2) [of k2 x2] gets same by (simp add: secureHashEqual_iff)
  next
    case 3
    thus ?thesis using assms(2) [of k1 x1] gets same by simp
  next
    case 4
    hence "mget m k1 = Some x1" "mget m k2 = Some x2" using gets by simp_all
    thus ?thesis using assms(1) same unfolding one_per_device_def by blast
  qed simp
qed

text \<open>One entry per installation is one entry per device when all devices have one hash.\<close>

lemma one_per_installation_device:
  "one_per_installation m = one_per_device se_InstallationID (\<lambda>_. ''device'') m"
  by (simp add: one_per_installation_def one_per_device_def secureHashEqual_iff)

lemma one_per_installation_mput:
  assumes "one_per_installation m"
    and "\<And>k' y. mget m k' = Some y \<Longrightarrow> se_InstallationID y \<noteq> se_InstallationID x"
  shows "one_per_installation (mput k x m)"
  using assms unfolding one_per_installation_device by (intro one_per_device_mput) auto

lemma one_per_device_filtered:
  assumes "one_per_device inst dev m" and "wf_map m"
  shows "one_per_device inst dev (mput k x
     (mfilter (\<lambda>_ y. \<not> (inst y = inst x \<and> secureHashEqual (dev y) (dev x))) m))"
proof (rule one_per_device_mput)
  show "one_per_device inst dev (mfilter (\<lambda>_ y. \<not> (inst y = inst x \<and> secureHashEqual (dev y) (dev x))) m)"
    using assms submap_mfilter one_per_device_sub by blast
qed (use assms(2) in \<open>auto simp: mfilter_get split: option.splits if_splits\<close>)

lemma PutPending_inv [inv_intros]:
  assumes "auth_inv s"
  shows "auth_inv (fst (PutPending sha s state r now))"
proof -
  let ?P = "\<lambda>_ y. \<not> (pa_InstallationID y = pa_InstallationID r \<and> secureHashEqual (pa_DeviceHash y) (pa_DeviceHash r))"
  define s1 where "s1 = cleanupExpiredLocked now s"
  have inv1: "auth_inv s1" unfolding s1_def by (rule cleanupExpired_inv [OF assms])
  note core1 = auth_invD [OF inv1]
  have sub2: "auth_sub (s1\<lparr> ad_Pending := mfilter ?P (ad_Pending s1) \<rparr>) s1"
    using auth_sub_artifacts [OF submap_refl submap_mfilter submap_refl core1] auth_coreD [OF core1] by simp
  have one: "one_per_device pa_InstallationID pa_DeviceHash (mput k r (mfilter ?P (ad_Pending s1)))" for k
    using auth_coreD [OF core1] by (intro one_per_device_filtered)
  show ?thesis
    using auth_sub_inv [OF inv1 sub2] one inv1
    by (auto simp: PutPending_def Let_def s1_def [symmetric] auth_inv_def auth_core_def length_mput)
qed

lemma storeHandoff_inv:
  assumes inv: "auth_inv s" and cred: "mget (ad_Credentials s) (ho_CredentialID r) \<noteq> None"
  shows "auth_inv (fst (storeHandoff sha s code r now now'))"
proof -
  let ?P = "\<lambda>_ y. \<not> (ho_InstallationID y = ho_InstallationID r \<and> secureHashEqual (ho_DeviceHash y) (ho_DeviceHash r))"
  define s1 where "s1 = s\<lparr> ad_Handoffs := mput (hashSecret sha code) r (mfilter ?P (ad_Handoffs s)) \<rparr>"
  note core = auth_invD [OF inv]
  have "one_per_device ho_InstallationID ho_DeviceHash
      (mput (hashSecret sha code) r (mfilter ?P (ad_Handoffs s)))"
    using auth_coreD [OF core] by (intro one_per_device_filtered)
  hence one: "one_per_device ho_InstallationID ho_DeviceHash (ad_Handoffs s1)" by (simp add: s1_def)
  have "mget (ad_Credentials s1) (ho_CredentialID x) \<noteq> None" if "mget (ad_Handoffs s1) k = Some x" for k x
    using that cred core auth_coreD(4) [OF core]
    by (auto simp: s1_def auth_core_def mfilter_get split: if_splits option.splits)
  hence core1: "auth_core s1" using core one by (auto simp: auth_core_def s1_def)
  define s2 where "s2 = cleanupExpiredLocked now s1"
  have core2: "auth_core s2" unfolding s2_def by (rule cleanupExpired_core [OF core1])
  have b: "length (ad_Sessions s2) \<le> MaxAuthSessions" "length (ad_Pending s2) \<le> MaxPendingAuthRecords"
      "length (ad_Handoffs s2) \<le> Suc MaxAuthHandoffs"
    using auth_sub_lengths [OF cleanupExpired_sub [OF core1, of now]] inv
      mfilter_length [of ?P "ad_Handoffs s"]
    by (auto simp: s2_def auth_inv_def s1_def length_mput split: if_splits)
  define s3 where "s3 = s2\<lparr> ad_Handoffs := mdel (hashSecret sha code) (ad_Handoffs s2) \<rparr>"
  have "auth_sub s3 s2"
    using auth_sub_artifacts [OF submap_refl submap_refl submap_mdel core2] auth_coreD [OF core2]
    by (simp add: s3_def)
  hence core3: "auth_core s3" by (rule auth_sub_core [OF core2])
  have sub4: "auth_sub (cleanupExpiredLocked now' s3) s3" by (rule cleanupExpired_sub [OF core3])
  have core4: "auth_core (cleanupExpiredLocked now' s3)"
      "length (ad_Handoffs (cleanupExpiredLocked now' s3)) \<le> length (ad_Handoffs s3)"
      "length (ad_Sessions (cleanupExpiredLocked now' s3)) \<le> length (ad_Sessions s2)"
      "length (ad_Pending (cleanupExpiredLocked now' s3)) \<le> length (ad_Pending s2)"
    using auth_sub_core [OF core3 sub4] auth_sub_lengths [OF sub4] by (simp_all add: s3_def)
  have fit: "length (ad_Handoffs s3) \<le> MaxAuthHandoffs"
  proof -
    have "submap (ad_Handoffs s3) (mfilter ?P (ad_Handoffs s))"
    proof (rule submapI)
      show "wf_map (ad_Handoffs s3)" by (rule auth_coreD(4) [OF core3])
      show "mget (mfilter ?P (ad_Handoffs s)) k = Some v" if "mget (ad_Handoffs s3) k = Some v" for k v
      proof -
        have "k \<noteq> hashSecret sha code" "mget (ad_Handoffs s2) k = Some v"
          using that by (auto simp: s3_def split: if_splits)
        moreover have "mget (ad_Handoffs s1) k = Some v"
          using auth_sub_gets(3) [OF cleanupExpired_sub [OF core1, of now]] calculation(2)
          by (simp add: s2_def)
        ultimately show ?thesis by (simp add: s1_def)
      qed
    qed
    thus ?thesis using inv mfilter_length [of ?P "ad_Handoffs s"] by (auto simp: submap_def auth_inv_def)
  qed
  have "fst (storeHandoff sha s code r now now') =
      (if length (ad_Handoffs s2) > MaxAuthHandoffs then cleanupExpiredLocked now' s3 else s2)"
    by (simp add: storeHandoff_def Let_def s1_def s2_def s3_def auth_persistLocked_def)
  thus ?thesis using core2 core4 b fit by (auto simp: auth_inv_def)
qed

lemma setCredential_inv:
  assumes "auth_inv s" and "setCredentialLocked aead s c rnd rnd' = Inr s'"
  shows "auth_inv s'" "mget (ad_Credentials s') (ac_ID c) \<noteq> None"
    "ad_Handoffs s' = ad_Handoffs s" "ad_Sessions s' = ad_Sessions s"
proof -
  obtain r where s': "s' = s\<lparr> ad_Credentials := mput (ac_ID c) r (ad_Credentials s) \<rparr>" "cr_ID r = ac_ID c"
    using assms(2) by (auto simp: setCredentialLocked_def split: sum.splits)
  show "auth_inv s'" using assms(1) s' by (auto simp: auth_inv_def auth_core_def)
qed (use assms(2) in \<open>auto simp: setCredentialLocked_def split: sum.splits\<close>)

lemma PutCredential_inv [inv_intros]: "auth_inv s \<Longrightarrow> auth_inv (fst (PutCredential aead s c rnd rnd'))"
  using setCredential_inv(1) by (auto simp: PutCredential_def split: sum.splits)

lemma PutCredentialAndHandoff_inv [inv_intros]:
  assumes "auth_inv s"
  shows "auth_inv (fst (PutCredentialAndHandoff sha aead s c code r rnd rnd' now now'))"
proof (cases "setCredentialLocked aead s c rnd rnd'")
  case (Inr s')
  thus ?thesis using assms setCredential_inv(1,2) [OF assms Inr]
    by (auto simp: PutCredentialAndHandoff_def intro!: storeHandoff_inv)
qed (use assms in \<open>auto simp: PutCredentialAndHandoff_def\<close>)

lemma delete_pending_sub: "auth_core s \<Longrightarrow> auth_sub (s\<lparr> ad_Pending := mdel k (ad_Pending s) \<rparr>) s"
  using auth_sub_artifacts [OF submap_refl submap_mdel submap_refl, of s k] auth_coreD [of s] by simp

lemma delete_handoff_sub: "auth_core s \<Longrightarrow> auth_sub (s\<lparr> ad_Handoffs := mdel k (ad_Handoffs s) \<rparr>) s"
  using auth_sub_artifacts [OF submap_refl submap_refl submap_mdel, of s k] auth_coreD [of s] by simp

lemma delete_session_sub: "auth_core s \<Longrightarrow> auth_sub (s\<lparr> ad_Sessions := mdel k (ad_Sessions s) \<rparr>) s"
  using auth_sub_artifacts [OF submap_mdel submap_refl submap_refl, of s k] auth_coreD [of s] by simp

lemma delete_credential_sub:
  "auth_core s \<Longrightarrow> \<not> credentialInUseLocked s i \<Longrightarrow>
   auth_sub (s\<lparr> ad_Credentials := mdel i (ad_Credentials s) \<rparr>) s"
  by (auto simp: auth_sub_def submap_refl submap_mdel auth_core_def credentialInUseLocked_def)

lemma dropCredentialIfFree_sub: "auth_core s \<Longrightarrow> auth_sub (dropCredentialIfFree i s) s"
  by (simp add: dropCredentialIfFree_def delete_credential_sub auth_sub_refl)

lemma end_session_sub:
  assumes "auth_core s"
  shows "auth_sub (dropCredentialIfFree i (s\<lparr> ad_Sessions := mdel k (ad_Sessions s) \<rparr>)) s"
  using dropCredentialIfFree_sub [OF auth_sub_core [OF assms delete_session_sub [OF assms]]]
    delete_session_sub [OF assms] by (rule auth_sub_trans)

lemma auth_delete_inv:
  assumes "auth_inv s"
  shows "auth_inv (s\<lparr> ad_Pending := mdel k (ad_Pending s) \<rparr>)"
    "auth_inv (s\<lparr> ad_Handoffs := mdel k (ad_Handoffs s) \<rparr>)"
    "\<not> credentialInUseLocked s k \<Longrightarrow> auth_inv (s\<lparr> ad_Credentials := mdel k (ad_Credentials s) \<rparr>)"
    "auth_inv (dropCredentialIfFree i (s\<lparr> ad_Sessions := mdel k (ad_Sessions s) \<rparr>))"
  using auth_sub_inv [OF assms] delete_pending_sub delete_handoff_sub delete_credential_sub
    end_session_sub auth_invD [OF assms] by blast+

lemma ConsumePending_inv [inv_intros]: "auth_inv s \<Longrightarrow> auth_inv (fst (ConsumePending sha s state now))"
  by (auto simp: ConsumePending_def Let_def auth_persistLocked_def auth_invD split: option.splits
      intro: auth_delete_inv)

lemma ConsumeHandoff_inv [inv_intros]:
  "auth_inv s \<Longrightarrow> auth_inv (fst (ConsumeHandoff sha s code inst dev state now))"
  by (auto simp: ConsumeHandoff_def Let_def auth_persistLocked_def auth_invD split: option.splits
      intro: auth_delete_inv)

lemma DeleteSession_inv [inv_intros]: "auth_inv s \<Longrightarrow> auth_inv (fst (DeleteSession sha s token inst dev))"
  by (auto simp: DeleteSession_def Let_def auth_invD split: option.splits
      intro: auth_delete_inv)

lemma DeleteCredentialIfUnused_inv [inv_intros]:
  "auth_inv s \<Longrightarrow> auth_inv (fst (DeleteCredentialIfUnused s i))"
  by (auto simp: DeleteCredentialIfUnused_def Let_def auth_invD intro: auth_delete_inv)

lemma session_renew_inv:
  assumes "auth_inv s" and "mget (ad_Sessions s) k = Some x"
  shows "auth_inv (s\<lparr> ad_Sessions := mput k (x\<lparr> se_ExpiresAt := t \<rparr>) (ad_Sessions s) \<rparr>)"
proof -
  let ?m = "mput k (x\<lparr> se_ExpiresAt := t \<rparr>) (ad_Sessions s)"
  have core: "auth_core s" by (rule auth_invD [OF assms(1)])
  have get: "\<exists>x0. mget (ad_Sessions s) k' = Some x0 \<and> se_InstallationID x0 = se_InstallationID x' \<and>
      se_CredentialID x0 = se_CredentialID x'" if "mget ?m k' = Some x'" for k' x'
    using that assms(2) by (auto split: if_splits)
  have "one_per_installation ?m"
    unfolding one_per_installation_def
  proof (intro allI impI)
    fix k1 k2 x1 x2
    assume "mget ?m k1 = Some x1" "mget ?m k2 = Some x2" and same: "se_InstallationID x1 = se_InstallationID x2"
    then obtain y1 y2 where "mget (ad_Sessions s) k1 = Some y1" "mget (ad_Sessions s) k2 = Some y2"
        "se_InstallationID y1 = se_InstallationID y2" using get by metis
    thus "k1 = k2" using auth_coreD(5) [OF core] unfolding one_per_installation_def by blast
  qed
  moreover have "mget (ad_Credentials s) (se_CredentialID x') \<noteq> None" if "mget ?m k' = Some x'" for k' x'
    using get [OF that] core unfolding auth_core_def by metis
  ultimately show ?thesis
    using assms by (auto simp: auth_inv_def auth_core_def length_mput)
qed

lemma ResolveSession_inv [inv_intros]:
  "auth_inv s \<Longrightarrow> auth_inv (fst (ResolveSession sha s token inst dev ttl now))"
  by (auto simp: ResolveSession_def Let_def auth_persistLocked_def auth_invD session_renew_inv
      split: option.splits intro: auth_delete_inv)

lemma CreateSession_inv [inv_intros]:
  assumes inv: "auth_inv s"
  shows "auth_inv (fst (CreateSession sha s cred inst dev ttl now rnd))"
proof -
  let ?P = "\<lambda>_ y. \<not> (now > se_ExpiresAt y \<or> se_InstallationID y = inst)"
  define s1 where "s1 = dropReplacedSessions now inst s"
  have s1: "s1 = s\<lparr> ad_Sessions := mfilter ?P (ad_Sessions s) \<rparr>" by (simp add: s1_def dropReplacedSessions_def)
  note core = auth_invD [OF inv]
  have "auth_sub s1 s"
    using auth_sub_artifacts [OF submap_mfilter submap_refl submap_refl core] auth_coreD [OF core]
    by (simp add: s1)
  hence inv1: "auth_inv s1" by (rule auth_sub_inv [OF inv])
  have put: "auth_inv (s1\<lparr> ad_Sessions := mput k x (ad_Sessions s1) \<rparr>)"
    if "se_InstallationID x = inst" "mget (ad_Credentials s) (se_CredentialID x) \<noteq> None"
      "length (ad_Sessions s1) < MaxAuthSessions" for k x
  proof -
    have none: "se_InstallationID y \<noteq> inst" if "mget (ad_Sessions s1) k' = Some y" for k' y
      using that auth_coreD(2) [OF core] by (auto simp: s1 mfilter_get split: option.splits if_splits)
    have "one_per_installation (mput k x (ad_Sessions s1))"
      using auth_coreD(5) [OF auth_invD [OF inv1]] none that(1)
      by (intro one_per_installation_mput) auto
    moreover have "ad_Credentials s1 = ad_Credentials s" by (simp add: s1)
    ultimately show ?thesis using inv1 that by (auto simp: auth_inv_def auth_core_def length_mput)
  qed
  show ?thesis
    using inv inv1 put
    by (auto simp: CreateSession_def Let_def s1_def [symmetric] auth_persistLocked_def
        split: sum.splits intro!: cleanupExpired_inv)
qed

section \<open>Revocation keeps the invariant\<close>

lemma revokeScan_sub:
  "wf_map m \<Longrightarrow> submap (fst (revokeScan inst dev i h rest m n)) m"
proof (induction inst dev i h rest m n rule: revokeScan.induct)
  case (2 inst dev i h key v rest m n)
  show ?case
  proof (cases "inst v = i \<and> secureHashEqual (dev v) h")
    case True
    hence "submap (fst (revokeScan inst dev i h rest (mdel key m) (n + 1))) (mdel key m)"
      using 2 by simp
    thus ?thesis using True submap_trans [OF _ submap_mdel [OF 2(3)]] by simp
  next
    case False
    thus ?thesis using 2 by (auto simp: submap_refl)
  qed
qed (simp add: submap_refl)

lemma RevokeInstallation_sub:
  assumes core: "auth_core s"
  shows "auth_sub (fst (RevokeInstallation sha s inst dev)) s"
proof -
  let ?h = "hashSecret sha dev"
  let ?se = "fst (revokeScan se_InstallationID se_DeviceHash inst ?h (ad_Sessions s) (ad_Sessions s) 0)"
  let ?pe = "fst (revokeScan pa_InstallationID pa_DeviceHash inst ?h (ad_Pending s) (ad_Pending s) 0)"
  let ?ho = "fst (revokeScan ho_InstallationID ho_DeviceHash inst ?h (ad_Handoffs s) (ad_Handoffs s) 0)"
  have subs: "submap ?se (ad_Sessions s)" "submap ?pe (ad_Pending s)" "submap ?ho (ad_Handoffs s)"
    using auth_coreD [OF core] by (auto intro: revokeScan_sub)
  have 1: "auth_sub (s\<lparr> ad_Sessions := ?se \<rparr>) s"
    using auth_sub_artifacts [OF subs(1) submap_refl submap_refl core] auth_coreD [OF core] by simp
  have 2: "auth_sub (s\<lparr> ad_Sessions := ?se, ad_Pending := ?pe \<rparr>) s"
    using auth_sub_artifacts [OF subs(1,2) submap_refl core] auth_coreD [OF core] by simp
  have 3: "auth_sub (s\<lparr> ad_Sessions := ?se, ad_Pending := ?pe, ad_Handoffs := ?ho \<rparr>) s"
    using auth_sub_artifacts [OF subs core] .
  have 4: "auth_sub (dropUnusedCredentials (s\<lparr> ad_Sessions := ?se, ad_Pending := ?pe, ad_Handoffs := ?ho \<rparr>)) s"
    by (rule auth_sub_sweep [OF core 3])
  show ?thesis using 1 2 3 4 by (simp add: RevokeInstallation_def Let_def split_beta)
qed

lemma RevokeInstallation_inv [inv_intros]: "auth_inv s \<Longrightarrow> auth_inv (fst (RevokeInstallation sha s inst dev))"
  using auth_sub_inv RevokeInstallation_sub auth_invD by blast

lemma revokeHandoffs_sub: "wf_map m \<Longrightarrow> submap (fst (revokeHandoffs C rest m I)) m"
proof (induction C rest m I rule: revokeHandoffs.induct)
  case (2 C key h rest m I)
  show ?case
  proof (cases "ho_CredentialID h \<notin> C \<and> ho_InstallationID h \<notin> I")
    case False
    hence "submap (fst (revokeHandoffs C rest (mdel key m) (insert (ho_InstallationID h) I))) (mdel key m)"
      using 2 by simp
    thus ?thesis using False submap_trans [OF _ submap_mdel [OF 2(3)]] by auto
  next
    case True
    thus ?thesis using 2 by simp
  qed
qed (simp add: submap_refl)

text \<open>The handoff loop leaves no handoff of a revoked credential.\<close>

lemma revokeHandoffs_gone:
  "(k, h) \<in> set rest \<Longrightarrow> ho_CredentialID h \<in> C \<Longrightarrow> wf_map m \<Longrightarrow>
   mget (fst (revokeHandoffs C rest m I)) k = None"
proof (induction C rest m I rule: revokeHandoffs.induct)
  case (2 C key h' rest m I)
  show ?case
  proof (cases "(k, h) = (key, h')")
    case True
    let ?m = "fst (revokeHandoffs C rest (mdel key m) (insert (ho_InstallationID h') I))"
    have "submap ?m (mdel key m)" using 2(5) by (intro revokeHandoffs_sub) simp
    hence "mget ?m k = None" by (rule submap_None) (use True in simp)
    thus ?thesis using 2(4) True by simp
  next
    case False
    hence mem: "(k, h) \<in> set rest" using 2(3) by auto
    show ?thesis
    proof (cases "ho_CredentialID h' \<notin> C \<and> ho_InstallationID h' \<notin> I")
      case True
      thus ?thesis using 2(1) [OF True mem 2(4,5)] by simp
    next
      case False
      thus ?thesis using 2(2) [OF False mem 2(4)] 2(5) by auto
    qed
  qed
qed simp

lemma revokeHandoffs_installations:
  "I \<subseteq> snd (revokeHandoffs C rest m I)"
  "(k, h) \<in> set rest \<Longrightarrow> ho_CredentialID h \<in> C \<Longrightarrow>
     ho_InstallationID h \<in> snd (revokeHandoffs C rest m I)"
proof -
  show sub: "I \<subseteq> snd (revokeHandoffs C rest m I)" for C rest m I
    by (induction C rest m I rule: revokeHandoffs.induct) auto
  show "(k, h) \<in> set rest \<Longrightarrow> ho_CredentialID h \<in> C \<Longrightarrow>
      ho_InstallationID h \<in> snd (revokeHandoffs C rest m I)"
  proof (induction C rest m I rule: revokeHandoffs.induct)
    case (2 C key h' rest m I)
    thus ?case using sub [of "insert (ho_InstallationID h') I" C rest "mdel key m"] by auto
  qed simp
qed

text \<open>\<^verbatim>\<open>RevokeAccount\<close> as one update.\<close>

definition account_credentials :: "AuthDiskState \<Rightarrow> string \<Rightarrow> string set" where
  "account_credentials s u = set (map fst (filter (\<lambda>(_, c). cr_UserID c = u) (ad_Credentials s)))"

definition account_installations :: "AuthDiskState \<Rightarrow> string \<Rightarrow> string list \<Rightarrow> string set" where
  "account_installations s u ext = snd (revokeHandoffs (account_credentials s u) (ad_Handoffs s) (ad_Handoffs s)
     (set (filter (\<lambda>i. i \<noteq> '''') (map trimSpace ext)) \<union>
      se_InstallationID ` {x \<in> set (map snd (ad_Sessions s)). se_CredentialID x \<in> account_credentials s u}))"

definition account_handoffs :: "AuthDiskState \<Rightarrow> string \<Rightarrow> string list \<Rightarrow> (string, AuthHandoffRecord) gomap" where
  "account_handoffs s u ext = fst (revokeHandoffs (account_credentials s u) (ad_Handoffs s) (ad_Handoffs s)
     (set (filter (\<lambda>i. i \<noteq> '''') (map trimSpace ext)) \<union>
      se_InstallationID ` {x \<in> set (map snd (ad_Sessions s)). se_CredentialID x \<in> account_credentials s u}))"

lemma RevokeAccount_eq:
  assumes "trimSpace u \<noteq> ''''"
  shows "fst (RevokeAccount s u ext) = dropUnusedCredentials (s\<lparr>
    ad_Sessions := mfilter (\<lambda>_ x. se_CredentialID x \<notin> account_credentials s (trimSpace u)) (ad_Sessions s),
    ad_Handoffs := account_handoffs s (trimSpace u) ext,
    ad_Pending := mfilter (\<lambda>_ p. pa_InstallationID p \<notin> account_installations s (trimSpace u) ext) (ad_Pending s),
    ad_Credentials := mfilter (\<lambda>i _. i \<notin> account_credentials s (trimSpace u)) (ad_Credentials s) \<rparr>)"
  using assms
  by (simp add: RevokeAccount_def Let_def split_beta account_handoffs_def account_installations_def
      account_credentials_def)

lemma account_handoffs_gone:
  assumes "auth_core s" and "mget (account_handoffs s u ext) k = Some h"
  shows "mget (ad_Handoffs s) k = Some h" "ho_CredentialID h \<notin> account_credentials s u"
proof -
  have wf: "wf_map (ad_Handoffs s)" by (rule auth_coreD(4) [OF assms(1)])
  have "submap (account_handoffs s u ext) (ad_Handoffs s)"
    unfolding account_handoffs_def by (rule revokeHandoffs_sub [OF wf])
  thus get: "mget (ad_Handoffs s) k = Some h" using assms(2) by (simp add: submap_def)
  show "ho_CredentialID h \<notin> account_credentials s u"
    using revokeHandoffs_gone [OF mget_in_set [OF get] _ wf] assms(2)
    by (auto simp: account_handoffs_def)
qed

lemma RevokeAccount_sub:
  assumes core: "auth_core s"
  shows "auth_sub (fst (RevokeAccount s u ext)) s"
proof (cases "trimSpace u = ''''")
  case True
  thus ?thesis using auth_sub_refl [OF core] by (simp add: RevokeAccount_def Let_def)
next
  case False
  let ?C = "account_credentials s (trimSpace u)"
  let ?se = "mfilter (\<lambda>_ x. se_CredentialID x \<notin> ?C) (ad_Sessions s)"
  let ?ho = "account_handoffs s (trimSpace u) ext"
  let ?pe = "mfilter (\<lambda>_ p. pa_InstallationID p \<notin> account_installations s (trimSpace u) ext) (ad_Pending s)"
  let ?cr = "mfilter (\<lambda>i _. i \<notin> ?C) (ad_Credentials s)"
  let ?s = "s\<lparr> ad_Sessions := ?se, ad_Handoffs := ?ho, ad_Pending := ?pe, ad_Credentials := ?cr \<rparr>"
  have ho: "submap ?ho (ad_Handoffs s)"
    unfolding account_handoffs_def using auth_coreD [OF core] by (intro revokeHandoffs_sub)
  have unused: "i \<notin> ?C" if use: "credentialInUseLocked ?s i" for i
  proof -
    from use consider k x where "(k, x) \<in> set ?se" "se_CredentialID x = i"
      | k h where "(k, h) \<in> set ?ho" "ho_CredentialID h = i"
      by (auto simp: credentialInUseLocked_def)
    thus ?thesis
    proof cases
      case 1
      thus ?thesis by (auto simp: mfilter_def)
    next
      case 2
      hence "mget ?ho k = Some h" using ho by (simp add: submap_def mget_iff)
      thus ?thesis using account_handoffs_gone(2) [OF core] 2(2) by blast
    qed
  qed
  have keep: "mget ?cr i = mget (ad_Credentials s) i" if "credentialInUseLocked ?s i" for i
    using unused [OF that] auth_coreD(1) [OF core] by (simp add: mfilter_get split: option.splits)
  have "submap ?se (ad_Sessions s)" "submap ?pe (ad_Pending s)" "submap ?cr (ad_Credentials s)"
    using auth_coreD [OF core] by (auto intro: submap_mfilter)
  hence "auth_sub ?s s"
    unfolding auth_sub_def using ho keep by simp
  hence "auth_sub (dropUnusedCredentials ?s) s" by (rule auth_sub_sweep [OF core])
  thus ?thesis by (simp only: RevokeAccount_eq [OF False])
qed

lemma RevokeAccount_inv [inv_intros]: "auth_inv s \<Longrightarrow> auth_inv (fst (RevokeAccount s u ext))"
  using auth_sub_inv RevokeAccount_sub auth_invD by blast

section \<open>All operations\<close>

datatype auth_op =
    APutPending string PendingAuthRecord gotime
  | AConsumePending string gotime
  | AConsumeHandoff string string string string gotime
  | APutCredential AuthCredential "string option" "string option"
  | APutCredentialAndHandoff AuthCredential string AuthHandoffRecord "string option" "string option" gotime gotime
  | ACreateSession string string string duration gotime "string option"
  | AResolveSession string string string duration gotime
  | ADeleteSession string string string
  | ARevokeInstallation string string
  | ARevokeAccount string "string list"
  | ADeleteCredentialIfUnused string

fun auth_step :: "(string \<Rightarrow> string) \<Rightarrow> AEAD option \<Rightarrow> AuthDiskState \<Rightarrow> auth_op \<Rightarrow> AuthDiskState" where
  "auth_step sha aead s (APutPending st r now) = fst (PutPending sha s st r now)"
| "auth_step sha aead s (AConsumePending st now) = fst (ConsumePending sha s st now)"
| "auth_step sha aead s (AConsumeHandoff c i d st now) = fst (ConsumeHandoff sha s c i d st now)"
| "auth_step sha aead s (APutCredential c r r') = fst (PutCredential aead s c r r')"
| "auth_step sha aead s (APutCredentialAndHandoff c code h r r' now now') =
     fst (PutCredentialAndHandoff sha aead s c code h r r' now now')"
| "auth_step sha aead s (ACreateSession c i d ttl now r) = fst (CreateSession sha s c i d ttl now r)"
| "auth_step sha aead s (AResolveSession t i d ttl now) = fst (ResolveSession sha s t i d ttl now)"
| "auth_step sha aead s (ADeleteSession t i d) = fst (DeleteSession sha s t i d)"
| "auth_step sha aead s (ARevokeInstallation i d) = fst (RevokeInstallation sha s i d)"
| "auth_step sha aead s (ARevokeAccount u ext) = fst (RevokeAccount s u ext)"
| "auth_step sha aead s (ADeleteCredentialIfUnused c) = fst (DeleteCredentialIfUnused s c)"

lemma auth_step_inv: "auth_inv s \<Longrightarrow> auth_inv (auth_step sha aead s x)"
  by (cases x) (simp_all add: inv_intros)

lemma auth_run_inv: "auth_inv s \<Longrightarrow> auth_inv (foldl (auth_step sha aead) s xs)"
  by (induction xs arbitrary: s) (auto simp: auth_step_inv)

end
