(* ===== verification/Auth_Properties.thy ===== *)
theory Auth_Properties
  imports Auth_Laws
begin

text \<open>
  What the authentication store promises: handoffs are one-time and bound to a device, sessions
  are accepted exactly for their device and time, a device cannot be taken over, revocation
  leaves nothing behind, and sealed credentials come back unchanged.
\<close>

text \<open>The digest parameter used by the witnesses, 32 bytes that depend on the input, and a
  cipher that meets \<^const>\<open>aead_correct\<close>.\<close>

definition demo_sha :: "string \<Rightarrow> string" where
  "demo_sha s = take 32 (s @ replicate 32 CHR ''.'')"

definition demo_aead :: AEAD where
  "demo_aead = \<lparr> ae_NonceSize = 2, ae_Seal = (\<lambda>n p a. p @ a @ n),
     ae_Open = (\<lambda>n c a. if length c \<ge> length (a @ n) then Some (take (length c - length (a @ n)) c) else None) \<rparr>"

lemma demo_sha_length: "length (demo_sha v) = 32"
  by (simp add: demo_sha_def)

lemma demo_aead_correct: "aead_correct demo_aead"
  by (simp add: aead_correct_def demo_aead_def)

section \<open>The invariant over all runs\<close>


section \<open>Handoffs\<close>

text \<open>C5: A handoff code works once, only on the device that started the login, with that
  login's state, and not after its expiry; after it was used it is not found, whoever presents
  it.\<close>

theorem handoff_single_use:
  assumes "ConsumeHandoff sha256 s code inst dev st now = (s1, Inr r)"
  shows "mget (ad_Handoffs s) (hashSecret sha256 code) = Some r \<and> now \<le> ho_ExpiresAt r \<and>
    ho_InstallationID r = inst \<and> ho_DeviceHash r = hashSecret sha256 dev \<and>
    ho_StateHash r = hashSecret sha256 st \<and>
    ConsumeHandoff sha256 s1 code inst' dev' st' now' = (s1, Inl ErrAuthNotFound)"
proof -
  have s1: "s1 = s\<lparr> ad_Handoffs := mdel (hashSecret sha256 code) (ad_Handoffs s) \<rparr>"
    using assms by (auto simp: ConsumeHandoff_def Let_def auth_persistLocked_def
        split: option.splits if_splits)
  have "mget (ad_Handoffs s) (hashSecret sha256 code) = Some r \<and> now \<le> ho_ExpiresAt r \<and>
    ho_InstallationID r = inst \<and> ho_DeviceHash r = hashSecret sha256 dev \<and>
    ho_StateHash r = hashSecret sha256 st"
    using assms by (auto simp: ConsumeHandoff_def Let_def auth_persistLocked_def secureHashEqual_iff
        split: option.splits if_splits)
  thus ?thesis by (simp add: ConsumeHandoff_def Let_def s1)
qed

definition demo_handoff :: AuthHandoffRecord where
  "demo_handoff = \<lparr> ho_CredentialID = ''c1'', ho_InstallationID = ''i1'',
     ho_DeviceHash = hashSecret demo_sha ''secret'', ho_AppCallbackURI = ''app:cb'',
     ho_StateHash = hashSecret demo_sha ''state'', ho_CreatedAt = 10, ho_ExpiresAt = 100 \<rparr>"

lemma demo_hash_nonempty: "hashSecret demo_sha v \<noteq> ''''"
  by (simp add: hashSecret_nonempty demo_sha_length)

theorem handoff_single_use_witness:
  "\<exists>s1. ConsumeHandoff demo_sha (newAuthState\<lparr> ad_Handoffs := [(hashSecret demo_sha ''code'', demo_handoff)] \<rparr>)
       ''code'' ''i1'' ''secret'' ''state'' 50 = (s1, Inr demo_handoff) \<and>
     ConsumeHandoff demo_sha s1 ''code'' ''i1'' ''secret'' ''state'' 51 = (s1, Inl ErrAuthNotFound)"
proof -
  let ?s = "newAuthState\<lparr> ad_Handoffs := [(hashSecret demo_sha ''code'', demo_handoff)] \<rparr>"
  have "ConsumeHandoff demo_sha ?s ''code'' ''i1'' ''secret'' ''state'' 50 = (newAuthState, Inr demo_handoff)"
    using demo_hash_nonempty
    by (simp add: ConsumeHandoff_def demo_handoff_def secureHashEqual_iff auth_persistLocked_def newAuthState_def)
  from handoff_single_use [OF this, of "''i1''" "''secret''" "''state''" 51] this show ?thesis by blast
qed

section \<open>Sessions\<close>

text \<open>C6: A session token is accepted exactly when the store has a session under its hash that
  has not expired and belongs to this installation and device secret. Accepting it never
  shortens the session, and moves its expiry only to the renewal time after now.\<close>

theorem session_accepted_iff:
  "((\<exists>s' r. ResolveSession sha256 s token inst dev renewTTL now = (s', Inr r)) \<longleftrightarrow>
     (\<exists>x. mget (ad_Sessions s) (hashSecret sha256 token) = Some x \<and> now \<le> se_ExpiresAt x \<and>
          se_InstallationID x = inst \<and> secureHashEqual (se_DeviceHash x) (hashSecret sha256 dev))) \<and>
   (\<forall>s' r. ResolveSession sha256 s token inst dev renewTTL now = (s', Inr r) \<longrightarrow>
     (\<exists>x. mget (ad_Sessions s) (hashSecret sha256 token) = Some x \<and>
          mget (ad_Sessions s') (hashSecret sha256 token) = Some r \<and>
          se_CredentialID r = se_CredentialID x \<and> se_ExpiresAt x \<le> se_ExpiresAt r \<and>
          se_ExpiresAt r \<in> {se_ExpiresAt x, now + renewTTL}))"
proof -
  have "now + renewTTL div 2 \<le> now + renewTTL" if "0 < renewTTL" using that by simp
  thus ?thesis
    by (auto simp: ResolveSession_def Let_def auth_persistLocked_def split: option.splits)
qed

definition demo_session :: AuthSessionRecord where
  "demo_session = \<lparr> se_CredentialID = ''c1'', se_InstallationID = ''i1'',
     se_DeviceHash = hashSecret demo_sha ''secret'', se_CreatedAt = 10, se_ExpiresAt = 100 \<rparr>"

definition demo_store :: AuthDiskState where
  "demo_store = newAuthState\<lparr> ad_Sessions := [(hashSecret demo_sha ''token'', demo_session)] \<rparr>"

theorem session_accepted_iff_witness:
  "\<exists>s' r. ResolveSession demo_sha demo_store ''token'' ''i1'' ''secret'' 40 90 = (s', Inr r) \<and>
     se_CredentialID r = ''c1'' \<and> 100 \<le> se_ExpiresAt r"
proof -
  have "\<exists>x. mget (ad_Sessions demo_store) (hashSecret demo_sha ''token'') = Some x \<and> 90 \<le> se_ExpiresAt x \<and>
      se_InstallationID x = ''i1'' \<and> secureHashEqual (se_DeviceHash x) (hashSecret demo_sha ''secret'')"
    using demo_hash_nonempty by (simp add: demo_store_def demo_session_def secureHashEqual_iff)
  then obtain s' r where r: "ResolveSession demo_sha demo_store ''token'' ''i1'' ''secret'' 40 90 = (s', Inr r)"
    using session_accepted_iff [of demo_sha demo_store "''token''" "''i1''" "''secret''" 40 90] by blast
  with session_accepted_iff [of demo_sha demo_store "''token''" "''i1''" "''secret''" 40 90]
  show ?thesis by (auto simp: demo_store_def demo_session_def)
qed

text \<open>C8: A live device is not taken over. While an installation has a session that has not
  expired, creating a session for it with another device secret is refused and changes
  nothing.\<close>

theorem device_takeover_refused:
  assumes "mget (ad_Sessions s) k = Some x" and "se_InstallationID x = inst" and "now \<le> se_ExpiresAt x"
    and "se_DeviceHash x \<noteq> hashSecret sha256 dev"
    and "mget (ad_Credentials s) cred \<noteq> None"
  shows "CreateSession sha256 s cred inst dev ttl now rnd = (s, Inl ErrAuthDeviceMismatch)"
proof -
  have "x \<in> set (map snd (ad_Sessions s))" using mget_in_set [OF assms(1)] by force
  thus ?thesis using assms by (auto simp: CreateSession_def Let_def secureHashEqual_iff)
qed

definition demo_credential :: AuthCredentialRecord where
  "demo_credential = \<lparr> cr_ID = ''c1'', cr_ClientID = ''cl'', cr_UserID = ''u1'', cr_Login = ''joe'',
     cr_Scopes = [], cr_AccessToken = \<lparr> ev_Nonce = '''', ev_Ciphertext = '''' \<rparr>,
     cr_RefreshToken = \<lparr> ev_Nonce = '''', ev_Ciphertext = '''' \<rparr>, cr_AccessExpiresAt = 0,
     cr_LastValidatedAt = 0, cr_UpdatedAt = 0 \<rparr>"

lemma demo_hashes_differ: "hashSecret demo_sha ''secret'' \<noteq> hashSecret demo_sha ''other''"
  by (simp add: hashSecret_eq_iff demo_sha_def)

theorem device_takeover_refused_witness:
  "CreateSession demo_sha (demo_store\<lparr> ad_Credentials := [(''c1'', demo_credential)] \<rparr>) ''c1'' ''i1'' ''other'' 60 90 (Some ''r'') =
     (demo_store\<lparr> ad_Credentials := [(''c1'', demo_credential)] \<rparr>, Inl ErrAuthDeviceMismatch)"
  by (rule device_takeover_refused [of _ "hashSecret demo_sha ''token''" demo_session])
     (simp_all add: demo_store_def demo_session_def demo_hashes_differ)

text \<open>C7: A created session works at once: within its lifetime its token is accepted for that
  installation and device secret, it is the only session of the installation, and its
  credential is in the store.\<close>

theorem created_session_resolves:
  assumes "auth_inv s" and "CreateSession sha256 s cred inst dev ttl now rnd = (s1, Inr (token, expiry))"
    and "0 \<le> ttl" and "now' \<le> expiry" and "length (sha256 dev) = 32"
  shows "expiry = now + ttl \<and> mget (ad_Credentials s1) cred \<noteq> None \<and>
    (\<exists>s2 r. ResolveSession sha256 s1 token inst dev renewTTL now' = (s2, Inr r) \<and> se_CredentialID r = cred) \<and>
    (\<forall>k x. mget (ad_Sessions s1) k = Some x \<longrightarrow> se_InstallationID x = inst \<longrightarrow> k = hashSecret sha256 token)"
proof -
  let ?k = "hashSecret sha256 token"
  let ?x = "\<lparr> se_CredentialID = cred, se_InstallationID = inst, se_DeviceHash = hashSecret sha256 dev,
              se_CreatedAt = now, se_ExpiresAt = now + ttl \<rparr>"
  define s0 where "s0 = dropReplacedSessions now inst s"
  have s1: "s1 = cleanupExpiredLocked now (s0\<lparr> ad_Sessions := mput ?k ?x (ad_Sessions s0) \<rparr>)"
    and exp: "expiry = now + ttl"
    using assms(2)
    by (auto simp: CreateSession_def Let_def s0_def auth_persistLocked_def split: if_splits sum.splits)
  have inv1: "auth_inv s1" using CreateSession_inv [OF assms(1), of sha256 cred inst dev ttl now rnd] assms(2) by simp
  have wf0: "wf_map (ad_Sessions s0)"
    using auth_coreD(2) [OF auth_invD [OF assms(1)]] by (simp add: s0_def dropReplacedSessions_def)
  have get: "mget (ad_Sessions s1) ?k = Some ?x"
    using assms(3) wf0
    by (simp add: s1 cleanupExpiredLocked_def Let_def dropUnusedCredentials_def mfilter_get)
  have cred: "mget (ad_Credentials s1) cred \<noteq> None"
    using inv1 get unfolding auth_inv_def auth_core_def by (metis AuthSessionRecord.select_convs(1))
  have only: "k = ?k" if "mget (ad_Sessions s1) k = Some x" "se_InstallationID x = inst" for k x
    using auth_coreD(5) [OF auth_invD [OF inv1]] that get unfolding one_per_installation_def
    by (metis AuthSessionRecord.select_convs(2))
  have "hashSecret sha256 dev \<noteq> ''''" using assms(5) by (rule hashSecret_nonempty)
  hence "\<exists>s2 r. ResolveSession sha256 s1 token inst dev renewTTL now' = (s2, Inr r) \<and> se_CredentialID r = cred"
    using get assms(4) exp
    by (auto simp: ResolveSession_def Let_def secureHashEqual_iff auth_persistLocked_def)
  thus ?thesis using exp cred only by blast
qed

section \<open>Revocation\<close>

lemma revokeScan_True:
  "revokeScan inst dev i h rest m n = (m', n', True) \<Longrightarrow>
   mget m' k = (if \<exists>v. (k, v) \<in> set rest \<and> inst v = i then None else mget m k)"
proof (induction inst dev i h rest m n rule: revokeScan.induct)
  case (2 inst dev i h key v rest m n)
  show ?case
  proof (cases "inst v = i")
    case True
    hence eq: "secureHashEqual (dev v) h" "revokeScan inst dev i h rest (mdel key m) (n + 1) = (m', n', True)"
      using 2(3) by (auto split: if_splits)
    have "mget m' k = (if \<exists>v. (k, v) \<in> set rest \<and> inst v = i then None else mget (mdel key m) k)"
      using 2(2) True eq by simp
    thus ?thesis using True by auto
  next
    case False
    hence "mget m' k = (if \<exists>v. (k, v) \<in> set rest \<and> inst v = i then None else mget m k)"
      using 2 by simp
    thus ?thesis using False by auto
  qed
qed simp

lemma revokeScan_all:
  assumes "revokeScan inst dev i h m m n = (m', n', True)" and "wf_map m"
  shows "mget m' k = Some v \<longleftrightarrow> mget m k = Some v \<and> inst v \<noteq> i"
proof -
  have "(\<exists>v. (k, v) \<in> set m \<and> inst v = i) = (\<exists>v. mget m k = Some v \<and> inst v = i)"
    using mget_iff [OF assms(2)] by simp
  thus ?thesis using revokeScan_True [OF assms(1), of k] by auto
qed

lemma RevokeInstallation_ok:
  assumes "RevokeInstallation sha256 s inst dev = (s1, n, None)"
  shows "\<exists>se ns pe np ho nh.
    revokeScan se_InstallationID se_DeviceHash inst (hashSecret sha256 dev) (ad_Sessions s) (ad_Sessions s) 0 = (se, ns, True) \<and>
    revokeScan pa_InstallationID pa_DeviceHash inst (hashSecret sha256 dev) (ad_Pending s) (ad_Pending s) 0 = (pe, np, True) \<and>
    revokeScan ho_InstallationID ho_DeviceHash inst (hashSecret sha256 dev) (ad_Handoffs s) (ad_Handoffs s) 0 = (ho, nh, True) \<and>
    s1 = dropUnusedCredentials (s\<lparr> ad_Sessions := se, ad_Pending := pe, ad_Handoffs := ho \<rparr>)"
  using assms
  by (auto simp: RevokeInstallation_def Let_def split_beta prod_eq_iff split: if_splits)

text \<open>C9: Revoking a device leaves nothing of it. After a successful revocation no session, no
  pending login and no handoff of the installation is left, those of other installations are
  as before, and every credential that is left is referred to by a session or a handoff.\<close>

theorem revoked_installation_is_gone:
  assumes "auth_inv s" and "RevokeInstallation sha256 s inst dev = (s1, n, None)"
  shows "(\<forall>k x. mget (ad_Sessions s1) k = Some x \<longleftrightarrow> mget (ad_Sessions s) k = Some x \<and> se_InstallationID x \<noteq> inst) \<and>
    (\<forall>k p. mget (ad_Pending s1) k = Some p \<longleftrightarrow> mget (ad_Pending s) k = Some p \<and> pa_InstallationID p \<noteq> inst) \<and>
    (\<forall>k h. mget (ad_Handoffs s1) k = Some h \<longleftrightarrow> mget (ad_Handoffs s) k = Some h \<and> ho_InstallationID h \<noteq> inst) \<and>
    (\<forall>i. mget (ad_Credentials s1) i \<noteq> None \<longrightarrow> credentialInUseLocked s1 i)"
proof -
  note wf = auth_coreD [OF auth_invD [OF assms(1)]]
  obtain se ns pe np ho nh where
    1: "revokeScan se_InstallationID se_DeviceHash inst (hashSecret sha256 dev) (ad_Sessions s) (ad_Sessions s) 0 = (se, ns, True)" and
    2: "revokeScan pa_InstallationID pa_DeviceHash inst (hashSecret sha256 dev) (ad_Pending s) (ad_Pending s) 0 = (pe, np, True)" and
    3: "revokeScan ho_InstallationID ho_DeviceHash inst (hashSecret sha256 dev) (ad_Handoffs s) (ad_Handoffs s) 0 = (ho, nh, True)" and
    s1: "s1 = dropUnusedCredentials (s\<lparr> ad_Sessions := se, ad_Pending := pe, ad_Handoffs := ho \<rparr>)"
    using RevokeInstallation_ok [OF assms(2)] by blast
  have fields: "ad_Sessions s1 = se" "ad_Pending s1 = pe" "ad_Handoffs s1 = ho"
    by (simp_all add: s1 dropUnusedCredentials_def)
  have "credentialInUseLocked s1 i" if "mget (ad_Credentials s1) i \<noteq> None" for i
    using dropUnused_used [of "s\<lparr> ad_Sessions := se, ad_Pending := pe, ad_Handoffs := ho \<rparr>" i] that wf(1)
    by (simp add: s1)
  thus ?thesis unfolding fields
    using revokeScan_all [OF 1 wf(2)] revokeScan_all [OF 2 wf(3)] revokeScan_all [OF 3 wf(4)] by blast
qed

lemma demo_store_inv: "auth_inv (demo_store\<lparr> ad_Credentials := [(''c1'', demo_credential)] \<rparr>)"
  by (simp add: auth_inv_def auth_core_def demo_store_def newAuthState_def one_per_device_def
      one_per_installation_def demo_session_def demo_credential_def MaxAuthSessions_def)

theorem created_session_resolves_witness:
  "\<exists>s1 token. CreateSession demo_sha (demo_store\<lparr> ad_Credentials := [(''c1'', demo_credential)] \<rparr>)
       ''c1'' ''i2'' ''other'' 60 90 (Some (replicate 32 CHR ''r'')) = (s1, Inr (token, 150)) \<and>
     (\<exists>s2 r. ResolveSession demo_sha s1 token ''i2'' ''other'' 0 150 = (s2, Inr r) \<and> se_CredentialID r = ''c1'')"
proof -
  let ?s = "demo_store\<lparr> ad_Credentials := [(''c1'', demo_credential)] \<rparr>"
  have "\<exists>s1 token. CreateSession demo_sha ?s ''c1'' ''i2'' ''other'' 60 90 (Some (replicate 32 CHR ''r'')) = (s1, Inr (token, 150))"
    by (simp add: CreateSession_def Let_def demo_store_def demo_session_def newAuthState_def
        dropReplacedSessions_def mfilter_def MaxAuthSessions_def randomToken_def auth_persistLocked_def)
  then obtain s1 token where
    c: "CreateSession demo_sha ?s ''c1'' ''i2'' ''other'' 60 90 (Some (replicate 32 CHR ''r'')) = (s1, Inr (token, 150))"
    by blast
  show ?thesis
    using created_session_resolves [OF demo_store_inv c, of 150 0] c by (auto simp: demo_sha_length)
qed

theorem revoked_installation_is_gone_witness:
  "\<exists>s1 n. RevokeInstallation demo_sha (demo_store\<lparr> ad_Credentials := [(''c1'', demo_credential)] \<rparr>) ''i1'' ''secret'' = (s1, n, None) \<and>
     mget (ad_Sessions s1) (hashSecret demo_sha ''token'') = None"
proof -
  let ?s = "demo_store\<lparr> ad_Credentials := [(''c1'', demo_credential)] \<rparr>"
  have "\<exists>s1 n. RevokeInstallation demo_sha ?s ''i1'' ''secret'' = (s1, n, None)"
    using demo_hash_nonempty
    by (simp add: RevokeInstallation_def Let_def demo_store_def demo_session_def newAuthState_def
        secureHashEqual_iff auth_persistLocked_def)
  then obtain s1 n where r: "RevokeInstallation demo_sha ?s ''i1'' ''secret'' = (s1, n, None)" by blast
  have "mget (ad_Sessions s1) (hashSecret demo_sha ''token'') \<noteq> Some x" for x
    using revoked_installation_is_gone [OF demo_store_inv r] by (auto simp: demo_store_def demo_session_def)
  thus ?thesis using r by (cases "mget (ad_Sessions s1) (hashSecret demo_sha ''token'')") auto
qed


lemma trimSpace_u1: "trimSpace ''u1'' = ''u1''"
  by code_simp


section \<open>Sealed credentials\<close>

text \<open>C11: A stored credential comes back unchanged, tokens included, for any cipher that decrypts
  what it encrypted, and the tokens are sealed under labels of their own: both reads find the
  plain tokens under \<^verbatim>\<open><id>:access\<close> and \<^verbatim>\<open><id>:refresh\<close>.\<close>

theorem credential_roundtrip:
  assumes "aead_correct a" and "length nonce = ae_NonceSize a" and "length nonce' = ae_NonceSize a"
    and "PutCredential (Some a) s c (Some nonce) (Some nonce') = (s1, None)"
  shows "GetCredential (Some a) s1 (ac_ID c) = Inr c \<and>
    (\<forall>i. i \<noteq> ac_ID c \<longrightarrow> GetCredential (Some a) s1 i = GetCredential (Some a) s i)"
proof -
  obtain access refresh where
    a: "sealAuthValue (Some a) (Some nonce) (ac_ID c @ '':access'') (ac_AccessToken c) = Inr access" and
    r: "sealAuthValue (Some a) (Some nonce') (ac_ID c @ '':refresh'') (ac_RefreshToken c) = Inr refresh"
    using assms(4) by (auto simp: PutCredential_def setCredentialLocked_def split: sum.splits)
  have s1: "s1 = s\<lparr> ad_Credentials := mput (ac_ID c)
       \<lparr> cr_ID = ac_ID c, cr_ClientID = ac_ClientID c, cr_UserID = ac_UserID c, cr_Login = ac_Login c,
         cr_Scopes = ac_Scopes c, cr_AccessToken = access, cr_RefreshToken = refresh,
         cr_AccessExpiresAt = ac_AccessExpiresAt c, cr_LastValidatedAt = ac_LastValidatedAt c,
         cr_UpdatedAt = ac_UpdatedAt c \<rparr> (ad_Credentials s) \<rparr>"
    using assms(4) a r by (simp add: PutCredential_def setCredentialLocked_def)
  show ?thesis
    using seal_open [OF assms(1,2) a] seal_open [OF assms(1,3) r]
    by (simp add: s1 GetCredential_def open_credential_def)
qed

definition demo_login :: AuthCredential where
  "demo_login = \<lparr> ac_ID = ''c2'', ac_ClientID = ''cl'', ac_UserID = ''u2'', ac_Login = ''ann'', ac_Scopes = [],
     ac_AccessToken = ''at'', ac_RefreshToken = ''rt'', ac_AccessExpiresAt = 5, ac_LastValidatedAt = 4,
     ac_UpdatedAt = 4 \<rparr>"

theorem credential_roundtrip_witness:
  "\<exists>s1. PutCredential (Some demo_aead) newAuthState demo_login (Some ''n1'') (Some ''n2'') = (s1, None) \<and>
     GetCredential (Some demo_aead) s1 ''c2'' = Inr demo_login"
proof -
  have "\<exists>s1. PutCredential (Some demo_aead) newAuthState demo_login (Some ''n1'') (Some ''n2'') = (s1, None)"
    by (simp add: PutCredential_def setCredentialLocked_def sealAuthValue_def auth_persistLocked_def)
  then obtain s1 where s1: "PutCredential (Some demo_aead) newAuthState demo_login (Some ''n1'') (Some ''n2'') = (s1, None)"
    by blast
  have "GetCredential (Some demo_aead) s1 (ac_ID demo_login) = Inr demo_login"
    using credential_roundtrip [OF demo_aead_correct _ _ s1] by (simp add: demo_aead_def)
  thus ?thesis using s1 by (simp add: demo_login_def)
qed

section \<open>A login that races with another one\<close>

text \<open>C19: Between \<^verbatim>\<open>ConsumeHandoff\<close> and \<^verbatim>\<open>CreateSession\<close> of one login the credential is referred
  to by nothing. Any other device that starts a login in between sweeps it away: the first
  login then fails with \<^const>\<open>ErrAuthNotFound\<close>, and its one-time handoff is used up.\<close>

theorem concurrent_login_drops_credential:
  assumes "ConsumeHandoff sha256 s code inst dev st now = (s1, Inr r)"
    and "\<not> credentialInUseLocked s1 (ho_CredentialID r)" and "auth_core s"
    and "PutPending sha256 s1 st' p now' = (s2, e)"
  shows "CreateSession sha256 s2 (ho_CredentialID r) inst dev ttl now'' rnd = (s2, Inl ErrAuthNotFound) \<and>
    ConsumeHandoff sha256 s2 code inst dev st now'' = (s2, Inl ErrAuthNotFound)"
proof -
  let ?k = "hashSecret sha256 code" and ?s = "cleanupExpiredLocked now' s1"
  have s1: "s1 = s\<lparr> ad_Handoffs := mdel ?k (ad_Handoffs s) \<rparr>"
    using assms(1) by (auto simp: ConsumeHandoff_def Let_def auth_persistLocked_def split: option.splits if_splits)
  have fields: "ad_Credentials s2 = ad_Credentials ?s" "ad_Handoffs s2 = ad_Handoffs ?s"
    using assms(4) by (auto simp: PutPending_def Let_def split: if_splits)
  note wf = auth_coreD [OF assms(3)]
  have "set (ad_Sessions ?s) \<subseteq> set (ad_Sessions s1)" "set (ad_Handoffs ?s) \<subseteq> set (ad_Handoffs s1)"
    by (auto simp: cleanupExpiredLocked_def Let_def dropUnusedCredentials_def mfilter_def)
  hence "credentialInUseLocked ?s i \<Longrightarrow> credentialInUseLocked s1 i" for i
    unfolding credentialInUseLocked_def set_map by blast
  moreover have "mget (ad_Credentials ?s) i \<noteq> None \<Longrightarrow> credentialInUseLocked ?s i" for i
    unfolding cleanupExpiredLocked_def Let_def by (rule dropUnused_used) (simp_all add: s1 wf)
  ultimately have "mget (ad_Credentials ?s) (ho_CredentialID r) = None" using assms(2) by blast
  moreover have "mget (ad_Handoffs ?s) ?k = None"
  proof (rule submap_None)
    show "submap (ad_Handoffs ?s) (ad_Handoffs s1)"
      by (simp add: cleanupExpiredLocked_def Let_def dropUnusedCredentials_def submap_mfilter s1 wf)
  qed (simp add: s1 wf)
  ultimately show ?thesis by (simp add: CreateSession_def ConsumeHandoff_def Let_def fields)
qed

definition demo_pending :: PendingAuthRecord where
  "demo_pending = \<lparr> pa_InstallationID = ''i2'', pa_DeviceHash = hashSecret demo_sha ''other'',
     pa_AppCallbackURI = ''app:cb'', pa_CreatedAt = 60, pa_ExpiresAt = 200 \<rparr>"

definition demo_handed_over :: AuthDiskState where
  "demo_handed_over = newAuthState\<lparr> ad_Credentials := [(''c1'', demo_credential)],
     ad_Handoffs := [(hashSecret demo_sha ''code'', demo_handoff)] \<rparr>"

theorem concurrent_login_drops_credential_witness:
  "\<exists>s1 s2. ConsumeHandoff demo_sha demo_handed_over ''code'' ''i1'' ''secret'' ''state'' 50 = (s1, Inr demo_handoff) \<and>
     PutPending demo_sha s1 ''state2'' demo_pending 60 = (s2, None) \<and>
     CreateSession demo_sha s2 ''c1'' ''i1'' ''secret'' 100 61 (Some ''r'') = (s2, Inl ErrAuthNotFound)"
proof -
  let ?s1 = "newAuthState\<lparr> ad_Credentials := [(''c1'', demo_credential)] \<rparr>"
  have core: "auth_core demo_handed_over"
    by (simp add: auth_core_def demo_handed_over_def newAuthState_def one_per_device_def
        one_per_installation_def demo_handoff_def demo_credential_def)
  have c: "ConsumeHandoff demo_sha demo_handed_over ''code'' ''i1'' ''secret'' ''state'' 50 = (?s1, Inr demo_handoff)"
    using demo_hash_nonempty
    by (simp add: ConsumeHandoff_def demo_handoff_def secureHashEqual_iff auth_persistLocked_def
        newAuthState_def demo_handed_over_def)
  have free: "\<not> credentialInUseLocked ?s1 (ho_CredentialID demo_handoff)"
    by (simp add: credentialInUseLocked_def newAuthState_def)
  have "\<exists>s2. PutPending demo_sha ?s1 ''state2'' demo_pending 60 = (s2, None)"
    by (simp add: PutPending_def Let_def cleanupExpiredLocked_def dropUnusedCredentials_def newAuthState_def
        mfilter_def MaxPendingAuthRecords_def auth_persistLocked_def)
  then obtain s2 where p: "PutPending demo_sha ?s1 ''state2'' demo_pending 60 = (s2, None)" by blast
  show ?thesis
    using concurrent_login_drops_credential [OF c free core p, of 100 61 "Some ''r''"] c p
    by (auto simp: demo_handoff_def)
qed

end
