(* ===== verification/Go_Float.thy ===== *)
theory Go_Float
  imports Go_Prelude
begin

text \<open>
  Go's \<^verbatim>\<open>float64\<close> arithmetic on the values the code computes with: a float is the rational it
  stands for, and every operation is the exact one followed by rounding to 53 significant bits,
  to nearest with ties to even. The exponent is not bounded: the values here (token counts,
  seconds, requests per second) are far from the limits where it would matter, so there is no
  overflow, no infinity and no subnormal number.
\<close>

definition round_half_even :: "rat \<Rightarrow> int" where
  "round_half_even x =
     (let f = \<lfloor>x\<rfloor>; d = x - of_int f
      in if d < 1 / 2 then f else if d > 1 / 2 then f + 1 else if even f then f else f + 1)"

text \<open>The exponent of the leading bit of a positive number.\<close>

definition bin_exp :: "rat \<Rightarrow> int" where
  "bin_exp x = (if 1 \<le> x then int (floorlog 2 (nat \<lfloor>x\<rfloor>)) - 1
                else - int (floorlog 2 (nat (\<lceil>1 / x\<rceil> - 1))))"

definition pow2 :: "int \<Rightarrow> rat" where
  "pow2 e = (if 0 \<le> e then 2 ^ nat e else 1 / 2 ^ nat (- e))"

definition fl64 :: "rat \<Rightarrow> rat" where
  "fl64 x = (if x = 0 then 0
     else let u = pow2 (bin_exp \<bar>x\<bar> - 52) in sgn x * (of_int (round_half_even (\<bar>x\<bar> / u)) * u))"

definition fadd :: "rat \<Rightarrow> rat \<Rightarrow> rat" where "fadd x y = fl64 (x + y)"
definition fsub :: "rat \<Rightarrow> rat \<Rightarrow> rat" where "fsub x y = fl64 (x - y)"
definition fmul :: "rat \<Rightarrow> rat \<Rightarrow> rat" where "fmul x y = fl64 (x * y)"
definition fdiv :: "rat \<Rightarrow> rat \<Rightarrow> rat" where "fdiv x y = fl64 (x / y)"
definition float_of_int :: "int \<Rightarrow> rat" where "float_of_int i = fl64 (of_int i)"

text \<open>\<^verbatim>\<open>Duration.Seconds\<close> of a duration that is not negative.\<close>

definition seconds :: "duration \<Rightarrow> rat" where
  "seconds d = fadd (float_of_int (d div second)) (fdiv (float_of_int (d mod second)) (float_of_int second))"

section \<open>Rounding errors\<close>

lemma round_half_even_err: "\<bar>of_int (round_half_even x) - x\<bar> \<le> 1 / 2"
proof -
  define f where "f = \<lfloor>x\<rfloor>"
  have f: "of_int f \<le> x" "x < of_int f + 1" unfolding f_def by linarith+
  have "round_half_even x = f \<and> x - of_int f \<le> 1 / 2 \<or> round_half_even x = f + 1 \<and> 1 / 2 \<le> x - of_int f"
    unfolding round_half_even_def Let_def f_def [symmetric] by (auto simp: not_less)
  thus ?thesis using f by (auto simp: abs_le_iff)
qed

lemma round_half_even_int [simp]: "round_half_even (of_int n) = n"
  by (simp add: round_half_even_def)

lemma round_half_even_nonneg: "0 \<le> x \<Longrightarrow> 0 \<le> round_half_even x"
proof -
  assume "0 \<le> x"
  hence "0 \<le> \<lfloor>x\<rfloor>" by simp
  thus ?thesis by (auto simp: round_half_even_def Let_def)
qed

lemma pow2_pos [simp]: "0 < pow2 e"
  by (simp add: pow2_def)

lemma pow2_add: "pow2 (a + b) = pow2 a * pow2 b"
proof -
  have p: "pow2 e = 2 powi e" for e
    by (simp add: pow2_def power_int_def power_one_over)
  have "(2 :: rat) powi (a + b) = 2 powi a * 2 powi b" by (rule power_int_add) simp
  thus ?thesis unfolding p .
qed

lemma pow2_nat: "pow2 (int n) = 2 ^ n"
  by (simp add: pow2_def)

lemma pow2_neg: "pow2 (- int n) = 1 / 2 ^ n"
proof (cases "n = 0")
  case False
  hence "\<not> 0 \<le> - int n" by simp
  thus ?thesis unfolding pow2_def by simp
qed (simp add: pow2_def)

lemma bin_exp_le:
  assumes "0 < x"
  shows "pow2 (bin_exp x) \<le> x" "x < pow2 (bin_exp x + 1)"
proof -
  have "pow2 (bin_exp x) \<le> x \<and> x < pow2 (bin_exp x + 1)"
  proof (cases "1 \<le> x")
    case True
    let ?n = "nat \<lfloor>x\<rfloor>" and ?k = "floorlog 2 (nat \<lfloor>x\<rfloor>)"
    have n: "0 < ?n" using True by simp
    have k: "2 ^ (?k - 1) \<le> ?n" "?n < 2 ^ ?k" "0 < ?k"
      using floorlog_bounds [of ?n 2] n by (auto simp: floorlog_def)
    have x: "of_nat ?n \<le> x" "x < of_nat ?n + 1" using True by linarith+
    have "(2 :: rat) ^ (?k - 1) \<le> of_nat ?n" using k(1) by (metis of_nat_le_iff of_nat_numeral of_nat_power)
    hence lo: "2 ^ (?k - 1) \<le> x" using x(1) by linarith
    have "(of_nat ?n :: rat) + 1 \<le> 2 ^ ?k"
      using k(2) by (metis Suc_leI of_nat_Suc of_nat_le_iff of_nat_numeral of_nat_power add.commute)
    hence hi: "x < 2 ^ ?k" using x(2) by linarith
    have e: "bin_exp x = int (?k - 1)" "bin_exp x + 1 = int ?k" using True k(3) by (simp_all add: bin_exp_def)
    show ?thesis unfolding e(2) unfolding e(1) pow2_nat using lo hi by simp
  next
    case False
    let ?y = "1 / x" and ?n = "nat (\<lceil>1 / x\<rceil> - 1)" and ?k = "floorlog 2 (nat (\<lceil>1 / x\<rceil> - 1))"
    have y: "1 < ?y" using False assms by simp
    hence n: "0 < ?n" by (simp add: less_ceiling_iff)
    have k: "2 ^ (?k - 1) \<le> ?n" "?n < 2 ^ ?k" "0 < ?k"
      using floorlog_bounds [of ?n 2] n by (auto simp: floorlog_def)
    have yn: "of_nat ?n < ?y" "?y \<le> of_nat ?n + 1" using y by linarith+
    have "(2 :: rat) ^ (?k - 1) \<le> of_nat ?n" using k(1) by (metis of_nat_le_iff of_nat_numeral of_nat_power)
    hence lo: "2 ^ (?k - 1) < ?y" using yn(1) by linarith
    have "(of_nat ?n :: rat) + 1 \<le> 2 ^ ?k"
      using k(2) by (metis Suc_leI of_nat_Suc of_nat_le_iff of_nat_numeral of_nat_power add.commute)
    hence hi: "?y \<le> 2 ^ ?k" using yn(2) by linarith
    have e: "bin_exp x = - int ?k" "bin_exp x + 1 = - int (?k - 1)" using False k(3) by (simp_all add: bin_exp_def)
    have "1 / 2 ^ ?k \<le> x" using hi assms by (simp add: field_simps)
    moreover have "x < 1 / 2 ^ (?k - 1)" using lo assms by (simp add: field_simps)
    ultimately show ?thesis unfolding e(2) unfolding e(1) pow2_neg by simp
  qed
  thus "pow2 (bin_exp x) \<le> x" "x < pow2 (bin_exp x + 1)" by auto
qed

text \<open>The relative rounding error is at most 2 to the power -53.\<close>

definition ulp_eps :: rat where "ulp_eps = 1 / 2 ^ 53"

lemma fl64_err:
  assumes "0 \<le> x"
  shows "\<bar>fl64 x - x\<bar> \<le> x * ulp_eps"
proof (cases "x = 0")
  case False
  hence x: "0 < x" using assms by simp
  define u where "u = pow2 (bin_exp x - 52)"
  have u: "0 < u" by (simp add: u_def)
  have "pow2 (bin_exp x) = u * 2 ^ 52"
    unfolding u_def using pow2_add [of "bin_exp x - 52" 52] pow2_nat [of 52] by simp
  hence big: "u * 2 ^ 52 \<le> x" using bin_exp_le(1) [OF x] by simp
  have "fl64 x - x = (of_int (round_half_even (x / u)) - x / u) * u"
    using x u by (simp add: fl64_def Let_def u_def [symmetric] field_simps)
  hence "\<bar>fl64 x - x\<bar> = \<bar>of_int (round_half_even (x / u)) - x / u\<bar> * u" using u by (simp add: abs_mult)
  also have "\<dots> \<le> 1 / 2 * u" using round_half_even_err [of "x / u"] u by (simp add: mult_right_mono)
  also have "\<dots> \<le> x * ulp_eps" using big by (simp add: ulp_eps_def)
  finally show ?thesis .
qed (simp add: fl64_def)

lemma fl64_nonneg: "0 \<le> x \<Longrightarrow> 0 \<le> fl64 x"
  using round_half_even_nonneg [of "x / pow2 (bin_exp x - 52)"]
  by (cases "x = 0") (simp_all add: fl64_def Let_def less_imp_le)

lemma fl64_le: "0 \<le> x \<Longrightarrow> fl64 x \<le> x * (1 + ulp_eps)"
  using fl64_err [of x] by (simp add: abs_le_iff algebra_simps)

lemma fl64_ge: "0 \<le> x \<Longrightarrow> x * (1 - ulp_eps) \<le> fl64 x"
  using fl64_err [of x] by (simp add: abs_le_iff algebra_simps)

text \<open>Integers below 2 to the power 53 are exact.\<close>

lemma float_of_int_exact:
  assumes "0 \<le> n" and "n < 2 ^ 53"
  shows "float_of_int n = of_int n"
proof (cases "n = 0")
  case False
  hence n: "0 < (of_int n :: rat)" "1 \<le> (of_int n :: rat)" using assms by simp_all
  let ?e = "bin_exp (of_int n)"
  have "pow2 ?e \<le> of_int n" by (rule bin_exp_le(1) [OF n(1)])
  also have "(of_int n :: rat) < 2 ^ 53" using assms(2) by (metis of_int_less_iff of_int_numeral of_int_power)
  finally have lt: "pow2 ?e < 2 ^ 53" .
  have "0 \<le> ?e" using n(2) by (simp add: bin_exp_def floorlog_def)
  then obtain k where k: "?e = int k" using nonneg_eq_int by blast
  have "(2 :: rat) ^ k < 2 ^ 53" using lt by (simp add: k pow2_nat)
  hence "k < 53" using power_less_imp_less_exp [of "2 :: rat" k 53] by simp
  hence "?e - 52 = - int (52 - k)" using k by simp
  hence u: "pow2 (?e - 52) = 1 / 2 ^ (52 - k)" by (simp only: pow2_neg)
  have "(of_int n :: rat) / pow2 (?e - 52) = of_int (n * 2 ^ (52 - k))" by (simp add: u)
  hence "round_half_even (of_int n / pow2 (?e - 52)) = n * 2 ^ (52 - k)" by (simp only: round_half_even_int)
  thus ?thesis using n by (simp add: float_of_int_def fl64_def Let_def u)
qed (simp add: float_of_int_def fl64_def)

end
