(* ===== verification/Dotenv.thy ===== *)
theory Dotenv
  imports Credentials Go_Strings Go_Float
begin

text \<open>
  The configuration source (\<^verbatim>\<open>internal/config/dotenv.go\<close>): the search for the dotenv file, its
  parser, and the typed readers of \<open>configSource\<close>, in which the process environment goes
  before the file. The environment and the file system are the record \<open>OS\<close>; the parts of
  \<^verbatim>\<open>bufio\<close>, \<^verbatim>\<open>strconv\<close>, \<^verbatim>\<open>time\<close> and \<^verbatim>\<open>path/filepath\<close> the code calls are written out first.
\<close>

section \<open>Library functions\<close>

definition isSpaceRune :: "rune \<Rightarrow> bool" where
  "isSpaceRune r \<longleftrightarrow> in_range 9 13 r \<or> r \<in> {0x20, 0x85, 0xA0, 0x1680} \<or> in_range 0x2000 0x200A r
     \<or> r \<in> {0x2028, 0x2029, 0x202F, 0x205F, 0x3000}"

text \<open>A string as runes with the bytes each was read from; \<^verbatim>\<open>strings.FieldsFunc\<close>.\<close>

fun chunks_of :: "string \<Rightarrow> (rune \<times> nat) list \<Rightarrow> (rune \<times> string) list" where
  "chunks_of s [] = []"
| "chunks_of s ((r, w) # is) = (r, take w s) # chunks_of (drop w s) is"

fun fields_from :: "(rune \<Rightarrow> bool) \<Rightarrow> string \<Rightarrow> (rune \<times> string) list \<Rightarrow> string list" where
  "fields_from f cur [] = (if cur = [] then [] else [cur])"
| "fields_from f cur ((r, b) # cs) =
     (if f r then (if cur = [] then [] else [cur]) @ fields_from f [] cs else fields_from f (cur @ b) cs)"

definition fieldsFunc :: "(rune \<Rightarrow> bool) \<Rightarrow> string \<Rightarrow> string list" where
  "fieldsFunc f s = fields_from f [] (chunks_of s (rune_items s))"

text \<open>\<^verbatim>\<open>bufio.Scanner\<close> over lines: the lines without their end, and whether one of them did not
  fit the buffer, which ends the scan.\<close>

definition dropCR :: "string \<Rightarrow> string" where
  "dropCR l = (if l \<noteq> [] \<and> last l = CHR 0x0D then butlast l else l)"

definition maxTokenSize :: nat where "maxTokenSize = 1048576"

definition scanLines :: "string \<Rightarrow> string list \<times> bool" where
  "scanLines s =
     (let ls = splitChar (CHR 0x0A) s;
          ls = (if last ls = [] then butlast ls else ls);
          ok = takeWhile (\<lambda>l. length l < maxTokenSize) ls
      in (map dropCR ok, length ok < length ls))"

definition parseBool :: "string \<Rightarrow> bool option" where
  "parseBool s =
     (if s \<in> set [''1'', ''t'', ''T'', ''TRUE'', ''true'', ''True''] then Some True
      else if s \<in> set [''0'', ''f'', ''F'', ''FALSE'', ''false'', ''False''] then Some False
      else None)"

text \<open>\<^verbatim>\<open>strconv.UnquoteChar\<close> for a double-quoted string: the bytes the next character stands for
  and the rest.\<close>

definition unhex :: "char \<Rightarrow> nat option" where
  "unhex c = (let n = of_char c in
     if in_range 48 57 n then Some (n - 48) else if in_range 97 102 n then Some (n - 87)
     else if in_range 65 70 n then Some (n - 55) else None)"

fun unhex_all :: "nat \<Rightarrow> string \<Rightarrow> nat option" where
  "unhex_all v [] = Some v"
| "unhex_all v (c # cs) = (case unhex c of None \<Rightarrow> None | Some x \<Rightarrow> unhex_all (v * 16 + x) cs)"

definition unoctal :: "char \<Rightarrow> nat option" where
  "unoctal c = (if in_range 48 55 (of_char c) then Some (of_char c - 48) else None)"

fun unoctal_all :: "nat \<Rightarrow> string \<Rightarrow> nat option" where
  "unoctal_all v [] = Some v"
| "unoctal_all v (c # cs) = (case unoctal c of None \<Rightarrow> None | Some x \<Rightarrow> unoctal_all (v * 8 + x) cs)"

definition simple_escapes :: "(char \<times> char) list" where
  "simple_escapes = [(CHR ''a'', CHR 0x07), (CHR ''b'', CHR 0x08), (CHR ''f'', CHR 0x0C), (CHR ''n'', CHR 0x0A),
     (CHR ''r'', CHR 0x0D), (CHR ''t'', CHR 0x09), (CHR ''v'', CHR 0x0B), (CHR 0x5C, CHR 0x5C), (CHR 0x22, CHR 0x22)]"

definition unquote_hex :: "nat \<Rightarrow> string \<Rightarrow> (nat \<times> string) option" where
  "unquote_hex n s = (if length s < n then None else map_option (\<lambda>v. (v, drop n s)) (unhex_all 0 (take n s)))"

definition unquote_escape :: "char \<Rightarrow> string \<Rightarrow> (string \<times> string) option" where
  "unquote_escape c s =
     (case map_of simple_escapes c of
        Some v \<Rightarrow> Some ([v], s)
      | None \<Rightarrow>
          if c = CHR ''x'' then map_option (\<lambda>(v, r). ([char_of v], r)) (unquote_hex 2 s)
          else if c = CHR ''u'' \<or> c = CHR ''U'' then
            (case unquote_hex (if c = CHR ''u'' then 4 else 8) s of
               None \<Rightarrow> None
             | Some (v, r) \<Rightarrow> if valid_rune v then Some (encodeRune v, r) else None)
          else if unoctal c \<noteq> None then
            (if length s < 2 then None
             else case unoctal_all 0 (c # take 2 s) of
                    None \<Rightarrow> None
                  | Some v \<Rightarrow> if v > 255 then None else Some ([char_of v], drop 2 s))
          else None)"

definition unquoteChar :: "string \<Rightarrow> (string \<times> string) option" where
  "unquoteChar s = (case s of
       [] \<Rightarrow> None
     | c # r \<Rightarrow>
         if c = CHR 0x22 then None
         else if of_char c \<ge> (0x80 :: nat) then
           (let (v, w) = decodeRune s in Some (encodeRune v, drop w s))
         else if c \<noteq> CHR 0x5C then Some ([c], r)
         else case r of [] \<Rightarrow> None | e # r' \<Rightarrow> unquote_escape e r')"

lemma unquote_escape_shorter: "unquote_escape c s = Some (b, r) \<Longrightarrow> length r \<le> length s"
  by (auto simp: unquote_escape_def unquote_hex_def split: option.splits if_splits)

lemma unquoteChar_shorter: "unquoteChar s = Some (b, r) \<Longrightarrow> length r < length s"
  using decodeRune_width [of s]
  by (auto simp: unquoteChar_def split_beta split: list.splits if_splits dest: unquote_escape_shorter)

text \<open>\<^verbatim>\<open>strconv.Unquote\<close> after the opening quote: up to the closing one, which must end the
  string.\<close>

function unquote_from :: "string \<Rightarrow> string \<Rightarrow> string option" where
  "unquote_from buf s = (case s of
       [] \<Rightarrow> None
     | c # r \<Rightarrow>
         if c = CHR 0x22 then (if r = [] then Some buf else None)
         else if c = CHR 0x0A then None
         else case unquoteChar s of
                None \<Rightarrow> None
              | Some (b, r') \<Rightarrow> unquote_from (buf @ b) r')"
  by pat_completeness auto

termination unquote_from
  by (relation "measure (\<lambda>(buf, s). length s)") (auto dest: unquoteChar_shorter)

declare unquote_from.simps [simp del]

definition unquote :: "string \<Rightarrow> string option" where
  "unquote s = (case s of c # r \<Rightarrow> if c = CHR 0x22 then unquote_from [] r else None | [] \<Rightarrow> None)"

text \<open>\<^verbatim>\<open>time.ParseDuration\<close>: a sign and a sequence of numbers with units, each a whole part and a
  fraction, in 64-bit arithmetic; the fraction is scaled in floating point.\<close>

definition duration_units :: "(string \<times> nat) list" where
  "duration_units = [(''ns'', 1), (''us'', 1000), ([CHR 0xC2, CHR 0xB5, CHR ''s''], 1000),
     ([CHR 0xCE, CHR 0xBC, CHR ''s''], 1000), (''ms'', 1000000), (''s'', 1000000000),
     (''m'', 60000000000), (''h'', 3600000000000)]"

fun leadingInt :: "nat \<Rightarrow> string \<Rightarrow> (nat \<times> string) option" where
  "leadingInt x [] = Some (x, [])"
| "leadingInt x (c # s) = (case digit_val c of
       None \<Rightarrow> Some (x, c # s)
     | Some d \<Rightarrow> if x > 2 ^ 63 div 10 then None
         else let x = x * 10 + d in if x > 2 ^ 63 then None else leadingInt x s)"

fun leadingFraction :: "nat \<Rightarrow> nat \<Rightarrow> bool \<Rightarrow> string \<Rightarrow> nat \<times> nat \<times> string" where
  "leadingFraction x scale ovf [] = (x, scale, [])"
| "leadingFraction x scale ovf (c # s) = (case digit_val c of
       None \<Rightarrow> (x, scale, c # s)
     | Some d \<Rightarrow> if ovf \<or> x > (2 ^ 63 - 1) div 10 \<or> x * 10 + d > 2 ^ 63 then leadingFraction x scale True s
         else leadingFraction (x * 10 + d) (scale * 10) False s)"

definition number_char :: "char \<Rightarrow> bool" where
  "number_char c \<longleftrightarrow> c = CHR ''.'' \<or> digit_val c \<noteq> None"

text \<open>One number with its unit, and the rest.\<close>

definition duration_part :: "string \<Rightarrow> (nat \<times> string) option" where
  "duration_part s =
     (if s = [] \<or> \<not> number_char (hd s) then None
      else case leadingInt 0 s of
        None \<Rightarrow> None
      | Some (v, s1) \<Rightarrow>
          (let pre = (length s1 \<noteq> length s);
               point = (s1 \<noteq> [] \<and> hd s1 = CHR ''.'');
               (f, scale, s2) = (if point then leadingFraction 0 1 False (tl s1) else (0, 1, s1));
               post = (point \<and> length s2 \<noteq> length (tl s1));
               u = takeWhile (\<lambda>c. \<not> number_char c) s2;
               s3 = dropWhile (\<lambda>c. \<not> number_char c) s2
           in if \<not> pre \<and> \<not> post \<or> u = [] then None
              else case map_of duration_units u of
                     None \<Rightarrow> None
                   | Some unit \<Rightarrow>
                       if v > 2 ^ 63 div unit then None
                       else let v = v * unit;
                                v = (if f > 0 then v + nat \<lfloor>fmul (float_of_int (int f))
                                       (fdiv (float_of_int (int unit)) (of_nat scale))\<rfloor> else v)
                            in if v > 2 ^ 63 then None else Some (v, s3)))"

lemma leadingInt_length: "leadingInt x s = Some (v, r) \<Longrightarrow> length r \<le> length s"
  by (induction s arbitrary: x) (auto simp: Let_def le_SucI split: option.splits if_splits)

lemma leadingFraction_length: "length (snd (snd (leadingFraction x scale ovf s))) \<le> length s"
  by (induction x scale ovf s rule: leadingFraction.induct) (auto split: option.splits)

lemma dropWhile_shorter: "takeWhile P s \<noteq> [] \<Longrightarrow> length (dropWhile P s) < length s"
  by (cases s) (auto simp: less_Suc_eq_le length_dropWhile_le split: if_splits)

lemma duration_part_shorter: "duration_part s = Some (v, r) \<Longrightarrow> length r < length s"
proof -
  assume a: "duration_part s = Some (v, r)"
  then obtain v0 s1 where s1: "leadingInt 0 s = Some (v0, s1)" by (auto simp: duration_part_def split: if_splits option.splits)
  let ?s2 = "snd (snd (if s1 \<noteq> [] \<and> hd s1 = CHR ''.'' then leadingFraction 0 1 False (tl s1) else (0, 1, s1)))"
  have le: "length ?s2 \<le> length s1"
    using leadingFraction_length [of 0 1 False "tl s1"] by (auto simp del: leadingFraction.simps)
  have r: "takeWhile (\<lambda>c. \<not> number_char c) ?s2 \<noteq> [] \<and> r = dropWhile (\<lambda>c. \<not> number_char c) ?s2"
    using a s1 unfolding duration_part_def Let_def split_beta by (auto split: if_splits option.splits)
  have "length r < length ?s2" using r dropWhile_shorter by blast
  thus ?thesis using le leadingInt_length [OF s1] by linarith
qed

function duration_parts :: "nat \<Rightarrow> string \<Rightarrow> nat option" where
  "duration_parts d s =
     (if s = [] then Some d
      else case duration_part s of
             None \<Rightarrow> None
           | Some (v, r) \<Rightarrow> let d = (d + v) mod 2 ^ 64 in if d > 2 ^ 63 then None else duration_parts d r)"
  by pat_completeness auto

termination duration_parts
  by (relation "measure (\<lambda>(d, s). length s)") (auto dest: duration_part_shorter)

declare duration_parts.simps [simp del]

definition parseDuration :: "string \<Rightarrow> duration option" where
  "parseDuration s =
     (let neg = (s \<noteq> [] \<and> hd s = CHR ''-'');
          s = (if s \<noteq> [] \<and> (hd s = CHR ''-'' \<or> hd s = CHR ''+'') then tl s else s)
      in if s = ''0'' then Some 0
         else if s = [] then None
         else case duration_parts 0 s of
                None \<Rightarrow> None
              | Some d \<Rightarrow> if neg then Some (wrap64 (- wrap64 (int d)))
                  else if d > 2 ^ 63 - 1 then None else Some (int d))"

text \<open>Lexical paths: \<^verbatim>\<open>filepath.Clean\<close>, \<^verbatim>\<open>Join\<close> and \<^verbatim>\<open>Dir\<close> on a Unix system.\<close>

fun clean_step :: "bool \<Rightarrow> string list \<Rightarrow> string \<Rightarrow> string list" where
  "clean_step rooted out e =
     (if e = '''' \<or> e = ''.'' then out
      else if e = ''..'' then
        (case out of
           [] \<Rightarrow> if rooted then [] else [''..'']
         | p # ps \<Rightarrow> if p = ''..'' then ''..'' # out else ps)
      else e # out)"

definition isAbs :: "string \<Rightarrow> bool" where
  "isAbs p \<longleftrightarrow> hasPrefix p ''/''"

definition cleanPath :: "string \<Rightarrow> string" where
  "cleanPath p =
     (if p = '''' then ''.''
      else let s = joinStrings ''/'' (rev (foldl (clean_step (isAbs p)) [] (splitChar (CHR ''/'') p)))
           in if isAbs p then ''/'' @ s else if s = '''' then ''.'' else s)"

definition joinPath :: "string list \<Rightarrow> string" where
  "joinPath es = (let es = dropWhile (\<lambda>e. e = '''') es in if es = [] then '''' else cleanPath (joinStrings ''/'' es))"

definition dirPath :: "string \<Rightarrow> string" where
  "dirPath p = cleanPath (rev (dropWhile (\<lambda>c. c \<noteq> CHR ''/'') (rev p)))"

section \<open>The process\<close>

datatype stat = NotExist | StatError | Regular | NotRegular

datatype open_error = OpenNotExist | OpenFailed

text \<open>What the process sees: \<open>os_open\<close> gives the contents of a file and whether it could be
  read to its end.\<close>

record OS =
  os_env :: "string \<Rightarrow> string option"
  os_wd :: "string option"
  os_exe :: "string option"
  os_stat :: "string \<Rightarrow> stat"
  os_open :: "string \<Rightarrow> open_error + string \<times> bool"

definition absPath :: "OS \<Rightarrow> string \<Rightarrow> string option" where
  "absPath os p = (if isAbs p then Some (cleanPath p) else map_option (\<lambda>wd. joinPath [wd, p]) (os_wd os))"

section \<open>Parsing a dotenv file\<close>

text \<open>Messages are those of the code without the quoted arguments.\<close>

definition validDotEnvKey :: "Unicode \<Rightarrow> string \<Rightarrow> bool" where
  "validDotEnvKey uc key = (case runes key of
       [] \<Rightarrow> False
     | c # cs \<Rightarrow> (c = 95 \<or> isLetter uc c) \<and> (\<forall>d \<in> set cs. d = 95 \<or> isLetter uc d \<or> isDigitRune uc d))"

fun closing_from :: "nat \<Rightarrow> bool \<Rightarrow> string \<Rightarrow> nat option" where
  "closing_from index escaped [] = None"
| "closing_from index escaped (c # s) =
     (if escaped then closing_from (index + 1) False s
      else if c = CHR 0x5C then closing_from (index + 1) True s
      else if c = CHR 0x22 then Some index
      else closing_from (index + 1) False s)"

definition findClosingDoubleQuote :: "string \<Rightarrow> nat option" where
  "findClosingDoubleQuote raw = closing_from 1 False (drop 1 raw)"

definition validateDotEnvTrailing :: "string \<Rightarrow> err option" where
  "validateDotEnvTrailing raw =
     (let trailing = trimSpace raw
      in if trailing = '''' \<or> hasPrefix trailing ''#'' then None
         else Some (ErrText ''unexpected characters after quoted value''))"

text \<open>The loop over the runes of the value: \<open>index\<close> is the byte offset, and the byte before a
  \<^verbatim>\<open>#\<close> is looked at as a rune of its own.\<close>

fun comment_from :: "string \<Rightarrow> nat \<Rightarrow> (rune \<times> nat) list \<Rightarrow> nat option" where
  "comment_from raw index [] = None"
| "comment_from raw index ((r, w) # is) =
     (if r = 35 \<and> index > 0 \<and> isSpaceRune (of_char (raw ! (index - 1))) then Some index
      else comment_from raw (index + w) is)"

definition stripDotEnvInlineComment :: "string \<Rightarrow> string" where
  "stripDotEnvInlineComment raw = (case comment_from raw 0 (rune_items raw) of
       Some index \<Rightarrow> trimSpace (take index raw)
     | None \<Rightarrow> trimSpace raw)"

definition parseDotEnvValue :: "string \<Rightarrow> err + string" where
  "parseDotEnvValue raw = (case raw of
       [] \<Rightarrow> Inr ''''
     | q # rest \<Rightarrow>
         if q = CHR 0x27 then
           (case indexByte rest (CHR 0x27) of
              None \<Rightarrow> Inl (ErrText ''unterminated single-quoted value'')
            | Some i \<Rightarrow>
                (let closing = i + 1
                 in case validateDotEnvTrailing (drop (closing + 1) raw) of
                      Some e \<Rightarrow> Inl e
                    | None \<Rightarrow> Inr (drop 1 (take closing raw))))
         else if q = CHR 0x22 then
           (case findClosingDoubleQuote raw of
              None \<Rightarrow> Inl (ErrText ''unterminated double-quoted value'')
            | Some closing \<Rightarrow>
                (case validateDotEnvTrailing (drop (closing + 1) raw) of
                   Some e \<Rightarrow> Inl e
                 | None \<Rightarrow>
                     (case unquote (take (closing + 1) raw) of
                        None \<Rightarrow> Inl (ErrText ''invalid double-quoted value'')
                      | Some v \<Rightarrow> Inr v)))
         else Inr (stripDotEnvInlineComment raw))"

text \<open>One line: nothing, a binding, or an error.\<close>

definition byte_order_mark :: string where
  "byte_order_mark = [CHR 0xEF, CHR 0xBB, CHR 0xBF]"

definition line_error :: "nat \<Rightarrow> string \<Rightarrow> err" where
  "line_error n msg = ErrText (''line '' @ digits_of n @ '': '' @ msg)"

definition dotenv_line :: "Unicode \<Rightarrow> nat \<Rightarrow> string \<Rightarrow> err + (string \<times> string) option" where
  "dotenv_line uc lineNumber line =
     (let line = (if lineNumber = 1 then trimPrefix line byte_order_mark else line);
          line = trimSpace line
      in if line = '''' \<or> hasPrefix line ''#'' then Inr None
         else let line = (if hasPrefix line ''export '' then trimSpace (trimPrefix line ''export '') else line)
              in case indexByte line (CHR ''='') of
                   None \<Rightarrow> Inl (line_error lineNumber ''expected KEY=VALUE'')
                 | Some separator \<Rightarrow>
                     if separator = 0 then Inl (line_error lineNumber ''expected KEY=VALUE'')
                     else let key = trimSpace (take separator line)
                          in if \<not> validDotEnvKey uc key then Inl (line_error lineNumber ''invalid variable name'')
                             else case parseDotEnvValue (trimSpace (drop (separator + 1) line)) of
                                    Inl e \<Rightarrow> Inl (case e of ErrText m \<Rightarrow> line_error lineNumber m | _ \<Rightarrow> e)
                                  | Inr v \<Rightarrow> Inr (Some (key, v)))"

fun dotenv_lines :: "Unicode \<Rightarrow> nat \<Rightarrow> string list \<Rightarrow> (string, string) gomap \<Rightarrow> err + (string, string) gomap" where
  "dotenv_lines uc n [] values = Inr values"
| "dotenv_lines uc n (l # ls) values = (case dotenv_line uc n l of
       Inl e \<Rightarrow> Inl e
     | Inr None \<Rightarrow> dotenv_lines uc (n + 1) ls values
     | Inr (Some (k, v)) \<Rightarrow> dotenv_lines uc (n + 1) ls (mput k v values))"

definition parseDotEnv :: "Unicode \<Rightarrow> string \<times> bool \<Rightarrow> err + (string, string) gomap" where
  "parseDotEnv uc reader =
     (let (content, readable) = reader; (ls, tooLong) = scanLines content
      in case dotenv_lines uc 1 ls [] of
           Inl e \<Rightarrow> Inl e
         | Inr values \<Rightarrow>
             if tooLong then Inl (ErrText ''bufio.Scanner: token too long'')
             else if \<not> readable then Inl (ErrText ''read error'')
             else Inr values)"

section \<open>Finding the file\<close>

definition explicitEnvFileVariable :: string where
  "explicitEnvFileVariable = ''FERVENTIO_ENV_FILE''"

definition getenv :: "OS \<Rightarrow> string \<Rightarrow> string" where
  "getenv os name = (case os_env os name of None \<Rightarrow> '''' | Some v \<Rightarrow> v)"

fun try_candidates :: "OS \<Rightarrow> string list \<Rightarrow> string list \<Rightarrow> err + string \<times> bool" where
  "try_candidates os seen [] = Inr ('''', False)"
| "try_candidates os seen (candidate # cs) = (case absPath os candidate of
       None \<Rightarrow> try_candidates os seen cs
     | Some absolute \<Rightarrow>
         if absolute \<in> set seen then try_candidates os seen cs
         else case os_stat os absolute of
                NotExist \<Rightarrow> try_candidates os (absolute # seen) cs
              | StatError \<Rightarrow> Inl (ErrText ''inspect dotenv candidate'')
              | Regular \<Rightarrow> Inr (absolute, False)
              | NotRegular \<Rightarrow> try_candidates os (absolute # seen) cs)"

definition dotenv_candidates :: "OS \<Rightarrow> string \<Rightarrow> string list" where
  "dotenv_candidates os workingDirectory =
     [joinPath [workingDirectory, ''.env''], joinPath [workingDirectory, ''server'', ''.env''],
      joinPath [workingDirectory, ''..'', ''.env''], ''/app/.env'', ''/run/secrets/ferventio.env''] @
     (case os_exe os of None \<Rightarrow> [] | Some executable \<Rightarrow> [joinPath [dirPath executable, ''.env'']])"

definition resolveDotEnvPath :: "OS \<Rightarrow> err + string \<times> bool" where
  "resolveDotEnvPath os =
     (let configured = trimSpace (getenv os explicitEnvFileVariable)
      in if configured \<noteq> '''' then
           (case absPath os configured of
              None \<Rightarrow> Inl (ErrText ''resolve FERVENTIO_ENV_FILE'')
            | Some absolute \<Rightarrow>
                (case os_stat os absolute of
                   Regular \<Rightarrow> Inr (absolute, True)
                 | NotRegular \<Rightarrow> Inl (ErrText ''FERVENTIO_ENV_FILE must point to a regular file'')
                 | _ \<Rightarrow> Inl (ErrText ''FERVENTIO_ENV_FILE points to unavailable file'')))
         else case os_wd os of
                None \<Rightarrow> Inl (ErrText ''resolve working directory'')
              | Some workingDirectory \<Rightarrow> try_candidates os [] (dotenv_candidates os workingDirectory))"

record configSource =
  cs_envFilePath :: string
  cs_fileValues :: "(string, string) gomap"

definition loadConfigSource :: "Unicode \<Rightarrow> OS \<Rightarrow> err + configSource" where
  "loadConfigSource uc os = (case resolveDotEnvPath os of
       Inl e \<Rightarrow> Inl e
     | Inr (path, explicit) \<Rightarrow>
         (let source = \<lparr> cs_envFilePath = '''', cs_fileValues = [] \<rparr>
          in if path = '''' then Inr source
             else case os_open os path of
                    Inl OpenNotExist \<Rightarrow> if \<not> explicit then Inr source else Inl (ErrText ''open dotenv file'')
                  | Inl OpenFailed \<Rightarrow> Inl (ErrText ''open dotenv file'')
                  | Inr reader \<Rightarrow>
                      (case parseDotEnv uc reader of
                         Inl e \<Rightarrow> Inl e
                       | Inr values \<Rightarrow> Inr (source\<lparr> cs_envFilePath := path, cs_fileValues := values \<rparr>))))"

section \<open>Reading values\<close>

definition cs_value :: "OS \<Rightarrow> configSource \<Rightarrow> string \<Rightarrow> string" where
  "cs_value os s name =
     (let file = (case mget (cs_fileValues s) name of None \<Rightarrow> '''' | Some v \<Rightarrow> v)
      in case os_env os name of
           Some value \<Rightarrow> if trimSpace value \<noteq> '''' then value else file
         | None \<Rightarrow> file)"

definition cs_valueOr :: "OS \<Rightarrow> configSource \<Rightarrow> string \<Rightarrow> string \<Rightarrow> string" where
  "cs_valueOr os s name fallback =
     (let value = trimSpace (cs_value os s name) in if value \<noteq> '''' then value else fallback)"

text \<open>A duration: in Go's notation, or a number of seconds; the product is a 64-bit one.\<close>

definition read_duration :: "string \<Rightarrow> duration option" where
  "read_duration value =
     (case parseDuration value of
        Some parsed \<Rightarrow> if parsed > 0 then Some parsed else
          (case atoi value of Some n \<Rightarrow> if n > 0 then Some (wrap64 (n * second)) else None | None \<Rightarrow> None)
      | None \<Rightarrow>
          (case atoi value of Some n \<Rightarrow> if n > 0 then Some (wrap64 (n * second)) else None | None \<Rightarrow> None))"

definition cs_duration :: "OS \<Rightarrow> configSource \<Rightarrow> string \<Rightarrow> duration \<Rightarrow> duration" where
  "cs_duration os s name fallback =
     (let value = trimSpace (cs_value os s name)
      in if value = '''' then fallback
         else case read_duration value of Some d \<Rightarrow> d | None \<Rightarrow> fallback)"

definition cs_positiveInt :: "OS \<Rightarrow> configSource \<Rightarrow> string \<Rightarrow> int \<Rightarrow> err + int" where
  "cs_positiveInt os s name fallback =
     (let value = trimSpace (cs_value os s name)
      in if value = '''' then Inr fallback
         else case atoi value of
                None \<Rightarrow> Inl (ErrText (name @ '' must be a positive integer''))
              | Some parsed \<Rightarrow> if parsed \<le> 0 then Inl (ErrText (name @ '' must be a positive integer'')) else Inr parsed)"

definition cs_nonNegativeInt :: "OS \<Rightarrow> configSource \<Rightarrow> string \<Rightarrow> int \<Rightarrow> err + int" where
  "cs_nonNegativeInt os s name fallback =
     (let value = trimSpace (cs_value os s name)
      in if value = '''' then Inr fallback
         else case atoi value of
                None \<Rightarrow> Inl (ErrText (name @ '' must be a non-negative integer''))
              | Some parsed \<Rightarrow> if parsed < 0 then Inl (ErrText (name @ '' must be a non-negative integer'')) else Inr parsed)"

definition cs_boolean :: "OS \<Rightarrow> configSource \<Rightarrow> string \<Rightarrow> bool \<Rightarrow> err + bool" where
  "cs_boolean os s name fallback =
     (let value = trimSpace (cs_value os s name)
      in if value = '''' then Inr fallback
         else case parseBool value of
                None \<Rightarrow> Inl (ErrText (name @ '' must be true or false''))
              | Some parsed \<Rightarrow> Inr parsed)"

definition cs_positiveDuration :: "OS \<Rightarrow> configSource \<Rightarrow> string \<Rightarrow> duration \<Rightarrow> err + duration" where
  "cs_positiveDuration os s name fallback =
     (let value = trimSpace (cs_value os s name)
      in if value = '''' then Inr fallback
         else case read_duration value of
                Some d \<Rightarrow> Inr d
              | None \<Rightarrow> Inl (ErrText (name @ '' must be a positive duration'')))"

section \<open>Writing a dotenv file\<close>

text \<open>The reference writer: every value in double quotes, with each byte that is not a plain
  printable one as a hexadecimal escape.\<close>

definition hexDigit :: "nat \<Rightarrow> char" where
  "hexDigit n = char_of (if n < 10 then 48 + n else 87 + n)"

definition plain_byte :: "char \<Rightarrow> bool" where
  "plain_byte c \<longleftrightarrow> in_range 0x20 0x7E (of_char c) \<and> c \<noteq> CHR 0x22 \<and> c \<noteq> CHR 0x5C"

definition quoteByte :: "char \<Rightarrow> string" where
  "quoteByte c = (if plain_byte c then [c]
     else [CHR 0x5C, CHR ''x'', hexDigit (of_char c div 16), hexDigit (of_char c mod 16)])"

definition quoteBytes :: "string \<Rightarrow> string" where
  "quoteBytes v = concat (map quoteByte v)"

definition dotenv_entry :: "string \<times> string \<Rightarrow> string" where
  "dotenv_entry kv = fst kv @ CHR ''='' # CHR 0x22 # quoteBytes (snd kv) @ [CHR 0x22]"

definition dotenv_file :: "(string \<times> string) list \<Rightarrow> string" where
  "dotenv_file kvs = concat (map (\<lambda>kv. dotenv_entry kv @ [CHR 0x0A]) kvs)"

definition name_char :: "char \<Rightarrow> bool" where
  "name_char c \<longleftrightarrow> (let n = of_char c :: nat in in_range 48 57 n \<or> in_range 65 90 n \<or> in_range 97 122 n \<or> n = 95)"

definition name_ok :: "string \<Rightarrow> bool" where
  "name_ok k \<longleftrightarrow> k \<noteq> '''' \<and> list_all name_char k \<and> digit_val (hd k) = None"

section \<open>Lemmas\<close>

lemma hexDigit_unhex: "n < 16 \<Longrightarrow> unhex (hexDigit n) = Some n"
  by (auto simp: unhex_def hexDigit_def Let_def in_range_def)

lemma of_char_hexDigit: "n < 16 \<Longrightarrow> of_char (hexDigit n) = (if n < 10 then 48 + n else 87 + n)"
  by (simp add: hexDigit_def)

lemma hexDigit_plain: "n < 16 \<Longrightarrow> plain_byte (hexDigit n)"
  using of_char_hexDigit [of n] by (auto simp: plain_byte_def in_range_def split: if_splits)

lemma high_digit: "of_char c div 16 < (16 :: nat)"
  by (rule less_mult_imp_div_less) simp

lemma hex_digits_plain: "plain_byte (hexDigit (of_char c div 16))" "plain_byte (hexDigit (of_char c mod 16))"
  by (auto intro!: hexDigit_plain high_digit)

lemma quoteByte_plain: "c \<in> set (quoteByte d) \<Longrightarrow> plain_byte c \<or> c = CHR 0x5C"
  using hex_digits_plain [of d] by (auto simp: quoteByte_def plain_byte_def in_range_def split: if_splits)

lemma closing_quoteByte: "closing_from i False (quoteByte c @ s) = closing_from (i + length (quoteByte c)) False s"
  using hex_digits_plain [of c] by (auto simp: quoteByte_def plain_byte_def)

lemma closing_quoted: "closing_from i False (quoteBytes v @ CHR 0x22 # s) = Some (i + length (quoteBytes v))"
proof (induction v arbitrary: i)
  case Nil
  show ?case by (simp add: quoteBytes_def)
next
  case (Cons c v)
  thus ?case by (simp add: quoteBytes_def closing_quoteByte add.assoc)
qed

lemma unquoteChar_quoteByte: "unquoteChar (quoteByte c @ s) = Some ([c], s)"
proof (cases "plain_byte c")
  case True
  thus ?thesis by (simp add: quoteByte_def unquoteChar_def plain_byte_def in_range_def)
next
  case False
  have "unhex (hexDigit (of_char c div 16)) = Some (of_char c div 16)"
    "unhex (hexDigit (of_char c mod 16)) = Some (of_char c mod 16)"
    by (auto intro!: hexDigit_unhex high_digit)
  thus ?thesis using False
    by (simp add: quoteByte_def unquoteChar_def unquote_escape_def simple_escapes_def unquote_hex_def)
qed

lemma quoteByte_hd: "quoteByte c = b # bs \<Longrightarrow> b \<noteq> CHR 0x22 \<and> b \<noteq> CHR 0x0A"
  by (auto simp: quoteByte_def plain_byte_def in_range_def split: if_splits)

lemma unquote_quoted: "unquote_from buf (quoteBytes v @ [CHR 0x22]) = Some (buf @ v)"
proof (induction v arbitrary: buf)
  case Nil
  show ?case by (subst unquote_from.simps) (simp add: quoteBytes_def)
next
  case (Cons c v)
  obtain b bs where b: "quoteByte c = b # bs" by (cases "quoteByte c") (auto simp: quoteByte_def split: if_splits)
  have "unquoteChar (b # bs @ quoteBytes v @ [CHR 0x22]) = Some ([c], quoteBytes v @ [CHR 0x22])"
    using unquoteChar_quoteByte [of c "quoteBytes v @ [CHR 0x22]"] b by simp
  hence "unquote_from buf (quoteBytes (c # v) @ [CHR 0x22]) = unquote_from (buf @ [c]) (quoteBytes v @ [CHR 0x22])"
    using quoteByte_hd [OF b] b by (subst unquote_from.simps) (simp add: quoteBytes_def)
  thus ?case using Cons by simp
qed

lemma parse_quoted: "parseDotEnvValue (CHR 0x22 # quoteBytes v @ [CHR 0x22]) = Inr v"
  using closing_quoted [of 1 v "[]"] unquote_quoted [of "[]" v]
  by (simp add: parseDotEnvValue_def findClosingDoubleQuote_def validateDotEnvTrailing_def unquote_def hasPrefix_def)

lemma name_char_props: "name_char c \<Longrightarrow> graphic c \<and> c \<noteq> CHR ''='' \<and> c \<noteq> CHR '' '' \<and> c \<noteq> CHR ''#'' \<and> c \<noteq> CHR 0x0A
    \<and> of_char c < (0x80 :: nat)"
  by (auto simp: name_char_def graphic_def Let_def in_range_def)

lemma name_first: "name_ok k \<Longrightarrow> k \<noteq> [] \<and> name_char (hd k) \<and> name_char (last k)"
  by (auto simp: name_ok_def list_all_iff)

lemma name_valid: "name_ok k \<Longrightarrow> validDotEnvKey uc k"
proof -
  assume k: "name_ok k"
  then obtain c cs where c: "k = c # cs" by (cases k) (auto simp: name_ok_def)
  have r: "runes k = map of_char k"
    by (rule runes_ascii) (use k name_char_props in \<open>force simp: name_ok_def list_all_iff\<close>)
  have "of_char d = (95 :: nat) \<or> isLetter uc (of_char d) \<or> isDigitRune uc (of_char d)" if "name_char d" for d
    using that by (auto simp: name_char_def isLetter_def isDigitRune_def Let_def in_range_def)
  moreover have "of_char c = (95 :: nat) \<or> isLetter uc (of_char c)"
    using k c by (auto simp: name_ok_def name_char_def isLetter_def digit_val_def Let_def in_range_def split: if_splits)
  ultimately show ?thesis using k r [unfolded c] by (auto simp: validDotEnvKey_def c name_ok_def list_all_iff)
qed

lemma no_prefix_export:
  assumes "CHR '' '' \<notin> set k"
  shows "\<not> starts_with ''export '' (k @ CHR ''='' # s)"
proof
  assume "starts_with ''export '' (k @ CHR ''='' # s)"
  then obtain r where r: "k @ CHR ''='' # s = ''export '' @ r" by (auto simp: starts_with_prefix prefix_def)
  hence t: "take 7 (k @ CHR ''='' # s) = ''export ''" by simp
  show False
  proof (cases "length k < 7")
    case True
    hence "CHR ''='' \<in> set (take 7 (k @ CHR ''='' # s))" by (auto simp: take_Cons' )
    thus False unfolding t by simp
  next
    case False
    hence "set ''export '' \<subseteq> set k" using t set_take_subset [of 7 k] by simp
    thus False using assms by simp
  qed
qed

lemma dotenv_line_entry:
  assumes "name_ok k"
  shows "dotenv_line uc n (dotenv_entry (k, v)) = Inr (Some (k, v))"
proof -
  let ?q = "CHR 0x22 # quoteBytes v @ [CHR 0x22]"
  let ?l = "k @ CHR ''='' # ?q"
  obtain c cs where c: "k = c # cs" using assms by (cases k) (auto simp: name_ok_def)
  have nc: "name_char c" "list_all name_char k" using assms c by (auto simp: name_ok_def)
  have free: "CHR ''='' \<notin> set k" "CHR '' '' \<notin> set k"
    using nc(2) name_char_props [of "CHR ''=''"] name_char_props [of "CHR '' ''"] unfolding list_all_iff by blast+
  have g: "graphic (CHR 0x22)" by (simp add: graphic_def in_range_def)
  have gk: "graphic (hd k)" "graphic (last k)" "k \<noteq> []" using name_first [OF assms] name_char_props by simp_all
  have tl: "trimSpace ?l = ?l" by (rule trimSpace_id) (simp_all add: gk g)
  have tk: "trimSpace k = k" by (rule trimSpace_id) (simp_all add: gk)
  have tq: "trimSpace ?q = ?q" by (rule trimSpace_id) (simp_all add: g)
  have "of_char c < (0x80 :: nat)" using name_char_props [OF nc(1)] by simp
  hence "CHR 0xEF \<noteq> c" by (cases "CHR 0xEF = c") (drule sym, simp, simp)
  hence bom: "trimPrefix ?l byte_order_mark = ?l" by (simp add: trimPrefix_def hasPrefix_def byte_order_mark_def c)
  have "takeWhile (\<lambda>d. d \<noteq> CHR ''='') k = k" using free(1) by (auto simp: takeWhile_eq_all_conv)
  hence ix: "indexByte ?l (CHR ''='') = Some (length k)" using free(1) by (simp add: indexByte_def takeWhile_tail)
  have hash: "\<not> hasPrefix ?l ''#''" using name_char_props [OF nc(1)] by (auto simp: hasPrefix_def c)
  have ex: "\<not> hasPrefix ?l ''export ''" unfolding hasPrefix_def by (rule no_prefix_export [OF free(2)])
  have nz: "?l \<noteq> ''''" "length k \<noteq> 0" using c by simp_all
  have "take (length k) ?l = k" "drop (length k + 1) ?l = ?q" by simp_all
  thus ?thesis unfolding dotenv_entry_def fst_conv snd_conv dotenv_line_def bom if_cancel Let_def tl
    by (simp only: nz hash ex ix tk name_valid [OF assms] tq parse_quoted if_False if_True option.case sum.case
        simp_thms)
qed

lemma quoteBytes_free: "c \<in> set (quoteBytes v) \<Longrightarrow> c \<noteq> CHR 0x0A \<and> c \<noteq> CHR 0x0D"
  using quoteByte_plain [of c] by (force simp: quoteBytes_def plain_byte_def in_range_def)

lemma entry_free: "name_ok k \<Longrightarrow> CHR 0x0A \<notin> set (dotenv_entry (k, v))"
  using quoteBytes_free name_char_props by (force simp: dotenv_entry_def name_ok_def list_all_iff)

lemma split_file: "list_all (\<lambda>kv. name_ok (fst kv)) kvs \<Longrightarrow>
    splitChar (CHR 0x0A) (dotenv_file kvs) = map dotenv_entry kvs @ [[]]"
proof (induction kvs)
  case (Cons kv kvs)
  obtain k v where kv: "kv = (k, v)" by (cases kv)
  have "CHR 0x0A \<notin> set (dotenv_entry kv)" using Cons(2) entry_free kv by simp
  thus ?case using Cons splitChar_append [of "CHR 0x0A" "dotenv_entry kv" "dotenv_file kvs"]
    by (simp add: dotenv_file_def)
qed (simp add: dotenv_file_def)

lemma dotenv_lines_entries:
  "list_all (\<lambda>kv. name_ok (fst kv)) kvs \<Longrightarrow>
     dotenv_lines uc n (map dotenv_entry kvs) m = Inr (foldl (\<lambda>m (k, v). mput k v m) m kvs)"
  by (induction kvs arbitrary: n m) (auto simp: dotenv_line_entry)

lemma foldl_mput: "mget (foldl (\<lambda>m (k, v). mput k v m) m kvs) k =
    (case map_of (rev kvs) k of Some v \<Rightarrow> Some v | None \<Rightarrow> mget m k)"
  by (induction kvs arbitrary: m) (auto simp: map_add_def split: option.splits)

text \<open>C26: A dotenv file can carry any value. For variable names of ASCII letters, digits and
  underscores and values of arbitrary bytes, the file that writes each value in double quotes
  with escapes is read back without error as exactly those bindings, a later one of the same
  name replacing an earlier one, whatever the Unicode tables, as long as each line fits the
  scanner's buffer.\<close>

theorem dotenv_roundtrip:
  assumes "list_all (\<lambda>(k, v). name_ok k \<and> length (dotenv_entry (k, v)) < 1048576) kvs"
  shows "\<exists>values. parseDotEnv uc (dotenv_file kvs, True) = Inr values \<and>
     (\<forall>k. mget values k = map_of (rev kvs) k)"
proof -
  have n: "list_all (\<lambda>kv. name_ok (fst kv)) kvs" using assms by (auto simp: list_all_iff)
  have len: "takeWhile (\<lambda>l. length l < maxTokenSize) (map dotenv_entry kvs) = map dotenv_entry kvs"
    using assms by (auto simp: takeWhile_eq_all_conv list_all_iff maxTokenSize_def)
  have cr: "map (dropCR \<circ> dotenv_entry) kvs = map dotenv_entry kvs"
    by (simp add: dropCR_def dotenv_entry_def)
  have "scanLines (dotenv_file kvs) = (map dotenv_entry kvs, False)"
    by (simp add: scanLines_def split_file [OF n] Let_def len cr)
  thus ?thesis using dotenv_lines_entries [OF n, of uc 1 "[]"]
    by (simp add: parseDotEnv_def foldl_mput split: option.splits)
qed

theorem dotenv_roundtrip_witness:
  "\<exists>values. parseDotEnv ascii_tables (''A=\"x\"'' @ [CHR 0x0A], True) = Inr values \<and>
     mget values ''A'' = Some ''x''"
  using dotenv_roundtrip [of "[(''A'', ''x'')]" ascii_tables]
  by (auto simp: dotenv_file_def dotenv_entry_def quoteBytes_def quoteByte_def plain_byte_def in_range_def
      name_ok_def name_char_def digit_val_def)

section \<open>Where the readers go wrong\<close>



end
