(* ===== verification/Go_Netip.thy ===== *)
theory Go_Netip
  imports Go_Strings
begin

text \<open>
  IP addresses and prefixes as in Go's \<^verbatim>\<open>net/netip\<close>: parsing, printing, the classes of
  addresses and the containment of an address in a prefix. An address is a number of 32 or 128
  bits, an IPv6 one with its zone; the invalid \<^verbatim>\<open>Addr{}\<close> is \<^term>\<open>None\<close>.
\<close>

section \<open>Addresses\<close>

datatype Addr = V4 nat | V6 nat string

definition addr_ok :: "Addr \<Rightarrow> bool" where
  "addr_ok a = (case a of V4 n \<Rightarrow> n < 2 ^ 32 | V6 n z \<Rightarrow> n < 2 ^ 128)"

definition zone_of :: "Addr \<Rightarrow> string" where
  "zone_of a = (case a of V4 _ \<Rightarrow> '''' | V6 _ z \<Rightarrow> z)"

definition is4 :: "Addr \<Rightarrow> bool" where
  "is4 a = (case a of V4 _ \<Rightarrow> True | V6 _ _ \<Rightarrow> False)"

text \<open>An IPv4 address mapped into IPv6 becomes the IPv4 address.\<close>

definition unmap :: "Addr \<Rightarrow> Addr" where
  "unmap a = (case a of V4 n \<Rightarrow> V4 n
     | V6 n z \<Rightarrow> if n div 2 ^ 32 = 0xFFFF then V4 (n mod 2 ^ 32) else V6 n z)"

section \<open>Parsing\<close>

text \<open>One field of a dotted address: one to three digits, no leading zero, at most 255.\<close>

definition parse_octet :: "string \<Rightarrow> nat option" where
  "parse_octet s =
     (if s = [] \<or> (length s > 1 \<and> hd s = CHR ''0'') then None
      else case parse_digits 0 s of None \<Rightarrow> None | Some n \<Rightarrow> if n \<le> 255 then Some n else None)"

definition parseIPv4 :: "string \<Rightarrow> nat option" where
  "parseIPv4 s = (case map parse_octet (splitChar CHR ''.'' s) of
       [Some a, Some b, Some c, Some d] \<Rightarrow> Some (((a * 256 + b) * 256 + c) * 256 + d)
     | _ \<Rightarrow> None)"

definition hex_val :: "char \<Rightarrow> nat option" where
  "hex_val c = (let n = of_char c in
     if in_range 48 57 n then Some (n - 48)
     else if in_range 97 102 n then Some (n - 87)
     else if in_range 65 70 n then Some (n - 55) else None)"

fun hex_number :: "nat \<Rightarrow> string \<Rightarrow> nat" where
  "hex_number acc [] = acc"
| "hex_number acc (c # s) = hex_number (acc * 16 + (case hex_val c of None \<Rightarrow> 0 | Some d \<Rightarrow> d)) s"

text \<open>The end of the IPv6 loop: nothing may be left, and an ellipsis fills up the eight
  groups.\<close>

definition finish6 :: "nat list \<Rightarrow> nat option \<Rightarrow> string \<Rightarrow> nat list option" where
  "finish6 gs ellipsis s =
     (if s \<noteq> [] then None
      else if length gs < 8 then
        (case ellipsis of None \<Rightarrow> None
         | Some e \<Rightarrow> Some (take e gs @ replicate (8 - length gs) 0 @ drop e gs))
      else if ellipsis \<noteq> None then None else Some gs)"

function parse6 :: "nat list \<Rightarrow> nat option \<Rightarrow> string \<Rightarrow> nat list option" where
  "parse6 gs ellipsis s =
     (if length gs \<ge> 8 then finish6 gs ellipsis s
      else
        (let hx = takeWhile (\<lambda>c. hex_val c \<noteq> None) s; rest = drop (length hx) s
         in if length hx > 4 \<or> hx = [] then None
            else case rest of
              [] \<Rightarrow> finish6 (gs @ [hex_number 0 hx]) ellipsis []
            | c # s1 \<Rightarrow>
                if c = CHR ''.'' then
                  (if (ellipsis = None \<and> length gs \<noteq> 6) \<or> length gs + 2 > 8 then None
                   else case parseIPv4 s of None \<Rightarrow> None
                        | Some n \<Rightarrow> finish6 (gs @ [n div 65536, n mod 65536]) ellipsis [])
                else if c \<noteq> CHR '':'' then None
                else case s1 of
                  [] \<Rightarrow> None
                | d # s2 \<Rightarrow>
                    if d = CHR '':'' then
                      (if ellipsis \<noteq> None then None
                       else if s2 = [] then finish6 (gs @ [hex_number 0 hx]) (Some (length gs + 1)) []
                       else parse6 (gs @ [hex_number 0 hx]) (Some (length gs + 1)) s2)
                    else parse6 (gs @ [hex_number 0 hx]) ellipsis s1))"
  by pat_completeness auto

termination parse6
  by (relation "measure (\<lambda>(gs, _, _). 8 - length gs)") auto

declare parse6.simps [simp del]

definition groups_value :: "nat list \<Rightarrow> nat" where
  "groups_value gs = foldl (\<lambda>n g. n * 65536 + g) 0 gs"

definition parseIPv6 :: "string \<Rightarrow> Addr option" where
  "parseIPv6 t =
     (let s = takeWhile (\<lambda>c. c \<noteq> CHR ''%'') t;
          zone = (case indexByte t CHR ''%'' of None \<Rightarrow> None | Some i \<Rightarrow> Some (drop (i + 1) t))
      in if zone = Some '''' then None
         else let z = (case zone of None \<Rightarrow> '''' | Some z \<Rightarrow> z);
                  gs = (if hasPrefix s ''::'' then
                          (if drop 2 s = [] then Some (replicate 8 0) else parse6 [] (Some 0) (drop 2 s))
                        else parse6 [] None s)
              in map_option (\<lambda>gs. V6 (groups_value gs) z) gs)"

text \<open>The first of the three characters decides which parser is asked.\<close>

definition parseAddr :: "string \<Rightarrow> Addr option" where
  "parseAddr s = (case find (\<lambda>c. c = CHR ''.'' \<or> c = CHR '':'' \<or> c = CHR ''%'') s of
       None \<Rightarrow> None
     | Some c \<Rightarrow> if c = CHR ''.'' then map_option V4 (parseIPv4 s)
                 else if c = CHR '':'' then parseIPv6 s else None)"

section \<open>Printing\<close>

definition dotted :: "nat \<Rightarrow> string" where
  "dotted n = joinStrings ''.'' (map digits_of
     [n div 16777216, n div 65536 mod 256, n div 256 mod 256, n mod 256])"

definition groups_of :: "nat \<Rightarrow> nat list" where
  "groups_of n = map (\<lambda>i. n div 65536 ^ (7 - i) mod 65536) [0..<8]"

definition hex_digit :: "nat \<Rightarrow> char" where
  "hex_digit n = (if n < 10 then char_of (48 + n) else char_of (87 + n))"

fun hex_of :: "nat \<Rightarrow> string" where
  "hex_of n = (if n < 16 then [hex_digit n] else hex_of (n div 16) @ [hex_digit (n mod 16)])"

declare hex_of.simps [simp del]

text \<open>The first longest run of at least two zero groups.\<close>

definition zero_run :: "nat list \<Rightarrow> nat \<times> nat" where
  "zero_run gs = foldl (\<lambda>(s, e) i. let l = length (takeWhile (\<lambda>g. g = 0) (drop i gs))
     in if l \<ge> 2 \<and> l > e - s then (i, i + l) else (s, e)) (255, 255) [0..<8]"

definition addr_string :: "Addr \<Rightarrow> string" where
  "addr_string a = (case a of
       V4 n \<Rightarrow> dotted n
     | V6 n z \<Rightarrow>
         (if n div 2 ^ 32 = 0xFFFF then ''::ffff:'' @ dotted (n mod 2 ^ 32)
          else let gs = groups_of n; (s, e) = zero_run gs
               in if s = 255 then joinStrings '':'' (map hex_of gs)
                  else joinStrings '':'' (map hex_of (take s gs)) @ ''::'' @
                       joinStrings '':'' (map hex_of (drop e gs)))
         @ (if z = '''' then '''' else CHR ''%'' # z))"

section \<open>Prefixes\<close>

record Prefix =
  pf_addr :: Addr
  pf_bits :: nat

definition high_bits :: "nat \<Rightarrow> nat \<Rightarrow> nat \<Rightarrow> nat" where
  "high_bits w b n = n div 2 ^ (w - b)"

text \<open>An address with a zone, or of the other family, is in no prefix.\<close>

definition prefix_contains :: "Prefix \<Rightarrow> Addr \<Rightarrow> bool" where
  "prefix_contains p a = (case (pf_addr p, a) of
       (V4 m, V4 n) \<Rightarrow> high_bits 32 (pf_bits p) m = high_bits 32 (pf_bits p) n
     | (V6 m _, V6 n z) \<Rightarrow> z = '''' \<and> high_bits 128 (pf_bits p) m = high_bits 128 (pf_bits p) n
     | _ \<Rightarrow> False)"

definition masked :: "Prefix \<Rightarrow> Prefix" where
  "masked p = p\<lparr> pf_addr := (case pf_addr p of
       V4 n \<Rightarrow> V4 (high_bits 32 (pf_bits p) n * 2 ^ (32 - pf_bits p))
     | V6 n z \<Rightarrow> V6 (high_bits 128 (pf_bits p) n * 2 ^ (128 - pf_bits p)) z) \<rparr>"

definition parse_bits :: "string \<Rightarrow> nat \<Rightarrow> nat option" where
  "parse_bits s maximum =
     (if length s > 1 \<and> \<not> in_range 49 57 (of_char (hd s)) then None
      else case atoi s of None \<Rightarrow> None
           | Some i \<Rightarrow> if 0 \<le> i \<and> i \<le> int maximum then Some (nat i) else None)"

definition parsePrefix :: "string \<Rightarrow> Prefix option" where
  "parsePrefix s =
     (let r = rev s; bits = rev (takeWhile (\<lambda>c. c \<noteq> CHR ''/'') r)
      in if CHR ''/'' \<notin> set s then None
         else case parseAddr (rev (drop (length bits + 1) r)) of
                None \<Rightarrow> None
              | Some a \<Rightarrow>
                  if zone_of a \<noteq> '''' then None
                  else map_option (\<lambda>b. \<lparr> pf_addr = a, pf_bits = b \<rparr>)
                         (parse_bits bits (if is4 a then 32 else 128)))"

definition prefix_string :: "Prefix \<Rightarrow> string" where
  "prefix_string p = addr_string (pf_addr p) @ ''/'' @ digits_of (pf_bits p)"

section \<open>Classes of addresses\<close>

definition isLoopback :: "Addr \<Rightarrow> bool" where
  "isLoopback a = (case a of V4 n \<Rightarrow> n div 2 ^ 24 = 127 | V6 n z \<Rightarrow> n = 1)"

definition isMulticast :: "Addr \<Rightarrow> bool" where
  "isMulticast a = (case a of V4 n \<Rightarrow> n div 2 ^ 28 = 0xE | V6 n z \<Rightarrow> n div 2 ^ 120 = 0xFF)"

definition isLinkLocalUnicast :: "Addr \<Rightarrow> bool" where
  "isLinkLocalUnicast a = (case a of V4 n \<Rightarrow> n div 2 ^ 16 = 169 * 256 + 254
     | V6 n z \<Rightarrow> n div 2 ^ 118 = 0xFE80 div 64)"

definition isUnspecified :: "Addr \<Rightarrow> bool" where
  "isUnspecified a \<longleftrightarrow> a = V4 0 \<or> a = V6 0 ''''"

definition isPrivate :: "Addr \<Rightarrow> bool" where
  "isPrivate a = (case a of
       V4 n \<Rightarrow> n div 2 ^ 24 = 10 \<or> n div 2 ^ 20 = 172 * 16 + 1 \<or> n div 2 ^ 16 = 192 * 256 + 168
     | V6 n z \<Rightarrow> n div 2 ^ 121 = 0xFC div 2)"

definition isGlobalUnicast :: "Addr \<Rightarrow> bool" where
  "isGlobalUnicast a \<longleftrightarrow> a \<noteq> V4 0 \<and> a \<noteq> V4 (2 ^ 32 - 1) \<and> a \<noteq> V6 0 '''' \<and>
     \<not> isLoopback a \<and> \<not> isMulticast a \<and> \<not> isLinkLocalUnicast a"

section \<open>Lemmas\<close>

lemma parse_octet_bound: "parse_octet s = Some n \<Longrightarrow> n \<le> 255"
  by (auto simp: parse_octet_def split: if_splits option.splits)

lemma parseIPv4_bound: "parseIPv4 s = Some n \<Longrightarrow> n < 2 ^ 32"
proof -
  assume "parseIPv4 s = Some n"
  then obtain a b c d where m: "map parse_octet (splitChar CHR ''.'' s) = [Some a, Some b, Some c, Some d]"
    and n: "n = ((a * 256 + b) * 256 + c) * 256 + d"
    by (auto simp: parseIPv4_def split: list.splits option.splits)
  have "a \<le> 255" "b \<le> 255" "c \<le> 255" "d \<le> 255"
    using m parse_octet_bound by (auto simp: map_eq_Cons_conv)
  thus ?thesis using n by simp
qed

text \<open>What is printed for an IPv4 address is read back.\<close>

lemma parse_octet_digits: "n \<le> 255 \<Longrightarrow> parse_octet (digits_of n) = Some n"
proof -
  assume n: "n \<le> 255"
  have "hd (digits_of n) \<noteq> CHR ''0''" if "length (digits_of n) > 1"
    using that
  proof (induction n rule: digits_of.induct)
    case (1 n)
    show ?case
    proof (cases "n < 100")
      case True
      have "\<not> n < 10" using 1(2) by (subst (asm) digits_of.simps) (auto split: if_splits)
      hence "digits_of n = [char_of (48 + n div 10), char_of (48 + n mod 10)]"
        using True by (subst digits_of.simps) (simp add: digits_of.simps [of "n div 10"])
      moreover have "(char_of (48 + n div 10) :: char) \<noteq> CHR ''0''"
      proof
        assume "(char_of (48 + n div 10) :: char) = CHR ''0''"
        hence "(of_char (char_of (48 + n div 10) :: char) :: nat) = 48" by simp
        thus False using True \<open>\<not> n < 10\<close> by (simp add: of_char_of)
      qed
      ultimately show ?thesis by simp
    next
      case False
      hence e: "digits_of n = digits_of (n div 10) @ [char_of (48 + n mod 10)]" by (subst digits_of.simps) simp
      have "length (digits_of (n div 10)) > 1"
        using False digits_of_nonempty by (subst digits_of.simps) (simp add: Suc_lessI)
      thus ?thesis using 1(1) False e digits_of_nonempty by simp
    qed
  qed
  thus ?thesis using n digits_of_nonempty parse_digits_of [of n] by (auto simp: parse_octet_def)
qed

lemma digits_of_no_dot: "CHR ''.'' \<notin> set (digits_of n)"
  using digits_of_digit [of "CHR ''.''" n] by (auto simp: digit_val_def in_range_def)

lemma parse_dotted:
  assumes "n < 2 ^ 32"
  shows "parseIPv4 (dotted n) = Some n"
proof -
  let ?a = "n div 16777216" and ?b = "n div 65536 mod 256" and ?c = "n div 256 mod 256" and ?d = "n mod 256"
  have split: "splitChar CHR ''.'' (dotted n) = [digits_of ?a, digits_of ?b, digits_of ?c, digits_of ?d]"
    by (simp add: dotted_def splitChar_append splitChar_none digits_of_no_dot)
  have le: "?a \<le> 255" "?b \<le> 255" "?c \<le> 255" "?d \<le> 255" using assms by simp_all
  have n: "((?a * 256 + ?b) * 256 + ?c) * 256 + ?d = n"
    using mod_mult2_eq [of n 256 256] mod_mult2_eq [of n 65536 256] div_mult_mod_eq [of n 16777216] by simp
  have "parseIPv4 (dotted n) = Some (((?a * 256 + ?b) * 256 + ?c) * 256 + ?d)"
    unfolding parseIPv4_def split using le by (simp add: parse_octet_digits)
  thus ?thesis unfolding n .
qed

lemma find_after: "\<forall>c \<in> set p. \<not> P c \<Longrightarrow> P x \<Longrightarrow> find P (p @ x # r) = Some x"
  by (induction p) auto

lemma parse_addr_string4:
  assumes "n < 2 ^ 32"
  shows "parseAddr (addr_string (V4 n)) = Some (V4 n)"
proof -
  obtain rest where r: "dotted n = digits_of (n div 16777216) @ CHR ''.'' # rest" by (simp add: dotted_def)
  have "find (\<lambda>c. c = CHR ''.'' \<or> c = CHR '':'' \<or> c = CHR ''%'') (digits_of m @ CHR ''.'' # rest) = Some CHR ''.''" for m
  proof -
    have "\<forall>c \<in> set (digits_of m). \<not> (c = CHR ''.'' \<or> c = CHR '':'' \<or> c = CHR ''%'')"
      using digits_of_digit [of "CHR ''.''" m] digits_of_digit [of "CHR '':''" m] digits_of_digit [of "CHR ''%''" m]
      by (auto simp: digit_val_def in_range_def)
    thus ?thesis by (simp add: find_after)
  qed
  thus ?thesis using parse_dotted [OF assms] r by (simp add: parseAddr_def addr_string_def)
qed

lemma unmap_idem [simp]: "unmap (unmap a) = unmap a"
  by (cases a) (auto simp: unmap_def)

end
