(* ===== verification/Outbound.thy ===== *)
theory Outbound
  imports Go_Netip Domain_Model
begin

text \<open>
  The filter on outbound connections, \<^verbatim>\<open>internal/security/outbound.go\<close>: which addresses count as
  public, the check of a URL, the resolution of a host name and the dialing of its addresses.
  Parameters: \<open>urlParse\<close> is \<^verbatim>\<open>url.Parse\<close>, \<open>lookup\<close> the resolver's answer for a host name
  (\<^term>\<open>None\<close> when it fails), \<open>dial\<close> the outcome of a connection attempt to an address.
\<close>

section \<open>Public addresses\<close>

definition prefix4 :: "nat \<Rightarrow> nat \<Rightarrow> nat \<Rightarrow> nat \<Rightarrow> nat \<Rightarrow> Prefix" where
  "prefix4 a b c d bits = \<lparr> pf_addr = V4 (((a * 256 + b) * 256 + c) * 256 + d), pf_bits = bits \<rparr>"

definition prefix6 :: "nat \<Rightarrow> nat \<Rightarrow> nat \<Rightarrow> nat \<Rightarrow> Prefix" where
  "prefix6 a b c bits = \<lparr> pf_addr = V6 (((a * 65536 + b) * 65536 + c) * 2 ^ 80) '''', pf_bits = bits \<rparr>"

definition disallowedPublicEndpointPrefixes :: "Prefix list" where
  "disallowedPublicEndpointPrefixes =
    [prefix4 0 0 0 0 8, prefix4 100 64 0 0 10, prefix4 192 0 0 0 24, prefix4 192 0 2 0 24,
     prefix4 198 18 0 0 15, prefix4 198 51 100 0 24, prefix4 203 0 113 0 24, prefix4 240 0 0 0 4,
     prefix6 0x64 0xFF9B 0 96, prefix6 0x64 0xFF9B 1 48, prefix6 0x2001 0 0 32,
     prefix6 0x2001 0xDB8 0 32, prefix6 0x2002 0 0 16, prefix6 0xFEC0 0 0 10]"

definition isPublicOutboundAddr :: "Addr option \<Rightarrow> bool" where
  "isPublicOutboundAddr address = (case address of None \<Rightarrow> False
     | Some a \<Rightarrow>
         if zone_of a \<noteq> '''' \<or> \<not> isGlobalUnicast a \<or> isPrivate a \<or> isLoopback a \<or>
            isLinkLocalUnicast a \<or> isMulticast a \<or> isUnspecified a
         then False
         else \<not> (\<exists>p \<in> set disallowedPublicEndpointPrefixes. prefix_contains p a))"

section \<open>URLs\<close>

record URL =
  ur_Scheme :: string
  ur_Host :: string
  ur_User :: bool
  ur_RawQuery :: string
  ur_Fragment :: string
  ur_EscapedPath :: string
  ur_Hostname :: string

definition ValidatePublicHTTPSURL :: "(string \<Rightarrow> URL option) \<Rightarrow> string \<Rightarrow> err option" where
  "ValidatePublicHTTPSURL urlParse raw = (case urlParse (trimSpace raw) of
       None \<Rightarrow> Some (ErrText ''URL must be absolute HTTPS'')
     | Some parsed \<Rightarrow>
         if ur_Scheme parsed \<noteq> ''https'' \<or> ur_Host parsed = '''' then Some (ErrText ''URL must be absolute HTTPS'')
         else if ur_User parsed \<or> ur_Fragment parsed \<noteq> '''' then
           Some (ErrText ''URL must not contain credentials or a fragment'')
         else
           (let host = trimSpace (ur_Hostname parsed)
            in if host = '''' then Some (ErrText ''URL host is required'')
               else case parseAddr host of
                      None \<Rightarrow> None
                    | Some address \<Rightarrow>
                        if \<not> isPublicOutboundAddr (Some (unmap address))
                        then Some (ErrText ''URL host is not a public address'') else None))"

definition checkRedirect :: "(string \<Rightarrow> URL option) \<Rightarrow> string \<Rightarrow> nat \<Rightarrow> err option" where
  "checkRedirect urlParse target via =
     (if via \<ge> 3 then Some (ErrText ''too many outbound redirects'')
      else case ValidatePublicHTTPSURL urlParse target of
             None \<Rightarrow> None
           | Some e \<Rightarrow> Some (ErrText ''redirect target rejected''))"

section \<open>Resolving and dialing\<close>

fun unmap_public :: "Addr list \<Rightarrow> err + Addr list" where
  "unmap_public [] = Inr []"
| "unmap_public (a # as) =
     (if \<not> isPublicOutboundAddr (Some (unmap a))
      then Inl (ErrText ''outbound host resolved to disallowed address'')
      else case unmap_public as of Inl e \<Rightarrow> Inl e | Inr r \<Rightarrow> Inr (unmap a # r))"

definition resolvePublicOutboundAddrs :: "(string \<Rightarrow> Addr list option) \<Rightarrow> string \<Rightarrow> err + Addr list" where
  "resolvePublicOutboundAddrs lookup host =
     (let host = trimSet (trimSpace host) ''[]''
      in case parseAddr host of
           Some address \<Rightarrow>
             if \<not> isPublicOutboundAddr (Some (unmap address))
             then Inl (ErrText ''outbound address is not public'') else Inr [unmap address]
         | None \<Rightarrow>
             (case lookup host of
                None \<Rightarrow> Inl (ErrText ''resolve outbound host'')
              | Some addresses \<Rightarrow>
                  if addresses = [] then Inl (ErrText ''outbound host did not resolve'')
                  else unmap_public addresses))"

text \<open>The dialing loop. It gives the addresses it tried, in order, with its result.\<close>

fun dial_loop :: "(Addr \<Rightarrow> err + 'c) \<Rightarrow> string \<Rightarrow> Addr list \<Rightarrow> err option \<Rightarrow> Addr list \<times> (err + 'c)" where
  "dial_loop dial network [] lastErr = ([], case lastErr of
       Some e \<Rightarrow> Inl e
     | None \<Rightarrow> Inl (ErrText ''no compatible public address was resolved''))"
| "dial_loop dial network (candidate # rest) lastErr =
     (if hasSuffix network ''4'' \<and> \<not> is4 candidate then dial_loop dial network rest lastErr
      else if hasSuffix network ''6'' \<and> is4 candidate then dial_loop dial network rest lastErr
      else case dial candidate of
             Inr connection \<Rightarrow> ([candidate], Inr connection)
           | Inl e \<Rightarrow> (let (tried, r) = dial_loop dial network rest (Some e) in (candidate # tried, r)))"

definition dialContext :: "(string \<Rightarrow> Addr list option) \<Rightarrow> (Addr \<Rightarrow> err + 'c) \<Rightarrow> string \<Rightarrow> string
    \<Rightarrow> Addr list \<times> (err + 'c)" where
  "dialContext lookup dial network host = (case resolvePublicOutboundAddrs lookup host of
       Inl e \<Rightarrow> ([], Inl e)
     | Inr candidates \<Rightarrow> dial_loop dial network candidates None)"

definition minDuration :: "duration \<Rightarrow> duration \<Rightarrow> duration" where
  "minDuration left right = (if left < right then left else right)"

section \<open>Only public addresses are dialed\<close>

lemma unmap_public_all: "unmap_public as = Inr r \<Longrightarrow> a \<in> set r \<Longrightarrow> isPublicOutboundAddr (Some a) \<and> a \<in> unmap ` set as"
  by (induction as arbitrary: r) (auto split: if_splits sum.splits)

lemma resolve_public:
  "resolvePublicOutboundAddrs lookup host = Inr r \<Longrightarrow> a \<in> set r \<Longrightarrow> isPublicOutboundAddr (Some a) \<and> a \<in> range unmap"
  by (auto simp: resolvePublicOutboundAddrs_def Let_def split: option.splits if_splits dest!: unmap_public_all)

lemma unmap_ok: "addr_ok a \<Longrightarrow> addr_ok (unmap a)"
  by (auto simp: addr_ok_def unmap_def split: Addr.splits)

lemma parseAddr_ok4: "parseAddr s = Some a \<Longrightarrow> is4 (unmap a) \<Longrightarrow> addr_ok (unmap a)"
proof (cases a)
  case (V4 n)
  assume "parseAddr s = Some a"
  hence "parseIPv4 s = Some n" using V4 by (auto simp: parseAddr_def parseIPv6_def Let_def split: option.splits if_splits)
  thus ?thesis using parseIPv4_bound V4 by (simp add: addr_ok_def unmap_def)
qed (auto simp: addr_ok_def unmap_def is4_def)

lemma resolve_ok:
  assumes "\<forall>h as. lookup h = Some as \<longrightarrow> list_all addr_ok as"
    and "resolvePublicOutboundAddrs lookup host = Inr r" and "a \<in> set r"
  shows "is4 a \<longrightarrow> addr_ok a"
  using assms(2,3) assms(1) [rule_format, of "trimSet (trimSpace host) ''[]''"] parseAddr_ok4 [of "trimSet (trimSpace host) ''[]''"]
  by (auto simp: resolvePublicOutboundAddrs_def Let_def list_all_iff unmap_ok split: option.splits if_splits
      dest!: unmap_public_all)

lemma dial_loop_tried: "a \<in> set (fst (dial_loop dial network cs l)) \<Longrightarrow> a \<in> set cs"
  by (induction dial network cs l rule: dial_loop.induct) (auto split: if_splits sum.splits prod.splits)

text \<open>The addresses a server must not be made to talk to, as ranges of numbers.\<close>

definition internal4 :: "nat \<Rightarrow> bool" where
  "internal4 n \<longleftrightarrow> n div 2 ^ 24 \<in> {0, 10, 127} \<or> n div 2 ^ 22 = 100 * 4 + 1 \<or> n div 2 ^ 20 = 172 * 16 + 1 \<or>
     n div 2 ^ 16 \<in> {192 * 256 + 168, 169 * 256 + 254} \<or> 224 * 2 ^ 24 \<le> n"

definition internal6 :: "nat \<Rightarrow> bool" where
  "internal6 n \<longleftrightarrow> n \<in> {0, 1} \<or> n div 2 ^ 32 = 0xFFFF \<or> n div 2 ^ 32 = 0x64FF9B * 2 ^ 64 \<or>
     n div 2 ^ 121 = 0x7E \<or> n div 2 ^ 118 \<in> {0x3FA, 0x3FB} \<or> n div 2 ^ 120 = 0xFF \<or>
     n div 2 ^ 112 = 0x2002 \<or> n div 2 ^ 96 = 0x20010000"

lemma public_iff: "isPublicOutboundAddr (Some a) \<longleftrightarrow> zone_of a = '''' \<and> isGlobalUnicast a \<and> \<not> isPrivate a \<and>
    \<not> isLoopback a \<and> \<not> isLinkLocalUnicast a \<and> \<not> isMulticast a \<and> \<not> isUnspecified a \<and>
    (\<forall>p \<in> set disallowedPublicEndpointPrefixes. \<not> prefix_contains p a)"
  by (auto simp: isPublicOutboundAddr_def)

lemma public_not_contained: "isPublicOutboundAddr (Some a) \<Longrightarrow> p \<in> set disallowedPublicEndpointPrefixes \<Longrightarrow> \<not> prefix_contains p a"
  by (simp add: public_iff)

lemmas contained_defs = prefix_contains_def prefix4_def prefix6_def high_bits_def

lemma public4_not_internal:
  assumes "isPublicOutboundAddr (Some (V4 n))" and "n < 2 ^ 32"
  shows "\<not> internal4 n"
proof
  assume i: "internal4 n"
  note p = public_not_contained [OF assms(1)]
  have cls: "n div 2 ^ 24 \<noteq> 127" "n div 2 ^ 28 \<noteq> 0xE" "n div 2 ^ 16 \<noteq> 169 * 256 + 254" "n div 2 ^ 24 \<noteq> 10"
    "n div 2 ^ 20 \<noteq> 172 * 16 + 1" "n div 2 ^ 16 \<noteq> 192 * 256 + 168"
    using assms(1) by (simp_all add: public_iff isLoopback_def isMulticast_def isLinkLocalUnicast_def isPrivate_def)
  have "n div 2 ^ 24 \<noteq> 0" using p [of "prefix4 0 0 0 0 8"] by (simp add: disallowedPublicEndpointPrefixes_def contained_defs)
  moreover have "n div 2 ^ 22 \<noteq> 100 * 4 + 1"
    using p [of "prefix4 100 64 0 0 10"] by (simp add: disallowedPublicEndpointPrefixes_def contained_defs)
  moreover have "n div 2 ^ 28 \<noteq> 15"
    using p [of "prefix4 240 0 0 0 4"] by (simp add: disallowedPublicEndpointPrefixes_def contained_defs)
  moreover have "n div 2 ^ 28 = 14 \<or> n div 2 ^ 28 = 15" if "224 * 2 ^ 24 \<le> n"
  proof -
    have "14 \<le> n div 2 ^ 28" using that div_le_mono [of "224 * 2 ^ 24" n "2 ^ 28"] by simp
    moreover have "n div 2 ^ 28 < 16" using assms(2) by (simp add: less_mult_imp_div_less)
    ultimately show ?thesis by linarith
  qed
  ultimately show False using i cls unfolding internal4_def insert_iff empty_iff by argo
qed

lemma public6_not_internal:
  assumes "isPublicOutboundAddr (Some (V6 n z))" and "n div 2 ^ 32 \<noteq> 0xFFFF"
  shows "z = '''' \<and> \<not> internal6 n"
proof -
  note p = public_not_contained [OF assms(1)]
  have z: "z = ''''" using assms(1) by (simp add: public_iff zone_of_def)
  have "n \<noteq> 0" "n \<noteq> 1" "n div 2 ^ 121 \<noteq> 0x7E" "n div 2 ^ 118 \<noteq> 0x3FA" "n div 2 ^ 120 \<noteq> 0xFF"
    using assms(1) z
    by (simp_all add: public_iff isUnspecified_def isLoopback_def isMulticast_def isLinkLocalUnicast_def isPrivate_def)
  moreover have "n div 2 ^ 118 \<noteq> 0x3FB"
    using p [of "prefix6 0xFEC0 0 0 10"] z by (simp add: disallowedPublicEndpointPrefixes_def contained_defs)
  moreover have "n div 2 ^ 112 \<noteq> 0x2002"
    using p [of "prefix6 0x2002 0 0 16"] z by (simp add: disallowedPublicEndpointPrefixes_def contained_defs)
  moreover have "n div 2 ^ 96 \<noteq> 0x20010000"
    using p [of "prefix6 0x2001 0 0 32"] z by (simp add: disallowedPublicEndpointPrefixes_def contained_defs)
  moreover have "n div 2 ^ 32 \<noteq> 0x64FF9B * 2 ^ 64"
    using p [of "prefix6 0x64 0xFF9B 0 96"] z by (simp add: disallowedPublicEndpointPrefixes_def contained_defs)
  ultimately show ?thesis using z assms(2) unfolding internal6_def insert_iff empty_iff by argo
qed

text \<open>C22: Outbound requests to client-supplied push endpoints reach public addresses only.
  Whatever the host and whatever the resolver answers, every address the dialer tries is, for
  IPv4, outside this-network, private, shared, loopback, link-local, multicast and reserved
  ranges, and for IPv6 without zone, not an embedded IPv4 address, and outside the
  unspecified, loopback, unique-local, link-local, site-local, multicast, NAT64, 6to4 and
  Teredo ranges. If the answer holds a single address that is not public, nothing is
  dialed.\<close>

theorem outbound_dials_only_public:
  assumes "\<forall>h as. lookup h = Some as \<longrightarrow> list_all addr_ok as"
    and "dialContext lookup dial network host = (tried, r)"
  shows "(\<forall>a \<in> set tried. (case a of V4 n \<Rightarrow> \<not> internal4 n | V6 n z \<Rightarrow> z = '''' \<and> \<not> internal6 n)) \<and>
    (\<forall>as. parseAddr (trimSet (trimSpace host) ''[]'') = None \<longrightarrow>
       lookup (trimSet (trimSpace host) ''[]'') = Some as \<longrightarrow>
       (\<exists>a \<in> set as. \<not> isPublicOutboundAddr (Some (unmap a))) \<longrightarrow> tried = [])"
proof -
  have pub: "isPublicOutboundAddr (Some a) \<and> a \<in> range unmap \<and> (is4 a \<longrightarrow> addr_ok a)" if tr: "a \<in> set tried" for a
  proof -
    obtain cs where cs: "resolvePublicOutboundAddrs lookup host = Inr cs" "a \<in> set cs"
    proof (cases "resolvePublicOutboundAddrs lookup host")
      case (Inl e)
      thus ?thesis using assms(2) tr by (auto simp: dialContext_def)
    next
      case (Inr cs)
      hence "tried = fst (dial_loop dial network cs None)" using assms(2) by (simp add: dialContext_def)
      thus ?thesis using Inr dial_loop_tried [of a dial network cs None] tr that by blast
    qed
    have "is4 a \<longrightarrow> addr_ok a" using resolve_ok [OF assms(1) cs] by blast
    thus ?thesis using resolve_public [OF cs] by blast
  qed
  have "case a of V4 n \<Rightarrow> \<not> internal4 n | V6 n z \<Rightarrow> z = '''' \<and> \<not> internal6 n" if "a \<in> set tried" for a
  proof (cases a)
    case (V4 n)
    thus ?thesis using public4_not_internal [of n] pub [OF that] by (simp add: is4_def addr_ok_def)
  next
    case (V6 n z)
    have "n div 2 ^ 32 \<noteq> 0xFFFF" using pub [OF that] V6 by (auto simp: unmap_def split: Addr.splits if_splits)
    thus ?thesis using public6_not_internal [of n z] pub [OF that] V6 by simp
  qed
  moreover have "tried = []" if "parseAddr (trimSet (trimSpace host) ''[]'') = None"
      "lookup (trimSet (trimSpace host) ''[]'') = Some as" "a \<in> set as" "\<not> isPublicOutboundAddr (Some (unmap a))" for as a
  proof -
    have "\<exists>e. unmap_public as = Inl e" using that(3,4) by (induction as) (auto split: sum.splits)
    thus ?thesis using assms(2) that(1-3)
      by (auto simp: dialContext_def resolvePublicOutboundAddrs_def Let_def split: sum.splits if_splits)
  qed
  ultimately show ?thesis by blast
qed


definition demo_lookup :: "string \<Rightarrow> Addr list option" where
  "demo_lookup h = (if h = ''push'' then Some [V4 134744072] else Some [V4 134744072, V6 0xFFFF7F000001 ''''])"

lemma demo_public: "isPublicOutboundAddr (Some (V4 134744072))"
  by (simp add: public_iff zone_of_def isGlobalUnicast_def isPrivate_def isLoopback_def isLinkLocalUnicast_def
      isMulticast_def isUnspecified_def disallowedPublicEndpointPrefixes_def contained_defs)

lemma demo_hosts: "trimSet (trimSpace ''push'') ''[]'' = ''push''" "trimSet (trimSpace ''evil'') ''[]'' = ''evil''"
  "parseAddr ''push'' = None" "parseAddr ''evil'' = None"
  by code_simp+

theorem outbound_dials_only_public_witness:
  "dialContext demo_lookup (\<lambda>a. Inr a) ''tcp'' ''push'' = ([V4 134744072], Inr (V4 134744072)) \<and>
   \<not> internal4 134744072 \<and> fst (dialContext demo_lookup (\<lambda>a. Inr a) ''tcp'' ''evil'') = []"
proof -
  have ok: "\<forall>h as. demo_lookup h = Some as \<longrightarrow> list_all addr_ok as"
    by (auto simp: demo_lookup_def addr_ok_def split: if_splits)
  have p: "dialContext demo_lookup (\<lambda>a. Inr a) ''tcp'' ''push'' = ([V4 134744072], Inr (V4 134744072))"
    by (simp add: dialContext_def resolvePublicOutboundAddrs_def Let_def demo_hosts demo_lookup_def demo_public
        unmap_def hasSuffix_def)
  obtain tried r where e: "dialContext demo_lookup (\<lambda>a. Inr a) ''tcp'' ''evil'' = (tried, r)"
    by (cases "dialContext demo_lookup (\<lambda>a. Inr a) ''tcp'' ''evil''")
  have "demo_lookup ''evil'' = Some [V4 134744072, V6 0xFFFF7F000001 '''']" by (simp add: demo_lookup_def)
  moreover have "\<not> isPublicOutboundAddr (Some (unmap (V6 0xFFFF7F000001 '''')))"
    by (simp add: public_iff unmap_def isLoopback_def)
  ultimately have "tried = []"
    using outbound_dials_only_public [OF ok e] by (simp add: demo_hosts)
  thus ?thesis using outbound_dials_only_public [OF ok p] p e by simp
qed

end
