(* ===== verification/Delivery_Store.thy ===== *)
theory Delivery_Store
  imports Domain_Model
begin

text \<open>
  The in-memory delivery repository, \<^verbatim>\<open>internal/storage/memory/delivery_store.go\<close>: the queue
  of notifications per device, the inbox of EventSub messages with its deduplication memory,
  and the last known title and category per channel. An operation that changes the store
  returns the new store first. The error value a caller passes to a \<open>Mark\<dots>Failed\<close> operation is
  its text.
\<close>

definition newMemoryDeliveryStore :: DeliveryDiskState where
  "newMemoryDeliveryStore =
     \<lparr> dd_Records = [], dd_Seen = [], dd_EventSubInbox = [], dd_ChannelStates = [] \<rparr>"

definition delivery_persistLocked :: "DeliveryDiskState \<Rightarrow> err option" where
  "delivery_persistLocked s = None"

section \<open>Retry delays\<close>

definition minInt :: "int \<Rightarrow> int \<Rightarrow> int" where
  "minInt left right = (if left < right then left else right)"

definition retryDelay :: "int \<Rightarrow> duration" where
  "retryDelay attempt =
     (let attempt = (if attempt < 1 then 1 else attempt);
          seconds = 2 ^ nat (minInt (attempt - 1) 6)
      in seconds * second)"

section \<open>Trimming and cleanup\<close>

definition delivery_done :: "DeliveryRecord \<Rightarrow> bool" where
  "delivery_done r \<longleftrightarrow> dr_Status r = DeliveryStatusAcked \<or> dr_Status r = DeliveryStatusDead"

fun delete_until :: "('r \<Rightarrow> string) \<Rightarrow> nat \<Rightarrow> 'r list \<Rightarrow> (string, 'r) gomap \<Rightarrow> (string, 'r) gomap" where
  "delete_until ident limit [] m = m"
| "delete_until ident limit (r # rs) m =
     (if length m \<le> limit then m else delete_until ident limit rs (mdel (ident r) m))"

definition trimCompletedDeliveriesLocked :: "nat \<Rightarrow> DeliveryDiskState \<Rightarrow> DeliveryDiskState" where
  "trimCompletedDeliveriesLocked limit s =
     (if length (dd_Records s) \<le> limit then s
      else let records = sortSlice (\<lambda>a b. dr_CreatedAt a < dr_CreatedAt b)
                           (filter delivery_done (map snd (dd_Records s)))
           in s\<lparr> dd_Records := delete_until dr_ID limit records (dd_Records s) \<rparr>)"

definition trimDeadEventSubInboxLocked :: "nat \<Rightarrow> DeliveryDiskState \<Rightarrow> DeliveryDiskState" where
  "trimDeadEventSubInboxLocked limit s =
     (if length (dd_EventSubInbox s) \<le> limit then s
      else let records = sortSlice (\<lambda>a b. ib_ReceivedAt a < ib_ReceivedAt b)
                           (filter (\<lambda>r. ib_Status r = EventSubInboxStatusDead)
                             (map snd (dd_EventSubInbox s)))
           in s\<lparr> dd_EventSubInbox := delete_until ib_MessageID limit records (dd_EventSubInbox s) \<rparr>)"

definition cleanupSeenLocked :: "gotime \<Rightarrow> duration \<Rightarrow> DeliveryDiskState \<Rightarrow> DeliveryDiskState" where
  "cleanupSeenLocked now ttl s =
     s\<lparr> dd_Seen := mfilter (\<lambda>key timestamp. \<not> time_sub now timestamp > ttl) (dd_Seen s) \<rparr>"

text \<open>The body of the two cleanup loops: the status an entry gets, and whether it stays.\<close>

definition expire_delivery :: "gotime \<Rightarrow> DeliveryRecord \<Rightarrow> DeliveryRecord" where
  "expire_delivery now r =
     (if \<not> now < dr_ExpiresAt r \<and> dr_Status r \<noteq> DeliveryStatusAcked
      then r\<lparr> dr_Status := DeliveryStatusDead \<rparr> else r)"

definition keep_delivery :: "gotime \<Rightarrow> DeliveryRecord \<Rightarrow> bool" where
  "keep_delivery now r \<longleftrightarrow>
     \<not> (dr_Status r = DeliveryStatusAcked \<and> \<not> is_zero (dr_AckedAt r) \<and>
        time_sub now (dr_AckedAt r) > 7 * 24 * hour) \<and>
     \<not> (dr_Status r = DeliveryStatusDead \<and> time_sub now (dr_CreatedAt r) > 7 * 24 * hour)"

definition expire_inbox :: "gotime \<Rightarrow> EventSubInboxRecord \<Rightarrow> EventSubInboxRecord" where
  "expire_inbox now r =
     (if \<not> now < ib_ExpiresAt r \<and> ib_Status r \<noteq> EventSubInboxStatusDead
      then r\<lparr> ib_Status := EventSubInboxStatusDead,
              ib_LastError := ''EventSub inbox item expired before processing'' \<rparr> else r)"

definition keep_inbox :: "gotime \<Rightarrow> EventSubInboxRecord \<Rightarrow> bool" where
  "keep_inbox now r \<longleftrightarrow>
     \<not> (ib_Status r = EventSubInboxStatusDead \<and> time_sub now (ib_ReceivedAt r) > 7 * 24 * hour)"

definition cleanupLocked :: "gotime \<Rightarrow> DeliveryDiskState \<Rightarrow> DeliveryDiskState" where
  "cleanupLocked now s =
     (let s = s\<lparr> dd_Records := mfilter (\<lambda>_. keep_delivery now)
                                (mupdate (\<lambda>_. expire_delivery now) (dd_Records s)) \<rparr>;
          s = s\<lparr> dd_EventSubInbox := mfilter (\<lambda>_. keep_inbox now)
                                (mupdate (\<lambda>_. expire_inbox now) (dd_EventSubInbox s)) \<rparr>;
          s = cleanupSeenLocked now (24 * hour) s;
          s = (if length (dd_Records s) > MaxDeliveryRecords
               then trimCompletedDeliveriesLocked MaxDeliveryRecords s else s)
      in if length (dd_EventSubInbox s) > MaxEventSubInboxRecords
         then trimDeadEventSubInboxLocked MaxEventSubInboxRecords s else s)"

definition Cleanup :: "DeliveryDiskState \<Rightarrow> gotime \<Rightarrow> DeliveryDiskState \<times> err option" where
  "Cleanup s now = (let s' = cleanupLocked now s in (s', delivery_persistLocked s'))"

section \<open>The delivery queue\<close>

text \<open>The room \<^verbatim>\<open>Enqueue\<close> makes when the queue is at its capacity, and the defaults it
  fills in.\<close>

definition delivery_room :: "DeliveryDiskState \<Rightarrow> DeliveryDiskState" where
  "delivery_room s =
     (if length (dd_Records s) \<ge> MaxDeliveryRecords
      then trimCompletedDeliveriesLocked (MaxDeliveryRecords - 1) s else s)"

definition enqueue_defaults :: "gotime \<Rightarrow> DeliveryRecord \<Rightarrow> DeliveryRecord" where
  "enqueue_defaults now record =
     (let record = (if dr_Status record = ''''
                    then record\<lparr> dr_Status := DeliveryStatusPending \<rparr> else record);
          record = (if is_zero (dr_CreatedAt record)
                    then record\<lparr> dr_CreatedAt := now \<rparr> else record);
          record = (if is_zero (dr_AvailableAt record)
                    then record\<lparr> dr_AvailableAt := now \<rparr> else record)
      in if is_zero (dr_ExpiresAt record)
         then record\<lparr> dr_ExpiresAt := now + 24 * hour \<rparr> else record)"

definition Enqueue :: "DeliveryDiskState \<Rightarrow> DeliveryRecord \<Rightarrow> gotime
    \<Rightarrow> DeliveryDiskState \<times> DeliveryRecord \<times> bool \<times> err option" where
  "Enqueue s record now =
     (let s = cleanupLocked now s
      in case find (\<lambda>e. dr_InstallationID e = dr_InstallationID record \<and>
                        dr_EventID e = dr_EventID record) (map snd (dd_Records s)) of
           Some existing \<Rightarrow> (s, existing, False, None)
         | None \<Rightarrow>
             if dr_ID record = '''' \<or> dr_EventID record = '''' \<or> dr_InstallationID record = ''''
             then (s, empty_DeliveryRecord, False,
                   Some (ErrText ''delivery id, event id, and installation id are required''))
             else
               (let record = enqueue_defaults now record;
                    s = delivery_room s
                in if length (dd_Records s) \<ge> MaxDeliveryRecords
                   then (s, empty_DeliveryRecord, False, Some (ErrText ''delivery queue is full''))
                   else let s' = s\<lparr> dd_Records := mput (dr_ID record) record (dd_Records s) \<rparr>
                        in (s', record, True, delivery_persistLocked s')))"

definition ListDeliveries :: "DeliveryDiskState \<Rightarrow> int \<Rightarrow> DeliveryRecord list" where
  "ListDeliveries s limit =
     (let limit = (if limit \<le> 0 \<or> limit > 1000 then 200 else limit);
          records = sortSlice (\<lambda>a b. if dr_CreatedAt a = dr_CreatedAt b then dr_ID a > dr_ID b
                                     else dr_CreatedAt a > dr_CreatedAt b)
                      (map snd (dd_Records s))
      in take (nat limit) records)"

definition delivery_due :: "string \<Rightarrow> gotime \<Rightarrow> DeliveryRecord \<Rightarrow> bool" where
  "delivery_due installationID now r \<longleftrightarrow>
     \<not> (dr_InstallationID r \<noteq> installationID \<or> delivery_done r) \<and>
     \<not> (now < dr_AvailableAt r \<or> \<not> now < dr_ExpiresAt r)"

definition PendingForInstallation ::
  "DeliveryDiskState \<Rightarrow> string \<Rightarrow> int \<Rightarrow> gotime \<Rightarrow> DeliveryRecord list" where
  "PendingForInstallation s installationID limit now =
     (let limit = (if limit \<le> 0 then 100 else limit);
          result = sortSlice (\<lambda>a b. if dr_CreatedAt a = dr_CreatedAt b then dr_ID a < dr_ID b
                                    else dr_CreatedAt a < dr_CreatedAt b)
                     (filter (delivery_due installationID now) (map snd (dd_Records s)))
      in take (nat limit) result)"

definition MarkSent :: "DeliveryDiskState \<Rightarrow> string \<Rightarrow> gotime \<Rightarrow> DeliveryDiskState \<times> err option" where
  "MarkSent s i sentAt = (case mget (dd_Records s) i of
       None \<Rightarrow> (s, Some ErrRegistrationNotFound)
     | Some record \<Rightarrow>
         (let attempts = wrap64 (dr_AttemptCount record + 1);
              record = record\<lparr> dr_Status := DeliveryStatusSent, dr_AttemptCount := attempts,
                               dr_SentAt := sentAt, dr_LastError := '''',
                               dr_AvailableAt := sentAt + retryDelay attempts \<rparr>;
              s' = s\<lparr> dd_Records := mput i record (dd_Records s) \<rparr>
          in (s', delivery_persistLocked s')))"

definition MarkFailed ::
  "DeliveryDiskState \<Rightarrow> string \<Rightarrow> string \<Rightarrow> gotime \<Rightarrow> DeliveryDiskState \<times> err option" where
  "MarkFailed s i failure failedAt = (case mget (dd_Records s) i of
       None \<Rightarrow> (s, Some ErrRegistrationNotFound)
     | Some record \<Rightarrow>
         (let attempts = wrap64 (dr_AttemptCount record + 1);
              record = record\<lparr> dr_AttemptCount := attempts, dr_LastError := failure \<rparr>;
              record = (if attempts \<ge> 8 \<or> \<not> failedAt < dr_ExpiresAt record
                        then record\<lparr> dr_Status := DeliveryStatusDead \<rparr>
                        else record\<lparr> dr_Status := DeliveryStatusPending,
                                     dr_AvailableAt := failedAt + retryDelay attempts \<rparr>);
              s' = s\<lparr> dd_Records := mput i record (dd_Records s) \<rparr>
          in (s', delivery_persistLocked s')))"

definition ack_record :: "gotime \<Rightarrow> DeliveryRecord \<Rightarrow> DeliveryRecord" where
  "ack_record ackedAt r =
     r\<lparr> dr_Status := DeliveryStatusAcked, dr_AckedAt := ackedAt, dr_LastError := '''' \<rparr>"

definition AckThrough ::
  "DeliveryDiskState \<Rightarrow> string \<Rightarrow> string \<Rightarrow> gotime \<Rightarrow> DeliveryDiskState \<times> err option" where
  "AckThrough s installationID eventID ackedAt =
     (let target = (case find (\<lambda>r. dr_InstallationID r = installationID \<and> dr_EventID r = eventID)
                           (map snd (dd_Records s)) of
                      Some r \<Rightarrow> dr_CreatedAt r | None \<Rightarrow> 0)
      in if is_zero target then (s, Some ErrRegistrationNotFound)
         else let s' = s\<lparr> dd_Records := mupdate (\<lambda>_ r.
                     if dr_InstallationID r \<noteq> installationID \<or> dr_CreatedAt r > target then r
                     else ack_record ackedAt r) (dd_Records s) \<rparr>
              in (s', delivery_persistLocked s'))"

definition Ack ::
  "DeliveryDiskState \<Rightarrow> string \<Rightarrow> string \<Rightarrow> gotime \<Rightarrow> DeliveryDiskState \<times> err option" where
  "Ack s installationID eventID ackedAt =
     (let hit = (\<lambda>r. dr_InstallationID r = installationID \<and> dr_EventID r = eventID);
          s' = s\<lparr> dd_Records := mupdate (\<lambda>_ r. if hit r then ack_record ackedAt r else r)
                                 (dd_Records s) \<rparr>
      in if \<not> (\<exists>r \<in> set (map snd (dd_Records s)). hit r) then (s', Some ErrRegistrationNotFound)
         else (s', delivery_persistLocked s'))"

definition DeleteForInstallation ::
  "DeliveryDiskState \<Rightarrow> string \<Rightarrow> DeliveryDiskState \<times> int \<times> err option" where
  "DeleteForInstallation s installationID =
     (let s' = s\<lparr> dd_Records := mfilter (\<lambda>_ r. dr_InstallationID r \<noteq> installationID)
                                 (dd_Records s) \<rparr>;
          removed = length (filter (\<lambda>r. dr_InstallationID r = installationID)
                              (map snd (dd_Records s)))
      in if removed = 0 then (s', 0, None)
         else (s', int removed, delivery_persistLocked s'))"

section \<open>The EventSub inbox\<close>

text \<open>The scan for the entry to evict: \<open>oldest\<close> is the pair of the two loop variables.\<close>

definition older :: "string \<times> gotime \<Rightarrow> string \<times> gotime \<Rightarrow> string \<times> gotime" where
  "older oldest entry =
     (if fst oldest = '''' \<or> snd entry < snd oldest then entry else oldest)"

definition oldest_seen :: "(string, gotime) gomap \<Rightarrow> string \<times> gotime" where
  "oldest_seen seen = foldl older ('''', 0) seen"

definition addSeenEventSubLocked :: "string \<Rightarrow> gotime \<Rightarrow> DeliveryDiskState \<Rightarrow> DeliveryDiskState" where
  "addSeenEventSubLocked messageID now s =
     (let s = (if length (dd_Seen s) \<ge> MaxSeenEventRecords
               then s\<lparr> dd_Seen := mdel (fst (oldest_seen (dd_Seen s))) (dd_Seen s) \<rparr>
               else s)
      in s\<lparr> dd_Seen := mput messageID now (dd_Seen s) \<rparr>)"

text \<open>The record of a message just received, and the room \<^verbatim>\<open>EnqueueEventSub\<close> makes for it
  when the inbox is at its capacity.\<close>

definition new_inbox_record :: "string \<Rightarrow> EventSubEnvelope \<Rightarrow> gotime \<Rightarrow> EventSubInboxRecord" where
  "new_inbox_record messageID envelope now =
     \<lparr> ib_MessageID = messageID, ib_Envelope = envelope,
       ib_Status = EventSubInboxStatusPending, ib_AttemptCount = 0,
       ib_AvailableAt = now, ib_ExpiresAt = now + 24 * hour,
       ib_ReceivedAt = now, ib_LastAttemptAt = 0, ib_LastError = '''' \<rparr>"

definition inbox_room :: "DeliveryDiskState \<Rightarrow> DeliveryDiskState" where
  "inbox_room s =
     (if length (dd_EventSubInbox s) \<ge> MaxEventSubInboxRecords
      then trimDeadEventSubInboxLocked (MaxEventSubInboxRecords - 1) s else s)"

definition EnqueueEventSub ::
  "DeliveryDiskState \<Rightarrow> string \<Rightarrow> EventSubEnvelope \<Rightarrow> gotime
    \<Rightarrow> DeliveryDiskState \<times> EventSubInboxRecord \<times> bool \<times> err option" where
  "EnqueueEventSub s messageID envelope now =
     (let messageID = trimSpace messageID
      in if messageID = '''' then
           (s, empty_EventSubInboxRecord, False, Some (ErrText ''EventSub message id is required''))
         else
           (let s = cleanupSeenLocked now (24 * hour) s
            in if mget (dd_Seen s) messageID \<noteq> None then (s, empty_EventSubInboxRecord, False, None)
               else case mget (dd_EventSubInbox s) messageID of
                 Some existing \<Rightarrow> (s, existing, False, None)
               | None \<Rightarrow>
                   (let s = inbox_room s
                    in if length (dd_EventSubInbox s) \<ge> MaxEventSubInboxRecords
                       then (s, empty_EventSubInboxRecord, False, Some (ErrText ''EventSub inbox is full''))
                       else
                         (let record = new_inbox_record messageID envelope now;
                              s' = s\<lparr> dd_EventSubInbox := mput messageID record (dd_EventSubInbox s) \<rparr>
                          in case delivery_persistLocked s' of
                               Some e \<Rightarrow>
                                 (s'\<lparr> dd_EventSubInbox := mdel messageID (dd_EventSubInbox s') \<rparr>,
                                  empty_EventSubInboxRecord, False, Some e)
                             | None \<Rightarrow> (s', record, True, None)))))"

definition inbox_due :: "gotime \<Rightarrow> EventSubInboxRecord \<Rightarrow> bool" where
  "inbox_due now r \<longleftrightarrow> \<not> (ib_Status r \<noteq> EventSubInboxStatusPending \<or> now < ib_AvailableAt r \<or>
                          \<not> now < ib_ExpiresAt r)"

definition PendingEventSub :: "DeliveryDiskState \<Rightarrow> int \<Rightarrow> gotime \<Rightarrow> EventSubInboxRecord list" where
  "PendingEventSub s limit now =
     (let limit = (if limit \<le> 0 \<or> limit > 1000 then 200 else limit);
          result = sortSlice (\<lambda>a b. if ib_ReceivedAt a = ib_ReceivedAt b
                                    then ib_MessageID a < ib_MessageID b
                                    else ib_ReceivedAt a < ib_ReceivedAt b)
                     (filter (inbox_due now) (map snd (dd_EventSubInbox s)))
      in take (nat limit) result)"

definition ListEventSubInbox :: "DeliveryDiskState \<Rightarrow> int \<Rightarrow> EventSubInboxRecord list" where
  "ListEventSubInbox s limit =
     (let limit = (if limit \<le> 0 \<or> limit > 1000 then 200 else limit);
          result = sortSlice (\<lambda>a b. if ib_ReceivedAt a = ib_ReceivedAt b
                                    then ib_MessageID a > ib_MessageID b
                                    else ib_ReceivedAt a > ib_ReceivedAt b)
                     (map snd (dd_EventSubInbox s))
      in take (nat limit) result)"

definition CompleteEventSub ::
  "DeliveryDiskState \<Rightarrow> string \<Rightarrow> gotime \<Rightarrow> DeliveryDiskState \<times> err option" where
  "CompleteEventSub s messageID completedAt = (case mget (dd_EventSubInbox s) messageID of
       None \<Rightarrow> (if mget (dd_Seen s) messageID \<noteq> None then (s, None)
                else (s, Some ErrRegistrationNotFound))
     | Some record \<Rightarrow>
         (let previousSeen = mget (dd_Seen s) messageID;
              s' = addSeenEventSubLocked messageID completedAt
                     (s\<lparr> dd_EventSubInbox := mdel messageID (dd_EventSubInbox s) \<rparr>)
          in case delivery_persistLocked s' of
               Some e \<Rightarrow>
                 (s'\<lparr> dd_EventSubInbox := mput messageID record (dd_EventSubInbox s'),
                      dd_Seen := (case previousSeen of
                                    Some t \<Rightarrow> mput messageID t (dd_Seen s')
                                  | None \<Rightarrow> mdel messageID (dd_Seen s')) \<rparr>, Some e)
             | None \<Rightarrow> (s', None)))"

definition MarkEventSubFailed ::
  "DeliveryDiskState \<Rightarrow> string \<Rightarrow> string option \<Rightarrow> gotime \<Rightarrow> DeliveryDiskState \<times> err option" where
  "MarkEventSubFailed s messageID failure failedAt = (case mget (dd_EventSubInbox s) messageID of
       None \<Rightarrow> (s, Some ErrRegistrationNotFound)
     | Some record \<Rightarrow>
         (let attempts = wrap64 (ib_AttemptCount record + 1);
              record = record\<lparr> ib_AttemptCount := attempts, ib_LastAttemptAt := failedAt \<rparr>;
              record = (case failure of Some e \<Rightarrow> record\<lparr> ib_LastError := e \<rparr> | None \<Rightarrow> record);
              record = (if attempts \<ge> 8 \<or> \<not> failedAt < ib_ExpiresAt record
                        then record\<lparr> ib_Status := EventSubInboxStatusDead \<rparr>
                        else record\<lparr> ib_Status := EventSubInboxStatusPending,
                                     ib_AvailableAt := failedAt + retryDelay attempts \<rparr>);
              s' = s\<lparr> dd_EventSubInbox := mput messageID record (dd_EventSubInbox s) \<rparr>
          in (s', delivery_persistLocked s')))"

definition RetryEventSub ::
  "DeliveryDiskState \<Rightarrow> string \<Rightarrow> gotime \<Rightarrow> DeliveryDiskState \<times> err option" where
  "RetryEventSub s messageID now = (case mget (dd_EventSubInbox s) messageID of
       None \<Rightarrow> (s, Some ErrRegistrationNotFound)
     | Some record \<Rightarrow>
         (let record = record\<lparr> ib_Status := EventSubInboxStatusPending, ib_AttemptCount := 0,
                               ib_AvailableAt := now, ib_ExpiresAt := now + 24 * hour,
                               ib_LastError := '''' \<rparr>;
              s' = s\<lparr> dd_EventSubInbox := mput messageID record (dd_EventSubInbox s) \<rparr>
          in (s', delivery_persistLocked s')))"

definition HasSeenEventSub ::
  "DeliveryDiskState \<Rightarrow> string \<Rightarrow> gotime \<Rightarrow> duration \<Rightarrow> DeliveryDiskState \<times> bool" where
  "HasSeenEventSub s messageID now ttl =
     (let s' = cleanupSeenLocked now ttl s in (s', mget (dd_Seen s') messageID \<noteq> None))"

definition SeenEventSub ::
  "DeliveryDiskState \<Rightarrow> string \<Rightarrow> gotime \<Rightarrow> duration \<Rightarrow> DeliveryDiskState \<times> bool \<times> err option" where
  "SeenEventSub s messageID now ttl =
     (let s = cleanupSeenLocked now ttl s
      in if mget (dd_Seen s) messageID \<noteq> None then (s, True, None)
         else (let s' = addSeenEventSubLocked messageID now s
               in case delivery_persistLocked s' of
                    Some e \<Rightarrow> (s'\<lparr> dd_Seen := mdel messageID (dd_Seen s') \<rparr>, False, Some e)
                  | None \<Rightarrow> (s', False, None)))"

definition ForgetEventSub :: "DeliveryDiskState \<Rightarrow> string \<Rightarrow> DeliveryDiskState \<times> err option" where
  "ForgetEventSub s messageID =
     (let s' = s\<lparr> dd_Seen := mdel messageID (dd_Seen s) \<rparr> in (s', delivery_persistLocked s'))"

section \<open>Channel states\<close>

definition ChannelStateChanges ::
  "DeliveryDiskState \<Rightarrow> string \<Rightarrow> string \<Rightarrow> string \<Rightarrow> bool \<times> bool \<times> bool \<times> err option" where
  "ChannelStateChanges s channelID title categoryName =
     (if channelID = '''' then (False, False, False, Some (ErrText ''channel id is required''))
      else case mget (dd_ChannelStates s) channelID of
             None \<Rightarrow> (False, False, True, None)
           | Some previous \<Rightarrow>
               (cs_Title previous \<noteq> title, cs_CategoryName previous \<noteq> categoryName, False, None))"

definition SaveChannelState ::
  "DeliveryDiskState \<Rightarrow> string \<Rightarrow> string \<Rightarrow> string \<Rightarrow> gotime \<Rightarrow> DeliveryDiskState \<times> err option" where
  "SaveChannelState s channelID title categoryName now =
     (if channelID = '''' then (s, Some (ErrText ''channel id is required''))
      else (let previous = mget (dd_ChannelStates s) channelID;
                s' = s\<lparr> dd_ChannelStates := mput channelID
                          \<lparr> cs_Title = title, cs_CategoryName = categoryName, cs_UpdatedAt = now \<rparr>
                          (dd_ChannelStates s) \<rparr>
            in case delivery_persistLocked s' of
                 Some e \<Rightarrow>
                   (s'\<lparr> dd_ChannelStates := (case previous of
                           Some p \<Rightarrow> mput channelID p (dd_ChannelStates s')
                         | None \<Rightarrow> mdel channelID (dd_ChannelStates s')) \<rparr>, Some e)
               | None \<Rightarrow> (s', None)))"

definition UpdateChannelState ::
  "DeliveryDiskState \<Rightarrow> string \<Rightarrow> string \<Rightarrow> string \<Rightarrow> gotime
    \<Rightarrow> DeliveryDiskState \<times> bool \<times> bool \<times> bool \<times> err option" where
  "UpdateChannelState s channelID title categoryName now =
     (case ChannelStateChanges s channelID title categoryName of
        (titleChanged, gameChanged, initialized, Some e) \<Rightarrow> (s, False, False, False, Some e)
      | (titleChanged, gameChanged, initialized, None) \<Rightarrow>
          (case SaveChannelState s channelID title categoryName now of
             (s', Some e) \<Rightarrow> (s', False, False, False, Some e)
           | (s', None) \<Rightarrow> (s', titleChanged, gameChanged, initialized, None)))"

end
