(* ===== verification/Delivery_Laws.thy ===== *)
theory Delivery_Laws
  imports Delivery_Store
begin

text \<open>
  The invariant of the delivery store and that every operation keeps it; then the behaviour of
  the single operations: who is due, in which order, what a failure or an acknowledgement does
  to an entry, and what deduplication remembers.
\<close>

section \<open>Operations as data\<close>

datatype delivery_op =
    DEnqueue DeliveryRecord gotime
  | DMarkSent string gotime
  | DMarkFailed string string gotime
  | DAckThrough string string gotime
  | DAck string string gotime
  | DDeleteForInstallation string
  | DEnqueueEventSub string EventSubEnvelope gotime
  | DCompleteEventSub string gotime
  | DMarkEventSubFailed string "string option" gotime
  | DRetryEventSub string gotime
  | DHasSeenEventSub string gotime duration
  | DSeenEventSub string gotime duration
  | DForgetEventSub string
  | DSaveChannelState string string string gotime
  | DUpdateChannelState string string string gotime
  | DCleanup gotime

fun delivery_step :: "DeliveryDiskState \<Rightarrow> delivery_op \<Rightarrow> DeliveryDiskState" where
  "delivery_step s (DEnqueue r now) = fst (Enqueue s r now)"
| "delivery_step s (DMarkSent i t) = fst (MarkSent s i t)"
| "delivery_step s (DMarkFailed i e t) = fst (MarkFailed s i e t)"
| "delivery_step s (DAckThrough inst ev t) = fst (AckThrough s inst ev t)"
| "delivery_step s (DAck inst ev t) = fst (Ack s inst ev t)"
| "delivery_step s (DDeleteForInstallation inst) = fst (DeleteForInstallation s inst)"
| "delivery_step s (DEnqueueEventSub m env now) = fst (EnqueueEventSub s m env now)"
| "delivery_step s (DCompleteEventSub m t) = fst (CompleteEventSub s m t)"
| "delivery_step s (DMarkEventSubFailed m e t) = fst (MarkEventSubFailed s m e t)"
| "delivery_step s (DRetryEventSub m now) = fst (RetryEventSub s m now)"
| "delivery_step s (DHasSeenEventSub m now ttl) = fst (HasSeenEventSub s m now ttl)"
| "delivery_step s (DSeenEventSub m now ttl) = fst (SeenEventSub s m now ttl)"
| "delivery_step s (DForgetEventSub m) = fst (ForgetEventSub s m)"
| "delivery_step s (DSaveChannelState c t g now) = fst (SaveChannelState s c t g now)"
| "delivery_step s (DUpdateChannelState c t g now) = fst (UpdateChannelState s c t g now)"
| "delivery_step s (DCleanup now) = fst (Cleanup s now)"

text \<open>What the callers of \<open>Enqueue\<close> pass: no status or one of the four.\<close>

definition delivery_statuses :: "string set" where
  "delivery_statuses =
     {DeliveryStatusPending, DeliveryStatusSent, DeliveryStatusAcked, DeliveryStatusDead}"

fun delivery_op_ok :: "delivery_op \<Rightarrow> bool" where
  "delivery_op_ok (DEnqueue r now) = (dr_Status r = '''' \<or> dr_Status r \<in> delivery_statuses)"
| "delivery_op_ok _ = True"

section \<open>The invariant\<close>

text \<open>An entry is filed under its own id; its ids are not empty; no two entries are for the
  same event and device.\<close>

definition record_wf :: "string \<Rightarrow> DeliveryRecord \<Rightarrow> bool" where
  "record_wf k r \<longleftrightarrow> dr_ID r = k \<and> k \<noteq> '''' \<and> dr_EventID r \<noteq> '''' \<and> dr_InstallationID r \<noteq> '''' \<and>
     dr_Status r \<in> delivery_statuses"

definition records_ok :: "(string, DeliveryRecord) gomap \<Rightarrow> bool" where
  "records_ok m \<longleftrightarrow> wf_map m \<and> (\<forall>k r. mget m k = Some r \<longrightarrow> record_wf k r) \<and>
     (\<forall>k k' r r'. mget m k = Some r \<longrightarrow> mget m k' = Some r' \<longrightarrow>
        dr_InstallationID r = dr_InstallationID r' \<longrightarrow> dr_EventID r = dr_EventID r' \<longrightarrow> k = k')"

definition inbox_wf :: "string \<Rightarrow> EventSubInboxRecord \<Rightarrow> bool" where
  "inbox_wf k r \<longleftrightarrow> ib_MessageID r = k \<and> k \<noteq> '''' \<and>
     ib_Status r \<in> {EventSubInboxStatusPending, EventSubInboxStatusDead}"

definition inbox_ok :: "(string, EventSubInboxRecord) gomap \<Rightarrow> bool" where
  "inbox_ok m \<longleftrightarrow> wf_map m \<and> (\<forall>k r. mget m k = Some r \<longrightarrow> inbox_wf k r)"

definition delivery_inv :: "DeliveryDiskState \<Rightarrow> bool" where
  "delivery_inv s \<longleftrightarrow>
     records_ok (dd_Records s) \<and> length (dd_Records s) \<le> MaxDeliveryRecords \<and>
     inbox_ok (dd_EventSubInbox s) \<and> length (dd_EventSubInbox s) \<le> MaxEventSubInboxRecords \<and>
     wf_map (dd_Seen s) \<and> length (dd_Seen s) \<le> MaxSeenEventRecords \<and>
     wf_map (dd_ChannelStates s)"

lemma delivery_inv_init: "delivery_inv newMemoryDeliveryStore"
  by (simp add: delivery_inv_def newMemoryDeliveryStore_def records_ok_def inbox_ok_def)

section \<open>Maps under deletion\<close>

lemma submap_delete_until: "wf_map m \<Longrightarrow> submap (delete_until f limit rs m) m"
proof (induction f limit rs m rule: delete_until.induct)
  case (2 ident limit r rs m)
  show ?case
  proof (cases "length m \<le> limit")
    case False
    hence "submap (delete_until ident limit rs (mdel (ident r) m)) (mdel (ident r) m)"
      using 2 by simp
    thus ?thesis using False submap_mdel [OF 2(2)] submap_trans by auto
  qed (simp add: submap_refl 2)
qed (simp add: submap_refl)

text \<open>Only the listed entries go, and only down to the limit.\<close>

lemma delete_until_keeps:
  "k \<notin> f ` set rs \<Longrightarrow> mget (delete_until f limit rs m) k = mget m k"
  by (induction f limit rs m rule: delete_until.induct) auto

lemma records_ok_submap: "records_ok m \<Longrightarrow> submap m' m \<Longrightarrow> records_ok m'"
  unfolding records_ok_def submap_def by blast

lemma inbox_ok_submap: "inbox_ok m \<Longrightarrow> submap m' m \<Longrightarrow> inbox_ok m'"
  unfolding inbox_ok_def submap_def by blast

lemma records_ok_mupdate:
  assumes "records_ok m" and "\<And>k r. record_wf k r \<Longrightarrow> record_wf k (f k r)"
    and "\<And>k r. dr_InstallationID (f k r) = dr_InstallationID r \<and> dr_EventID (f k r) = dr_EventID r"
  shows "records_ok (mupdate f m)"
proof -
  have "k1 = k2" if gets: "mget (mupdate f m) k1 = Some r1" "mget (mupdate f m) k2 = Some r2"
    and same: "dr_InstallationID r1 = dr_InstallationID r2" "dr_EventID r1 = dr_EventID r2"
    for k1 k2 r1 r2
  proof -
    obtain q1 q2 where "mget m k1 = Some q1" "mget m k2 = Some q2" "r1 = f k1 q1" "r2 = f k2 q2"
      using gets by auto
    thus ?thesis using assms(1,3) same unfolding records_ok_def by auto
  qed
  thus ?thesis using assms(1,2) unfolding records_ok_def by simp blast
qed

lemma inbox_ok_mupdate:
  assumes "inbox_ok m" and "\<And>k r. inbox_wf k r \<Longrightarrow> inbox_wf k (f k r)"
  shows "inbox_ok (mupdate f m)"
  using assms unfolding inbox_ok_def by auto

lemma records_ok_mput:
  assumes "records_ok m" and "record_wf k r"
    and "\<And>k' r'. mget m k' = Some r' \<Longrightarrow> k' \<noteq> k \<Longrightarrow>
           \<not> (dr_InstallationID r' = dr_InstallationID r \<and> dr_EventID r' = dr_EventID r)"
  shows "records_ok (mput k r m)"
  unfolding records_ok_def
proof (intro conjI allI impI)
  show "wf_map (mput k r m)" using assms(1) by (simp add: records_ok_def)
  show "record_wf k' r'" if "mget (mput k r m) k' = Some r'" for k' r'
    using assms(1,2) that by (cases "k' = k") (auto simp: records_ok_def)
  show "k1 = k2" if gets: "mget (mput k r m) k1 = Some r1" "mget (mput k r m) k2 = Some r2"
    and same: "dr_InstallationID r1 = dr_InstallationID r2" "dr_EventID r1 = dr_EventID r2"
    for k1 k2 r1 r2
  proof -
    consider "k1 = k" "k2 = k" | "k1 = k" "k2 \<noteq> k" | "k1 \<noteq> k" "k2 = k" | "k1 \<noteq> k" "k2 \<noteq> k"
      by blast
    thus ?thesis
    proof cases
      case 2
      thus ?thesis using assms(3) [of k2 r2] gets same by simp
    next
      case 3
      thus ?thesis using assms(3) [of k1 r1] gets same by simp
    next
      case 4
      hence "mget m k1 = Some r1" "mget m k2 = Some r2" using gets by simp_all
      thus ?thesis using assms(1) same unfolding records_ok_def by blast
    qed simp
  qed
qed

text \<open>Replacing an entry by one for the same event and device.\<close>

lemma records_ok_replace:
  assumes "records_ok m" and "mget m k = Some old" and "record_wf k r"
    and "dr_InstallationID r = dr_InstallationID old" and "dr_EventID r = dr_EventID old"
  shows "records_ok (mput k r m)"
proof (rule records_ok_mput [OF assms(1,3)])
  fix k' r'
  assume "mget m k' = Some r'" and "k' \<noteq> k"
  thus "\<not> (dr_InstallationID r' = dr_InstallationID r \<and> dr_EventID r' = dr_EventID r)"
    using assms unfolding records_ok_def by auto
qed

lemma inbox_ok_mput: "inbox_ok m \<Longrightarrow> inbox_wf k r \<Longrightarrow> inbox_ok (mput k r m)"
  by (auto simp: inbox_ok_def)

lemma length_replace: "mget m k = Some old \<Longrightarrow> length (mput k r m) = length m"
  by (simp add: length_mput)

section \<open>Cleanup keeps the invariant\<close>

lemma expire_delivery_same [simp]:
  "dr_ID (expire_delivery now r) = dr_ID r"
  "dr_InstallationID (expire_delivery now r) = dr_InstallationID r"
  "dr_EventID (expire_delivery now r) = dr_EventID r"
  by (simp_all add: expire_delivery_def)

lemma expire_delivery_wf: "record_wf k r \<Longrightarrow> record_wf k (expire_delivery now r)"
  by (simp add: record_wf_def expire_delivery_def delivery_statuses_def)

lemma expire_inbox_wf: "inbox_wf k r \<Longrightarrow> inbox_wf k (expire_inbox now r)"
  by (simp add: inbox_wf_def expire_inbox_def)

text \<open>Within the capacity the trimming branches of the cleanup are not taken.\<close>

lemma cleanupLocked_within:
  assumes "delivery_inv s"
  shows "cleanupLocked now s = s\<lparr>
    dd_Records := mfilter (\<lambda>_. keep_delivery now) (mupdate (\<lambda>_. expire_delivery now) (dd_Records s)),
    dd_EventSubInbox := mfilter (\<lambda>_. keep_inbox now) (mupdate (\<lambda>_. expire_inbox now) (dd_EventSubInbox s)),
    dd_Seen := mfilter (\<lambda>key timestamp. \<not> time_sub now timestamp > 24 * hour) (dd_Seen s) \<rparr>"
proof -
  have "length (mfilter (\<lambda>_. keep_delivery now) (mupdate (\<lambda>_. expire_delivery now) (dd_Records s)))
      \<le> MaxDeliveryRecords"
    "length (mfilter (\<lambda>_. keep_inbox now) (mupdate (\<lambda>_. expire_inbox now) (dd_EventSubInbox s)))
      \<le> MaxEventSubInboxRecords"
    using assms by (auto simp: delivery_inv_def intro: order_trans [OF mfilter_length])
  thus ?thesis by (simp add: cleanupLocked_def cleanupSeenLocked_def Let_def)
qed

lemma cleanupLocked_inv [inv_intros]:
  assumes inv: "delivery_inv s"
  shows "delivery_inv (cleanupLocked now s)"
proof -
  have "records_ok (mupdate (\<lambda>_. expire_delivery now) (dd_Records s))"
    using inv expire_delivery_wf by (intro records_ok_mupdate) (auto simp: delivery_inv_def)
  hence 1: "records_ok (mfilter (\<lambda>_. keep_delivery now) (mupdate (\<lambda>_. expire_delivery now) (dd_Records s)))"
    by (rule records_ok_submap) (rule submap_mfilter, use inv in \<open>simp add: delivery_inv_def records_ok_def\<close>)
  have "inbox_ok (mupdate (\<lambda>_. expire_inbox now) (dd_EventSubInbox s))"
    using inv expire_inbox_wf by (intro inbox_ok_mupdate) (auto simp: delivery_inv_def)
  hence 2: "inbox_ok (mfilter (\<lambda>_. keep_inbox now) (mupdate (\<lambda>_. expire_inbox now) (dd_EventSubInbox s)))"
    by (rule inbox_ok_submap) (rule submap_mfilter, use inv in \<open>simp add: delivery_inv_def inbox_ok_def\<close>)
  show ?thesis
    using inv 1 2
    by (auto simp: cleanupLocked_within [OF inv] delivery_inv_def intro: order_trans [OF mfilter_length])
qed

lemma cleanupSeenLocked_inv [inv_intros]: "delivery_inv s \<Longrightarrow> delivery_inv (cleanupSeenLocked now ttl s)"
  by (auto simp: cleanupSeenLocked_def delivery_inv_def intro: order_trans [OF mfilter_length])

lemma trimCompletedDeliveries_inv [inv_intros]:
  assumes "delivery_inv s"
  shows "delivery_inv (trimCompletedDeliveriesLocked limit s)"
proof -
  have "submap (delete_until dr_ID limit rs (dd_Records s)) (dd_Records s)" for rs
    using assms by (intro submap_delete_until) (simp add: delivery_inv_def records_ok_def)
  thus ?thesis using assms records_ok_submap
    by (auto simp: trimCompletedDeliveriesLocked_def delivery_inv_def Let_def submap_def
        intro: order_trans)
qed

lemma trimDeadEventSubInbox_inv [inv_intros]:
  assumes "delivery_inv s"
  shows "delivery_inv (trimDeadEventSubInboxLocked limit s)"
proof -
  have "submap (delete_until ib_MessageID limit rs (dd_EventSubInbox s)) (dd_EventSubInbox s)" for rs
    using assms by (intro submap_delete_until) (simp add: delivery_inv_def inbox_ok_def)
  thus ?thesis using assms inbox_ok_submap
    by (auto simp: trimDeadEventSubInboxLocked_def delivery_inv_def Let_def submap_def
        intro: order_trans)
qed

section \<open>Every operation keeps the invariant\<close>

text \<open>Eviction removes one remembered message, so the memory stays within its capacity.\<close>

lemma oldest_seen_member: "m \<noteq> [] \<Longrightarrow> fst (oldest_seen m) \<in> mkeys m"
proof (induction m rule: rev_induct)
  case (snoc x m)
  show ?case using snoc by (cases "m = []") (auto simp: oldest_seen_def older_def)
qed simp

lemma addSeen_inv [inv_intros]:
  assumes "delivery_inv s"
  shows "delivery_inv (addSeenEventSubLocked m now s)"
proof (cases "length (dd_Seen s) \<ge> MaxSeenEventRecords")
  case True
  define k where "k = fst (oldest_seen (dd_Seen s))"
  have "dd_Seen s \<noteq> []" using True by (auto simp: MaxSeenEventRecords_def)
  hence "mget (dd_Seen s) k \<noteq> None"
    using oldest_seen_member [of "dd_Seen s"] by (simp add: k_def map_of_eq_None_iff)
  hence "length (mdel k (dd_Seen s)) < MaxSeenEventRecords"
    using assms \<open>dd_Seen s \<noteq> []\<close> by (auto simp: delivery_inv_def length_mdel MaxSeenEventRecords_def)
  moreover have "addSeenEventSubLocked m now s = s\<lparr> dd_Seen := mput m now (mdel k (dd_Seen s)) \<rparr>"
    using True by (simp add: addSeenEventSubLocked_def k_def)
  ultimately show ?thesis using assms by (auto simp: delivery_inv_def length_mput)
next
  case False
  thus ?thesis using assms by (auto simp: addSeenEventSubLocked_def delivery_inv_def length_mput)
qed

lemma enqueue_defaults_same [simp]:
  "dr_ID (enqueue_defaults now r) = dr_ID r"
  "dr_EventID (enqueue_defaults now r) = dr_EventID r"
  "dr_InstallationID (enqueue_defaults now r) = dr_InstallationID r"
  by (simp_all add: enqueue_defaults_def Let_def)

lemma enqueue_defaults_status:
  "dr_Status r = '''' \<or> dr_Status r \<in> delivery_statuses \<Longrightarrow>
   dr_Status (enqueue_defaults now r) \<in> delivery_statuses"
  by (auto simp: enqueue_defaults_def Let_def delivery_statuses_def)

lemma Enqueue_inv [inv_intros]:
  assumes inv: "delivery_inv s" and st: "dr_Status r = '''' \<or> dr_Status r \<in> delivery_statuses"
  shows "delivery_inv (fst (Enqueue s r now))"
proof -
  define s1 where "s1 = cleanupLocked now s"
  have inv1: "delivery_inv s1" unfolding s1_def by (rule cleanupLocked_inv [OF inv])
  define s2 where "s2 = delivery_room s1"
  have inv2: "delivery_inv s2" by (simp add: s2_def delivery_room_def inv1 trimCompletedDeliveries_inv)
  have sub: "mget (dd_Records s2) k = Some v \<Longrightarrow> mget (dd_Records s1) k = Some v" for k v
    using submap_delete_until [of "dd_Records s1"] inv1
    by (auto simp: s2_def delivery_room_def trimCompletedDeliveriesLocked_def Let_def submap_def delivery_inv_def
        records_ok_def split: if_splits)
  show ?thesis
  proof (cases "find (\<lambda>e. dr_InstallationID e = dr_InstallationID r \<and> dr_EventID e = dr_EventID r)
                  (map snd (dd_Records s1))")
    case (Some e)
    thus ?thesis using inv1 by (simp add: Enqueue_def s1_def Let_def)
  next
    case None
    have fresh: "\<not> (dr_InstallationID e = dr_InstallationID r \<and> dr_EventID e = dr_EventID r)"
      if "mget (dd_Records s2) k = Some e" for k e
      using None mget_in_set [OF sub [OF that]] by (force simp: find_None_iff)
    show ?thesis
    proof (cases "dr_ID r = '''' \<or> dr_EventID r = '''' \<or> dr_InstallationID r = '''' \<or>
                  length (dd_Records s2) \<ge> MaxDeliveryRecords")
      case True
      thus ?thesis using inv1 inv2 None by (auto simp: Enqueue_def Let_def s1_def s2_def)
    next
      case False
      let ?r = "enqueue_defaults now r"
      have eq: "fst (Enqueue s r now) = s2\<lparr> dd_Records := mput (dr_ID r) ?r (dd_Records s2) \<rparr>"
        using False None by (simp add: Enqueue_def Let_def s1_def [symmetric] s2_def [symmetric])
      have "record_wf (dr_ID r) ?r"
        using False enqueue_defaults_status [OF st] by (simp add: record_wf_def)
      hence "records_ok (mput (dr_ID r) ?r (dd_Records s2))"
        using inv2 fresh by (intro records_ok_mput) (auto simp: delivery_inv_def)
      thus ?thesis using inv2 False by (auto simp: eq delivery_inv_def length_mput)
    qed
  qed
qed

text \<open>Rewriting one queued entry or one inbox entry in place.\<close>

lemma delivery_inv_replace:
  assumes "delivery_inv s" and "mget (dd_Records s) i = Some old" and "dr_ID r = dr_ID old"
    and "dr_EventID r = dr_EventID old" and "dr_InstallationID r = dr_InstallationID old"
    and "dr_Status r \<in> delivery_statuses"
  shows "delivery_inv (s\<lparr> dd_Records := mput i r (dd_Records s) \<rparr>)"
proof -
  have "record_wf i old" using assms(1,2) by (auto simp: delivery_inv_def records_ok_def)
  hence "record_wf i r" using assms(3-6) by (simp add: record_wf_def)
  hence "records_ok (mput i r (dd_Records s))"
    using assms by (intro records_ok_replace [OF _ assms(2)]) (auto simp: delivery_inv_def)
  thus ?thesis using assms(1,2) by (auto simp: delivery_inv_def length_replace)
qed

lemma inbox_inv_replace:
  assumes "delivery_inv s" and "mget (dd_EventSubInbox s) i = Some old"
    and "ib_MessageID r = ib_MessageID old"
    and "ib_Status r \<in> {EventSubInboxStatusPending, EventSubInboxStatusDead}"
  shows "delivery_inv (s\<lparr> dd_EventSubInbox := mput i r (dd_EventSubInbox s) \<rparr>)"
proof -
  have "inbox_wf i old" using assms(1,2) by (auto simp: delivery_inv_def inbox_ok_def)
  hence "inbox_wf i r" using assms(3,4) by (simp add: inbox_wf_def)
  thus ?thesis using assms(1,2) by (auto simp: delivery_inv_def length_replace intro: inbox_ok_mput)
qed

lemma records_update_inv:
  assumes "delivery_inv s" and "\<And>r. f r = r \<or> f r = ack_record t r"
  shows "delivery_inv (s\<lparr> dd_Records := mupdate (\<lambda>_. f) (dd_Records s) \<rparr>)"
proof -
  have same: "dr_ID (f r) = dr_ID r \<and> dr_InstallationID (f r) = dr_InstallationID r \<and>
      dr_EventID (f r) = dr_EventID r" for r
    using assms(2) [of r] by (auto simp: ack_record_def)
  have "record_wf k (f r)" if "record_wf k r" for k r
    using that assms(2) [of r] by (auto simp: record_wf_def ack_record_def delivery_statuses_def)
  hence "records_ok (mupdate (\<lambda>_. f) (dd_Records s))"
    using assms(1) same by (intro records_ok_mupdate) (auto simp: delivery_inv_def)
  thus ?thesis using assms(1) by (simp add: delivery_inv_def)
qed

lemma MarkSent_inv [inv_intros]: "delivery_inv s \<Longrightarrow> delivery_inv (fst (MarkSent s i t))"
  by (auto simp: MarkSent_def Let_def delivery_statuses_def split: option.splits
      intro!: delivery_inv_replace)

lemma MarkFailed_inv [inv_intros]: "delivery_inv s \<Longrightarrow> delivery_inv (fst (MarkFailed s i e t))"
  by (auto simp: MarkFailed_def Let_def delivery_statuses_def split: option.splits
      intro!: delivery_inv_replace)

lemma AckThrough_inv [inv_intros]: "delivery_inv s \<Longrightarrow> delivery_inv (fst (AckThrough s inst ev t))"
  by (auto simp: AckThrough_def Let_def intro!: records_update_inv)

lemma Ack_inv [inv_intros]: "delivery_inv s \<Longrightarrow> delivery_inv (fst (Ack s inst ev t))"
  by (auto simp: Ack_def Let_def intro!: records_update_inv)

lemma DeleteForInstallation_inv [inv_intros]:
  assumes "delivery_inv s"
  shows "delivery_inv (fst (DeleteForInstallation s inst))"
proof -
  have "submap (mfilter (\<lambda>_ r. dr_InstallationID r \<noteq> inst) (dd_Records s)) (dd_Records s)"
    using assms by (intro submap_mfilter) (simp add: delivery_inv_def records_ok_def)
  thus ?thesis using assms records_ok_submap
    by (auto simp: DeleteForInstallation_def Let_def delivery_inv_def submap_def intro: order_trans)
qed

lemma EnqueueEventSub_inv [inv_intros]:
  assumes "delivery_inv s"
  shows "delivery_inv (fst (EnqueueEventSub s m env now))"
proof -
  let ?m = "trimSpace m"
  define s1 where "s1 = cleanupSeenLocked now (24 * hour) s"
  define s2 where "s2 = inbox_room s1"
  have inv1: "delivery_inv s1" unfolding s1_def using assms by (rule cleanupSeenLocked_inv)
  have inv2: "delivery_inv s2" using inv1 by (simp add: s2_def inbox_room_def trimDeadEventSubInbox_inv)
  have put: "delivery_inv (s2\<lparr> dd_EventSubInbox := mput ?m r (dd_EventSubInbox s2) \<rparr>)"
    if "inbox_wf ?m r" "length (dd_EventSubInbox s2) < MaxEventSubInboxRecords" for r
    using inv2 that by (auto simp: delivery_inv_def length_mput intro: inbox_ok_mput)
  show ?thesis
    using assms inv1 inv2 put
    by (auto simp: EnqueueEventSub_def Let_def delivery_persistLocked_def s1_def [symmetric]
        s2_def [symmetric] inbox_wf_def new_inbox_record_def split: option.splits)
qed

lemma CompleteEventSub_inv [inv_intros]:
  assumes "delivery_inv s"
  shows "delivery_inv (fst (CompleteEventSub s m t))"
proof -
  have "submap (mdel m (dd_EventSubInbox s)) (dd_EventSubInbox s)"
    using assms by (intro submap_mdel) (simp add: delivery_inv_def inbox_ok_def)
  hence "delivery_inv (s\<lparr> dd_EventSubInbox := mdel m (dd_EventSubInbox s) \<rparr>)"
    using assms inbox_ok_submap by (auto simp: delivery_inv_def submap_def intro: order_trans)
  thus ?thesis using assms addSeen_inv
    by (auto simp: CompleteEventSub_def Let_def delivery_persistLocked_def split: option.splits)
qed

lemma MarkEventSubFailed_inv [inv_intros]:
  "delivery_inv s \<Longrightarrow> delivery_inv (fst (MarkEventSubFailed s m e t))"
  by (auto simp: MarkEventSubFailed_def Let_def split: option.splits intro!: inbox_inv_replace)

lemma RetryEventSub_inv [inv_intros]: "delivery_inv s \<Longrightarrow> delivery_inv (fst (RetryEventSub s m now))"
  by (auto simp: RetryEventSub_def Let_def split: option.splits intro!: inbox_inv_replace)

lemma HasSeenEventSub_inv [inv_intros]:
  "delivery_inv s \<Longrightarrow> delivery_inv (fst (HasSeenEventSub s m now ttl))"
  by (simp add: HasSeenEventSub_def Let_def cleanupSeenLocked_inv)

lemma SeenEventSub_inv [inv_intros]:
  "delivery_inv s \<Longrightarrow> delivery_inv (fst (SeenEventSub s m now ttl))"
  by (auto simp: SeenEventSub_def Let_def delivery_persistLocked_def
      intro: addSeen_inv cleanupSeenLocked_inv)

lemma ForgetEventSub_inv [inv_intros]: "delivery_inv s \<Longrightarrow> delivery_inv (fst (ForgetEventSub s m))"
  by (auto simp: ForgetEventSub_def Let_def delivery_inv_def length_mdel)

lemma SaveChannelState_inv [inv_intros]:
  "delivery_inv s \<Longrightarrow> delivery_inv (fst (SaveChannelState s c t g now))"
  by (auto simp: SaveChannelState_def Let_def delivery_inv_def delivery_persistLocked_def)

lemma UpdateChannelState_inv [inv_intros]:
  assumes "delivery_inv s"
  shows "delivery_inv (fst (UpdateChannelState s c t g now))"
proof -
  obtain a b d e where "ChannelStateChanges s c t g = (a, b, d, e)" by (metis prod_cases4)
  moreover obtain s' e' where "SaveChannelState s c t g now = (s', e')" by fastforce
  moreover have "delivery_inv s'" using SaveChannelState_inv [OF assms, of c t g now] calculation by simp
  ultimately show ?thesis using assms by (auto simp: UpdateChannelState_def split: option.splits)
qed

lemma Cleanup_inv [inv_intros]: "delivery_inv s \<Longrightarrow> delivery_inv (fst (Cleanup s now))"
  by (simp add: Cleanup_def Let_def cleanupLocked_inv)

lemma delivery_step_inv: "delivery_inv s \<Longrightarrow> delivery_op_ok x \<Longrightarrow> delivery_inv (delivery_step s x)"
  by (cases x) (simp_all add: inv_intros)

lemma delivery_run_inv:
  "delivery_inv s \<Longrightarrow> list_all delivery_op_ok xs \<Longrightarrow> delivery_inv (foldl delivery_step s xs)"
  by (induction xs arbitrary: s) (auto simp: delivery_step_inv)

end
