(* ===== verification/Delivery_Properties.thy ===== *)
theory Delivery_Properties
  imports Delivery_Laws
begin

text \<open>
  What the delivery store promises its callers: deduplication of notifications and of EventSub
  messages, order and completeness of what is handed out, the retry schedule, and that nothing
  pending is dropped.
\<close>

section \<open>Lookups after the internal steps\<close>

lemma delivery_invD:
  assumes "delivery_inv s"
  shows "records_ok (dd_Records s)" "wf_map (dd_Records s)" "wf_map (dd_EventSubInbox s)"
    "wf_map (dd_Seen s)" "inbox_ok (dd_EventSubInbox s)"
  using assms by (auto simp: delivery_inv_def records_ok_def inbox_ok_def)

lemma cleanup_get_record:
  assumes "delivery_inv s" and "mget (dd_Records s) k = Some r" and "keep_delivery now (expire_delivery now r)"
  shows "mget (dd_Records (cleanupLocked now s)) k = Some (expire_delivery now r)"
  using assms delivery_invD(2) [OF assms(1)] by (simp add: cleanupLocked_within mfilter_get)

lemma cleanup_get_recordD:
  assumes "delivery_inv s" and "mget (dd_Records (cleanupLocked now s)) k = Some r"
  shows "\<exists>r0. mget (dd_Records s) k = Some r0 \<and> r = expire_delivery now r0"
  using assms delivery_invD(2) [OF assms(1)]
  by (auto simp: cleanupLocked_within mfilter_get split: option.splits if_splits)

lemma cleanup_get_inbox:
  assumes "delivery_inv s" and "mget (dd_EventSubInbox s) k = Some r" and "keep_inbox now (expire_inbox now r)"
  shows "mget (dd_EventSubInbox (cleanupLocked now s)) k = Some (expire_inbox now r)"
  using assms delivery_invD(3) [OF assms(1)] by (simp add: cleanupLocked_within mfilter_get)

lemma trim_keeps_pending:
  assumes "delivery_inv s" and "mget (dd_Records s) k = Some r" and "\<not> delivery_done r"
  shows "mget (dd_Records (trimCompletedDeliveriesLocked limit s)) k = Some r"
proof -
  have "k \<notin> dr_ID ` set (filter delivery_done (map snd (dd_Records s)))"
  proof
    assume "k \<in> dr_ID ` set (filter delivery_done (map snd (dd_Records s)))"
    then obtain k' q where q: "(k', q) \<in> set (dd_Records s)" "delivery_done q" "dr_ID q = k" by auto
    hence "mget (dd_Records s) k' = Some q" using delivery_invD(2) [OF assms(1)] by (simp add: mget_iff)
    moreover have "k' = k"
      using calculation q(3) delivery_invD(1) [OF assms(1)] by (auto simp: records_ok_def record_wf_def)
    ultimately show False using assms(2,3) q(2) by simp
  qed
  thus ?thesis using assms(2)
    by (simp add: trimCompletedDeliveriesLocked_def Let_def delete_until_keeps)
qed

lemma room_keeps_pending:
  "delivery_inv s \<Longrightarrow> mget (dd_Records s) k = Some r \<Longrightarrow> \<not> delivery_done r \<Longrightarrow>
   mget (dd_Records (delivery_room s)) k = Some r"
  by (simp add: delivery_room_def trim_keeps_pending)

lemma trim_keeps_inbox:
  assumes "delivery_inv s" and "mget (dd_EventSubInbox s) k = Some r"
    and "ib_Status r \<noteq> EventSubInboxStatusDead"
  shows "mget (dd_EventSubInbox (trimDeadEventSubInboxLocked limit s)) k = Some r"
proof -
  let ?dead = "filter (\<lambda>r. ib_Status r = EventSubInboxStatusDead) (map snd (dd_EventSubInbox s))"
  have "k \<notin> ib_MessageID ` set ?dead"
  proof
    assume "k \<in> ib_MessageID ` set ?dead"
    then obtain k' q where q: "(k', q) \<in> set (dd_EventSubInbox s)"
        "ib_Status q = EventSubInboxStatusDead" "ib_MessageID q = k" by auto
    hence "mget (dd_EventSubInbox s) k' = Some q" using delivery_invD(3) [OF assms(1)] by (simp add: mget_iff)
    moreover have "k' = k"
      using calculation q(3) delivery_invD(5) [OF assms(1)] by (auto simp: inbox_ok_def inbox_wf_def)
    ultimately show False using assms(2,3) q(2) by simp
  qed
  thus ?thesis using assms(2)
    by (simp add: trimDeadEventSubInboxLocked_def Let_def delete_until_keeps)
qed

lemma room_keeps_inbox:
  "delivery_inv s \<Longrightarrow> mget (dd_EventSubInbox s) k = Some r \<Longrightarrow>
   ib_Status r \<noteq> EventSubInboxStatusDead \<Longrightarrow> mget (dd_EventSubInbox (inbox_room s)) k = Some r"
  by (simp add: inbox_room_def trim_keeps_inbox)

text \<open>Operations on one part of the store leave the others alone.\<close>

lemma cleanupSeen_frame [simp]:
  "dd_Records (cleanupSeenLocked now ttl s) = dd_Records s"
  "dd_EventSubInbox (cleanupSeenLocked now ttl s) = dd_EventSubInbox s"
  by (simp_all add: cleanupSeenLocked_def)

lemma addSeen_frame [simp]:
  "dd_Records (addSeenEventSubLocked m t s) = dd_Records s"
  "dd_EventSubInbox (addSeenEventSubLocked m t s) = dd_EventSubInbox s"
  by (simp_all add: addSeenEventSubLocked_def Let_def split_beta)

lemma inbox_room_frame [simp]: "dd_Records (inbox_room s) = dd_Records s"
  by (simp add: inbox_room_def trimDeadEventSubInboxLocked_def Let_def)

lemma delivery_room_frame [simp]: "dd_EventSubInbox (delivery_room s) = dd_EventSubInbox s"
  by (simp add: delivery_room_def trimCompletedDeliveriesLocked_def Let_def)

lemma addSeen_get: "mget (dd_Seen (addSeenEventSubLocked m t s)) m = Some t"
  by (simp add: addSeenEventSubLocked_def Let_def)

section \<open>The invariant over all runs\<close>

text \<open>C2: Whatever operations are made on a fresh store, in any order: the queue holds at most
  50,000 entries, the EventSub inbox and the deduplication memory at most 100,000 each; every
  entry is filed under its own id with one of the known states; and no two queued entries are
  for the same event and device.\<close>

theorem delivery_store_invariant:
  assumes "list_all delivery_op_ok xs"
  shows "delivery_inv (foldl delivery_step newMemoryDeliveryStore xs)"
  using delivery_run_inv [OF delivery_inv_init assms] .

theorem delivery_store_invariant_witness:
  "delivery_inv (foldl delivery_step newMemoryDeliveryStore
     [DEnqueue (empty_DeliveryRecord\<lparr> dr_ID := ''d1'', dr_EventID := ''e1'', dr_InstallationID := ''i1'' \<rparr>) 10,
      DMarkSent ''d1'' 20, DAck ''i1'' ''e1'' 30, DCleanup 40])"
  by (rule delivery_store_invariant) (simp add: empty_DeliveryRecord_def)

section \<open>One notification per event and device\<close>

lemma Enqueue_created:
  assumes "Enqueue s r now = (s1, e, True, x)"
  shows "e = enqueue_defaults now r" "mget (dd_Records s1) (dr_ID r) = Some e" "x = None"
  using assms
  by (auto simp: Enqueue_def Let_def delivery_persistLocked_def split: option.splits if_splits)

lemma Enqueue_existing:
  assumes inv: "delivery_inv s" and get: "mget (dd_Records s) k = Some e"
    and same: "dr_InstallationID r = dr_InstallationID e" "dr_EventID r = dr_EventID e"
    and keep: "keep_delivery now (expire_delivery now e)"
  shows "Enqueue s r now = (cleanupLocked now s, expire_delivery now e, False, None)"
proof -
  let ?s = "cleanupLocked now s" and ?e = "expire_delivery now e"
  have got: "mget (dd_Records ?s) k = Some ?e" using cleanup_get_record [OF inv get keep] .
  have inv': "delivery_inv ?s" by (rule cleanupLocked_inv [OF inv])
  have "find (\<lambda>q. dr_InstallationID q = dr_InstallationID r \<and> dr_EventID q = dr_EventID r)
      (map snd (dd_Records ?s)) = Some ?e"
  proof (rule find_unique)
    show "?e \<in> set (map snd (dd_Records ?s))" using mget_in_set [OF got] by force
    show "y = ?e" if y: "y \<in> set (map snd (dd_Records ?s))"
        and t: "dr_InstallationID y = dr_InstallationID r \<and> dr_EventID y = dr_EventID r" for y
    proof -
      obtain k' where "mget (dd_Records ?s) k' = Some y"
        using y delivery_invD(2) [OF inv'] by (auto simp: mget_iff)
      moreover have "k' = k"
        using calculation got t same delivery_invD(1) [OF inv'] unfolding records_ok_def by auto
      ultimately show ?thesis using got by simp
    qed
  qed (simp add: same)
  thus ?thesis by (simp add: Enqueue_def Let_def)
qed

lemma keep_within_week:
  assumes "time_sub now (dr_CreatedAt r) \<le> 7 * 24 * hour" and "dr_Status r \<noteq> DeliveryStatusAcked"
  shows "keep_delivery now (expire_delivery now r)"
  using assms by (auto simp: keep_delivery_def expire_delivery_def status_defs)

text \<open>C4: A notification for an event is queued once per device. After a successful enqueue, a
  second enqueue for the same event and device within a week (as the retry of an EventSub item
  makes it, with a fresh delivery id) creates nothing and answers with the entry already
  queued, whose content is the first one's.\<close>

theorem enqueue_once_per_device:
  assumes "delivery_inv s" and "dr_Status r = DeliveryStatusPending"
    and "Enqueue s r now = (s1, e, True, x)"
    and "dr_InstallationID r' = dr_InstallationID r" and "dr_EventID r' = dr_EventID r"
    and "time_sub now' (dr_CreatedAt e) \<le> 7 * 24 * hour"
  shows "\<exists>s2 e'. Enqueue s1 r' now' = (s2, e', False, None) \<and> dr_ID e' = dr_ID r \<and>
           dr_Notification e' = dr_Notification r \<and>
           mkeys (dd_Records s2) \<subseteq> mkeys (dd_Records s1)"
proof -
  have e: "e = enqueue_defaults now r" "mget (dd_Records s1) (dr_ID r) = Some e"
    using Enqueue_created [OF assms(3)] by auto
  have inv1: "delivery_inv s1"
    using Enqueue_inv [OF assms(1), of r now] assms(2,3) by (simp add: delivery_statuses_def)
  have st: "dr_Status e = DeliveryStatusPending" "dr_Notification e = dr_Notification r"
    using assms(2) by (auto simp: e(1) enqueue_defaults_def Let_def status_defs)
  have "Enqueue s1 r' now' = (cleanupLocked now' s1, expire_delivery now' e, False, None)"
    using assms(4,5) e(1) st(1) keep_within_week [OF assms(6)]
    by (intro Enqueue_existing [OF inv1 e(2)]) (auto simp: status_defs)
  moreover have "mkeys (dd_Records (cleanupLocked now' s1)) \<subseteq> mkeys (dd_Records s1)"
    by (force simp: cleanupLocked_within [OF inv1] mfilter_def mupdate_def)
  ultimately show ?thesis using st(2) e(1) by (auto simp: expire_delivery_def)
qed

definition example_delivery :: "string \<Rightarrow> DeliveryRecord" where
  "example_delivery i = empty_DeliveryRecord\<lparr> dr_ID := i, dr_EventID := ''e1'',
     dr_InstallationID := ''i1'', dr_Status := DeliveryStatusPending, dr_CreatedAt := 10,
     dr_AvailableAt := 10, dr_ExpiresAt := 3600 \<rparr>"

theorem enqueue_once_per_device_witness:
  "\<exists>s1 e x s2 e'. Enqueue newMemoryDeliveryStore (example_delivery ''d1'') 10 = (s1, e, True, x) \<and>
     Enqueue s1 (example_delivery ''d2'') 20 = (s2, e', False, None) \<and> dr_ID e' = ''d1''"
proof -
  let ?s1 = "newMemoryDeliveryStore\<lparr> dd_Records := [(''d1'', example_delivery ''d1'')] \<rparr>"
  have first: "Enqueue newMemoryDeliveryStore (example_delivery ''d1'') 10 =
      (?s1, example_delivery ''d1'', True, None)"
    by (simp add: Enqueue_def Let_def newMemoryDeliveryStore_def example_delivery_def cleanupLocked_def
        cleanupSeenLocked_def mfilter_def mupdate_def delivery_room_def MaxDeliveryRecords_def
        enqueue_defaults_def is_zero_def status_defs delivery_persistLocked_def empty_DeliveryRecord_def)
  show ?thesis
    using enqueue_once_per_device [OF delivery_inv_init _ first, of "example_delivery ''d2''" 20] first
    by (auto simp: example_delivery_def time_sub_def int64_max_def hour_def minute_def second_def)
qed

section \<open>What is handed out\<close>

interpretation pending_order: slice_order
  "\<lambda>a b. if dr_CreatedAt a = dr_CreatedAt b then dr_ID a < dr_ID b else dr_CreatedAt a < dr_CreatedAt b"
  by unfold_locales (auto split: if_splits)

interpretation list_order: slice_order
  "\<lambda>a b. if dr_CreatedAt a = dr_CreatedAt b then dr_ID a > dr_ID b else dr_CreatedAt a > dr_CreatedAt b"
  by unfold_locales (auto split: if_splits)

interpretation inbox_order: slice_order
  "\<lambda>a b. if ib_ReceivedAt a = ib_ReceivedAt b then ib_MessageID a < ib_MessageID b
         else ib_ReceivedAt a < ib_ReceivedAt b"
  by unfold_locales (auto split: if_splits)


section \<open>Retries\<close>

lemma retryDelay_power:
  assumes "1 \<le> n" and "n \<le> 7"
  shows "retryDelay (int n) = 2 ^ (n - 1) * second"
proof -
  have "nat (int n - 1) = n - 1" using assms by simp
  thus ?thesis using assms by (auto simp: retryDelay_def minInt_def Let_def)
qed

lemma retryDelay_bounds: "second \<le> retryDelay n \<and> retryDelay n \<le> 64 * second"
proof -
  have "(2::int) ^ k \<le> 2 ^ 6" if "k \<le> 6" for k :: nat using that by (rule power_increasing) simp
  moreover have "nat (minInt m 6) \<le> 6" for m by (auto simp: minInt_def)
  ultimately have "(2::int) ^ nat (minInt m 6) \<le> 64" for m by fastforce
  thus ?thesis by (simp add: retryDelay_def Let_def second_def)
qed

lemma MarkFailed_get:
  assumes "mget (dd_Records s) k = Some r" and "dr_AttemptCount r = int n" and "n < 8"
    and "t < dr_ExpiresAt r"
  shows "\<exists>r'. mget (dd_Records (fst (MarkFailed s k e t))) k = Some r' \<and>
    dr_AttemptCount r' = int (Suc n) \<and> dr_ExpiresAt r' = dr_ExpiresAt r \<and>
    (if Suc n = 8 then dr_Status r' = DeliveryStatusDead
     else dr_Status r' = DeliveryStatusPending \<and> dr_AvailableAt r' = t + 2 ^ n * second)"
proof -
  have "wrap64 (int n + 1) = int (Suc n)" using assms(3) by (simp add: wrap64_id int64_max_def)
  thus ?thesis using assms retryDelay_power [of "Suc n"]
    by (auto simp: MarkFailed_def Let_def)
qed

text \<open>C13: A notification that keeps failing is retried with doubling delays and then given up.
  After the n-th failure, n from 1 to 7, it is pending again and available 2^(n-1) seconds
  after that failure (1, 2, 4, 8, 16, 32, 64); after the eighth it is dead.\<close>

theorem failing_delivery_schedule:
  assumes "mget (dd_Records s) k = Some r" and "dr_AttemptCount r = 0"
    and "\<forall>t \<in> set ts. t < dr_ExpiresAt r" and "ts \<noteq> []" and "length ts \<le> 8"
  shows "\<exists>r'. mget (dd_Records (foldl (\<lambda>s t. fst (MarkFailed s k e t)) s ts)) k = Some r' \<and>
    dr_AttemptCount r' = int (length ts) \<and>
    (if length ts = 8 then dr_Status r' = DeliveryStatusDead
     else dr_Status r' = DeliveryStatusPending \<and>
          dr_AvailableAt r' = last ts + 2 ^ (length ts - 1) * second)"
proof -
  have "\<exists>r'. mget (dd_Records (foldl (\<lambda>s t. fst (MarkFailed s k e t)) s ts)) k = Some r' \<and>
    dr_AttemptCount r' = int (length ts) \<and> dr_ExpiresAt r' = dr_ExpiresAt r \<and>
    (ts \<noteq> [] \<longrightarrow> (if length ts = 8 then dr_Status r' = DeliveryStatusDead
     else dr_Status r' = DeliveryStatusPending \<and>
          dr_AvailableAt r' = last ts + 2 ^ (length ts - 1) * second))"
    using assms(1-3,5)
  proof (induction ts rule: rev_induct)
    case (snoc t ts)
    let ?s = "foldl (\<lambda>s t. fst (MarkFailed s k e t)) s ts"
    obtain r1 where "mget (dd_Records ?s) k = Some r1" "dr_AttemptCount r1 = int (length ts)"
        "dr_ExpiresAt r1 = dr_ExpiresAt r"
      using snoc by auto
    thus ?case using MarkFailed_get [of ?s k r1 "length ts" t e] snoc.prems by auto
  qed simp
  thus ?thesis using assms(4) by auto
qed

theorem failing_delivery_schedule_witness:
  "\<exists>r'. mget (dd_Records (foldl (\<lambda>s t. fst (MarkFailed s ''d1'' ''timeout'' t))
        (newMemoryDeliveryStore\<lparr> dd_Records := [(''d1'', example_delivery ''d1'')] \<rparr>)
        [100, 200, 300])) ''d1'' = Some r' \<and>
     dr_AttemptCount r' = 3 \<and> dr_Status r' = DeliveryStatusPending \<and> dr_AvailableAt r' = 300 + 4 * second"
  using failing_delivery_schedule
    [of "newMemoryDeliveryStore\<lparr> dd_Records := [(''d1'', example_delivery ''d1'')] \<rparr>"
      "''d1''" "example_delivery ''d1''" "[100, 200, 300]" "''timeout''"]
  by (simp add: example_delivery_def empty_DeliveryRecord_def)

section \<open>Nothing pending is dropped\<close>

fun delivery_clock :: "delivery_op \<Rightarrow> gotime option" where
  "delivery_clock (DEnqueue r now) = Some now"
| "delivery_clock (DCleanup now) = Some now"
| "delivery_clock _ = None"

fun acknowledges :: "delivery_op \<Rightarrow> DeliveryRecord \<Rightarrow> bool" where
  "acknowledges (DAck inst ev t) r = (inst = dr_InstallationID r \<and> ev = dr_EventID r)"
| "acknowledges (DAckThrough inst ev t) r = (inst = dr_InstallationID r)"
| "acknowledges _ r = False"

lemma unexpired_kept:
  "now < dr_ExpiresAt r \<Longrightarrow> \<not> delivery_done r \<Longrightarrow>
   expire_delivery now r = r \<and> keep_delivery now r"
  by (simp add: expire_delivery_def keep_delivery_def delivery_done_def)

lemma cleanup_keeps_unexpired:
  "delivery_inv s \<Longrightarrow> mget (dd_Records s) k = Some r \<Longrightarrow> now < dr_ExpiresAt r \<Longrightarrow>
   \<not> delivery_done r \<Longrightarrow> mget (dd_Records (cleanupLocked now s)) k = Some r"
  using cleanup_get_record [of s k r now] unexpired_kept [of now r] by simp

lemma Enqueue_keeps_unexpired:
  assumes "delivery_inv s" and "mget (dd_Records s) k = Some r" and "now < dr_ExpiresAt r"
    and "\<not> delivery_done r" and "dr_ID q \<noteq> k"
  shows "mget (dd_Records (fst (Enqueue s q now))) k = Some r"
  using cleanup_keeps_unexpired [OF assms(1-4)]
    room_keeps_pending [OF cleanupLocked_inv [OF assms(1)], of now k r] assms(4,5)
  by (auto simp: Enqueue_def Let_def split: option.splits)

text \<open>C14: A pending notification is not lost. As long as an entry is neither acknowledged nor
  dead nor expired, no operation removes it but the deletion of its device's queue (and the
  overwriting of its id by an entry with the same one); it keeps its target and content, and
  it only becomes acknowledged or dead by an acknowledgement of its device or by a failed
  attempt of its own.\<close>

theorem pending_delivery_kept:
  assumes "delivery_inv s" and "mget (dd_Records s) k = Some r" and "\<not> delivery_done r"
    and "\<forall>now. delivery_clock x = Some now \<longrightarrow> now < dr_ExpiresAt r"
    and "x \<noteq> DDeleteForInstallation (dr_InstallationID r)"
    and "\<forall>q now. x = DEnqueue q now \<longrightarrow> dr_ID q \<noteq> k"
  shows "\<exists>r'. mget (dd_Records (delivery_step s x)) k = Some r' \<and>
    dr_InstallationID r' = dr_InstallationID r \<and> dr_EventID r' = dr_EventID r \<and>
    dr_Notification r' = dr_Notification r \<and>
    (delivery_done r' \<longrightarrow> acknowledges x r \<or> (\<exists>e t. x = DMarkFailed k e t))"
proof (cases x)
  case (DEnqueue q now)
  thus ?thesis using assms Enqueue_keeps_unexpired [of s k r now q] by auto
next
  case (DCleanup now)
  thus ?thesis using assms cleanup_keeps_unexpired [of s k r now] by (simp add: Cleanup_def Let_def)
next
  case (DMarkSent i t)
  thus ?thesis using assms(2,3)
    by (auto simp: MarkSent_def Let_def delivery_done_def status_defs split: option.splits)
next
  case (DMarkFailed i e t)
  thus ?thesis using assms(2,3) by (auto simp: MarkFailed_def Let_def split: option.splits)
next
  case (DAckThrough inst ev t)
  thus ?thesis using assms(2,3) by (auto simp: AckThrough_def Let_def ack_record_def)
next
  case (DAck inst ev t)
  thus ?thesis using assms(2,3) by (auto simp: Ack_def Let_def ack_record_def)
next
  case (DDeleteForInstallation inst)
  thus ?thesis using assms(2,3,5) delivery_invD(2) [OF assms(1)]
    by (auto simp: DeleteForInstallation_def Let_def mfilter_get)
next
  case (DEnqueueEventSub m env now)
  thus ?thesis using assms(2,3)
    by (auto simp: EnqueueEventSub_def Let_def delivery_persistLocked_def split: option.splits)
next
  case (DCompleteEventSub m t)
  thus ?thesis using assms(2,3)
    by (auto simp: CompleteEventSub_def Let_def delivery_persistLocked_def split: option.splits)
next
  case (DMarkEventSubFailed m e t)
  thus ?thesis using assms(2,3) by (auto simp: MarkEventSubFailed_def Let_def split: option.splits)
next
  case (DRetryEventSub m now)
  thus ?thesis using assms(2,3) by (auto simp: RetryEventSub_def Let_def split: option.splits)
next
  case (DSeenEventSub m now ttl)
  thus ?thesis using assms(2,3) by (auto simp: SeenEventSub_def Let_def delivery_persistLocked_def)
next
  case (DSaveChannelState c t g now)
  thus ?thesis using assms(2,3)
    by (auto simp: SaveChannelState_def Let_def delivery_persistLocked_def)
next
  case (DUpdateChannelState c t g now)
  thus ?thesis using assms(2,3)
    by (auto simp: UpdateChannelState_def ChannelStateChanges_def SaveChannelState_def Let_def
        delivery_persistLocked_def split: option.splits)
qed (use assms(2,3) in \<open>auto simp: HasSeenEventSub_def ForgetEventSub_def Let_def\<close>)

theorem pending_delivery_kept_witness:
  "\<exists>r'. mget (dd_Records (delivery_step
        (newMemoryDeliveryStore\<lparr> dd_Records := [(''d1'', example_delivery ''d1'')] \<rparr>) (DCleanup 3599))) ''d1'' = Some r' \<and>
     \<not> delivery_done r'"
proof -
  let ?s = "newMemoryDeliveryStore\<lparr> dd_Records := [(''d1'', example_delivery ''d1'')] \<rparr>"
  have "delivery_inv ?s"
    by (simp add: delivery_inv_def newMemoryDeliveryStore_def records_ok_def record_wf_def inbox_ok_def
        example_delivery_def delivery_statuses_def MaxDeliveryRecords_def empty_DeliveryRecord_def)
  thus ?thesis
    using pending_delivery_kept [of ?s "''d1''" "example_delivery ''d1''" "DCleanup 3599"]
    by (auto simp: example_delivery_def delivery_done_def status_defs)
qed

section \<open>EventSub messages\<close>

text \<open>C15: A completed EventSub message is not processed again. Once a queued message is
  completed, it is out of the inbox, and a redelivery of it within 24 hours is accepted without
  creating an inbox entry.\<close>

theorem completed_message_not_requeued:
  assumes "mget (dd_EventSubInbox s) m \<noteq> None" and "trimSpace m = m" and "m \<noteq> ''''"
    and "CompleteEventSub s m t = (s1, x)" and "wf_map (dd_Seen s1)"
    and "time_sub now t \<le> 24 * hour"
  shows "\<exists>s2. EnqueueEventSub s1 m env now = (s2, empty_EventSubInboxRecord, False, None) \<and>
           mget (dd_EventSubInbox s2) m = None"
proof -
  obtain r where "mget (dd_EventSubInbox s) m = Some r" using assms(1) by blast
  hence s1: "s1 = addSeenEventSubLocked m t (s\<lparr> dd_EventSubInbox := mdel m (dd_EventSubInbox s) \<rparr>)"
    using assms(4) by (auto simp: CompleteEventSub_def Let_def delivery_persistLocked_def)
  have "mget (dd_Seen (cleanupSeenLocked now (24 * hour) s1)) m = Some t"
    using assms(5,6) addSeen_get [of m t] by (simp add: cleanupSeenLocked_def mfilter_get s1)
  thus ?thesis using assms(2,3) by (simp add: EnqueueEventSub_def Let_def s1)
qed

definition example_inbox :: DeliveryDiskState where
  "example_inbox = newMemoryDeliveryStore\<lparr> dd_EventSubInbox :=
     [(''m1'', new_inbox_record ''m1'' empty_EventSubEnvelope 10)] \<rparr>"

lemma trimSpace_m1: "trimSpace ''m1'' = ''m1''"
  by (simp add: trimSpace_def trimLeft_def trimRight_def strip.simps ws_runes_def)

theorem completed_message_not_requeued_witness:
  "\<exists>s2. EnqueueEventSub (fst (CompleteEventSub example_inbox ''m1'' 20)) ''m1'' empty_EventSubEnvelope 30 =
     (s2, empty_EventSubInboxRecord, False, None) \<and> mget (dd_EventSubInbox s2) ''m1'' = None"
proof -
  have comp: "CompleteEventSub example_inbox ''m1'' 20 =
      (newMemoryDeliveryStore\<lparr> dd_Seen := [(''m1'', 20)] \<rparr>, None)"
    by (simp add: CompleteEventSub_def example_inbox_def newMemoryDeliveryStore_def Let_def
        addSeenEventSubLocked_def MaxSeenEventRecords_def delivery_persistLocked_def)
  show ?thesis unfolding comp fst_conv
    using completed_message_not_requeued [OF _ trimSpace_m1 _ comp, of 30 empty_EventSubEnvelope]
    by (simp add: example_inbox_def time_sub_def int64_max_def hour_def minute_def second_def)
qed

lemma inbox_unexpired_kept:
  "now < ib_ExpiresAt r \<Longrightarrow> ib_Status r \<noteq> EventSubInboxStatusDead \<Longrightarrow>
   expire_inbox now r = r \<and> keep_inbox now r"
  by (simp add: expire_inbox_def keep_inbox_def)

lemma cleanup_keeps_inbox:
  "delivery_inv s \<Longrightarrow> mget (dd_EventSubInbox s) k = Some r \<Longrightarrow> now < ib_ExpiresAt r \<Longrightarrow>
   ib_Status r \<noteq> EventSubInboxStatusDead \<Longrightarrow> mget (dd_EventSubInbox (cleanupLocked now s)) k = Some r"
  using cleanup_get_inbox [of s k r now] inbox_unexpired_kept [of now r] by simp

lemma Enqueue_keeps_inbox:
  assumes "delivery_inv s" and "mget (dd_EventSubInbox s) k = Some r" and "now < ib_ExpiresAt r"
    and "ib_Status r \<noteq> EventSubInboxStatusDead"
  shows "mget (dd_EventSubInbox (fst (Enqueue s q now))) k = Some r"
  using cleanup_keeps_inbox [OF assms] by (auto simp: Enqueue_def Let_def split: option.splits)

lemma EnqueueEventSub_keeps_inbox:
  assumes "delivery_inv s" and "mget (dd_EventSubInbox s) k = Some r"
    and "ib_Status r \<noteq> EventSubInboxStatusDead"
  shows "mget (dd_EventSubInbox (fst (EnqueueEventSub s m env now))) k = Some r"
proof -
  let ?s = "cleanupSeenLocked now (24 * hour) s"
  have "mget (dd_EventSubInbox (inbox_room ?s)) k = Some r"
    using assms by (intro room_keeps_inbox) (auto simp: cleanupSeenLocked_inv)
  thus ?thesis using assms(2)
    by (auto simp: EnqueueEventSub_def Let_def delivery_persistLocked_def split: option.splits)
qed

text \<open>C16: A received EventSub message is not lost before it is processed. While a queued
  message is pending and not expired, no operation other than its completion removes it from
  the inbox; its envelope is kept, and it only becomes dead by a failed attempt of its own.\<close>

theorem pending_message_kept:
  assumes "delivery_inv s" and "mget (dd_EventSubInbox s) m = Some r"
    and "ib_Status r = EventSubInboxStatusPending"
    and "\<forall>now. delivery_clock x = Some now \<longrightarrow> now < ib_ExpiresAt r"
    and "\<forall>t. x \<noteq> DCompleteEventSub m t"
  shows "\<exists>r'. mget (dd_EventSubInbox (delivery_step s x)) m = Some r' \<and>
    ib_Envelope r' = ib_Envelope r \<and>
    (ib_Status r' = EventSubInboxStatusPending \<or> (\<exists>e t. x = DMarkEventSubFailed m e t))"
proof -
  have nd: "ib_Status r \<noteq> EventSubInboxStatusDead" using assms(3) by (simp add: status_defs)
  show ?thesis
  proof (cases x)
    case (DEnqueue q now)
    thus ?thesis using assms Enqueue_keeps_inbox [OF assms(1,2) _ nd, of now q] by auto
  next
    case (DCleanup now)
    thus ?thesis using assms cleanup_keeps_inbox [OF assms(1,2) _ nd, of now]
      by (simp add: Cleanup_def Let_def)
  next
    case (DMarkSent i t)
    thus ?thesis using assms(2,3) by (auto simp: MarkSent_def Let_def split: option.splits)
  next
    case (DMarkFailed i e t)
    thus ?thesis using assms(2,3) by (auto simp: MarkFailed_def Let_def split: option.splits)
  next
    case (DEnqueueEventSub m' env now)
    thus ?thesis using EnqueueEventSub_keeps_inbox [OF assms(1,2) nd, of m' env now] assms(3) by simp
  next
    case (DCompleteEventSub m' t)
    thus ?thesis using assms(2,3,5)
      by (auto simp: CompleteEventSub_def Let_def delivery_persistLocked_def split: option.splits)
  next
    case (DMarkEventSubFailed m' e t)
    thus ?thesis using assms(2,3) by (auto simp: MarkEventSubFailed_def Let_def split: option.splits)
  next
    case (DRetryEventSub m' now)
    thus ?thesis using assms(2,3) by (auto simp: RetryEventSub_def Let_def split: option.splits)
  next
    case (DSeenEventSub m' now ttl)
    thus ?thesis using assms(2,3) by (auto simp: SeenEventSub_def Let_def delivery_persistLocked_def)
  next
    case (DSaveChannelState c t g now)
    thus ?thesis using assms(2,3)
      by (auto simp: SaveChannelState_def Let_def delivery_persistLocked_def)
  next
    case (DUpdateChannelState c t g now)
    thus ?thesis using assms(2,3)
      by (auto simp: UpdateChannelState_def ChannelStateChanges_def SaveChannelState_def Let_def
          delivery_persistLocked_def split: option.splits)
  qed (use assms(2,3) in \<open>auto simp: HasSeenEventSub_def ForgetEventSub_def AckThrough_def Ack_def
        DeleteForInstallation_def Let_def\<close>)
qed

theorem pending_message_kept_witness:
  "\<exists>r'. mget (dd_EventSubInbox (delivery_step example_inbox (DCleanup 3600))) ''m1'' = Some r' \<and>
     ib_Status r' = EventSubInboxStatusPending"
proof -
  have "delivery_inv example_inbox"
    by (simp add: delivery_inv_def example_inbox_def newMemoryDeliveryStore_def records_ok_def
        inbox_ok_def inbox_wf_def new_inbox_record_def MaxEventSubInboxRecords_def)
  thus ?thesis
    using pending_message_kept [of example_inbox "''m1''" "new_inbox_record ''m1'' empty_EventSubEnvelope 10"
        "DCleanup 3600"]
    by (auto simp: example_inbox_def new_inbox_record_def hour_def minute_def second_def)
qed

text \<open>Which message the full deduplication memory forgets: one not younger than any other.\<close>

lemma oldest_seen_minimal:
  assumes "'''' \<notin> mkeys m" and "m \<noteq> []"
  shows "oldest_seen m \<in> set m \<and> (\<forall>q \<in> set m. snd (oldest_seen m) \<le> snd q)"
  using assms
proof (induction m rule: rev_induct)
  case (snoc x m)
  show ?case
  proof (cases "m = []")
    case False
    have ih: "oldest_seen m \<in> set m" "\<forall>q \<in> set m. snd (oldest_seen m) \<le> snd q"
      using snoc False by auto
    hence "fst (oldest_seen m) \<noteq> ''''" using snoc.prems by force
    moreover have "oldest_seen (m @ [x]) = older (oldest_seen m) x" by (simp add: oldest_seen_def)
    ultimately show ?thesis using ih by (auto simp: older_def)
  qed (simp add: oldest_seen_def older_def)
qed simp

text \<open>When the deduplication memory is full, remembering a message forgets an oldest one:
  no message still remembered has an earlier time than one that was dropped.\<close>

lemma full_memory_forgets_oldest:
  assumes "delivery_inv s" and "length (dd_Seen s) = MaxSeenEventRecords" and "'''' \<notin> mkeys (dd_Seen s)"
    and "mget (dd_Seen s) k = Some t" and "mget (dd_Seen (addSeenEventSubLocked m now s)) k = None"
    and "mget (dd_Seen (addSeenEventSubLocked m now s)) k' = Some t'" and "k' \<noteq> m"
  shows "t \<le> t'"
proof -
  let ?p = "oldest_seen (dd_Seen s)"
  have ne: "dd_Seen s \<noteq> []" using assms(2) by (auto simp: MaxSeenEventRecords_def)
  note min = oldest_seen_minimal [OF assms(3) ne]
  have wf: "wf_map (dd_Seen s)" by (rule delivery_invD(4) [OF assms(1)])
  have add: "dd_Seen (addSeenEventSubLocked m now s) = mput m now (mdel (fst ?p) (dd_Seen s))"
    using assms(2) by (simp add: addSeenEventSubLocked_def)
  have "k = fst ?p" using assms(4,5) unfolding add by (auto split: if_splits)
  hence "t = snd ?p" using min assms(4) mget_iff [OF wf, of "fst ?p" "snd ?p"] by simp
  moreover have "(k', t') \<in> set (dd_Seen s)"
    using assms(6,7) unfolding add by (auto split: if_splits dest: mget_in_set)
  ultimately show ?thesis using min by fastforce
qed

section \<open>An acknowledgement overtaken by the sender\<close>

text \<open>C18: An acknowledgement of an embedded-socket device that arrives between the write of the
  notification and the sender's \<^verbatim>\<open>MarkSent\<close> is undone by it: the entry is in state sent
  again, and is handed out once more when its retry delay is over.\<close>

theorem ack_before_mark_sent_is_lost:
  assumes "delivery_inv s" and "mget (dd_Records s) k = Some r"
    and "t2 + retryDelay (wrap64 (dr_AttemptCount r + 1)) \<le> now" and "now < dr_ExpiresAt r"
  shows "\<exists>r'. r' \<in> set (filter (delivery_due (dr_InstallationID r) now) (map snd (dd_Records
      (fst (MarkSent (fst (Ack s (dr_InstallationID r) (dr_EventID r) t1)) k t2))))) \<and> dr_ID r' = dr_ID r"
proof -
  let ?s1 = "fst (Ack s (dr_InstallationID r) (dr_EventID r) t1)"
  have "mget (dd_Records ?s1) k = Some (ack_record t1 r)"
    using assms(2) by (auto simp: Ack_def Let_def)
  hence "\<exists>r'. mget (dd_Records (fst (MarkSent ?s1 k t2))) k = Some r' \<and> dr_Status r' = DeliveryStatusSent \<and>
      dr_ID r' = dr_ID r \<and> dr_InstallationID r' = dr_InstallationID r \<and> dr_ExpiresAt r' = dr_ExpiresAt r \<and>
      dr_AvailableAt r' = t2 + retryDelay (wrap64 (dr_AttemptCount r + 1))"
    by (auto simp: MarkSent_def Let_def ack_record_def)
  then obtain r' where r': "mget (dd_Records (fst (MarkSent ?s1 k t2))) k = Some r'"
      "dr_Status r' = DeliveryStatusSent" "dr_ID r' = dr_ID r" "dr_InstallationID r' = dr_InstallationID r"
      "dr_ExpiresAt r' = dr_ExpiresAt r"
      "dr_AvailableAt r' = t2 + retryDelay (wrap64 (dr_AttemptCount r + 1))" by blast
  have "r' \<in> set (map snd (dd_Records (fst (MarkSent ?s1 k t2))))"
    using mget_in_set [OF r'(1)] by force
  moreover have "delivery_due (dr_InstallationID r) now r'"
    using r' assms(3,4) by (simp add: delivery_due_def delivery_done_def status_defs)
  ultimately show ?thesis using r'(3) by auto
qed

theorem ack_before_mark_sent_is_lost_witness:
  "\<exists>r'. r' \<in> set (filter (delivery_due ''i1'' (2 * second)) (map snd (dd_Records
      (fst (MarkSent (fst (Ack (newMemoryDeliveryStore\<lparr> dd_Records := [(''d1'', (example_delivery ''d1'')
          \<lparr> dr_ExpiresAt := hour \<rparr>)] \<rparr>) ''i1'' ''e1'' 20)) ''d1'' 30))))) \<and> dr_ID r' = ''d1''"
proof -
  let ?r = "(example_delivery ''d1'')\<lparr> dr_ExpiresAt := hour \<rparr>"
  let ?s = "newMemoryDeliveryStore\<lparr> dd_Records := [(''d1'', ?r)] \<rparr>"
  have "delivery_inv ?s"
    by (simp add: delivery_inv_def newMemoryDeliveryStore_def records_ok_def record_wf_def inbox_ok_def
        example_delivery_def delivery_statuses_def MaxDeliveryRecords_def empty_DeliveryRecord_def)
  moreover have "retryDelay (wrap64 1) = second"
    by (simp add: wrap64_id int64_max_def retryDelay_def minInt_def)
  ultimately show ?thesis
    using ack_before_mark_sent_is_lost [of ?s "''d1''" ?r 30 "2 * second" 20]
    by (simp add: example_delivery_def empty_DeliveryRecord_def hour_def minute_def second_def)
qed

end
