(* ===== verification/Rate_Limiter.thy ===== *)
theory Rate_Limiter
  imports Go_Float Go_Strings
begin

text \<open>
  The token-bucket rate limiter of \<^verbatim>\<open>internal/application/rate_limit.go\<close>: buckets per policy and
  key, refilled at the policy's rate, with a bounded number of keys. Token counts are floats as
  in theory \<open>Go_Float\<close>; \<open>now\<close> is the reading of the limiter's clock. A nil limiter is
  \<^term>\<open>None\<close>.
\<close>

section \<open>Types\<close>

definition rateLimitAuditInterval :: duration where "rateLimitAuditInterval = minute"
definition eventSubInvalidPerMinute :: int where "eventSubInvalidPerMinute = 30"
definition eventSubInvalidBurst :: int where "eventSubInvalidBurst = 5"
definition eventSubInvalidAuditPerMinute :: int where "eventSubInvalidAuditPerMinute = 60"
definition eventSubInvalidAuditBurst :: int where "eventSubInvalidAuditBurst = 10"

record rateLimitPolicy =
  pl_name :: string
  pl_perMinute :: int
  pl_burst :: int

record rateLimitDecision =
  de_Allowed :: bool
  de_RetryAfter :: duration
  de_Limit :: int
  de_Remaining :: int
  de_Audit :: bool

record rateLimitBucket =
  bu_tokens :: rat
  bu_updatedAt :: gotime
  bu_lastSeen :: gotime
  bu_lastBlockedAudit :: gotime

record rateLimiter =
  rl_buckets :: "(string, rateLimitBucket) gomap"
  rl_maxKeys :: int
  rl_idleTTL :: duration
  rl_operations :: int

definition allowed_decision :: rateLimitDecision where
  "allowed_decision = \<lparr> de_Allowed = True, de_RetryAfter = 0, de_Limit = 0, de_Remaining = 0, de_Audit = False \<rparr>"

definition newRateLimiter :: "int \<Rightarrow> duration \<Rightarrow> rateLimiter" where
  "newRateLimiter maxKeys idleTTL =
     \<lparr> rl_buckets = [], rl_maxKeys = (if maxKeys \<le> 0 then 50000 else maxKeys),
       rl_idleTTL = (if idleTTL \<le> 0 then 30 * minute else idleTTL), rl_operations = 0 \<rparr>"

section \<open>Eviction\<close>

text \<open>The inner loop that looks for the key seen longest ago; the empty key stands for none.\<close>

definition oldest_step :: "string \<times> gotime \<Rightarrow> string \<times> rateLimitBucket \<Rightarrow> string \<times> gotime" where
  "oldest_step acc kb = (case (acc, kb) of ((oldestKey, oldest), (key, bucket)) \<Rightarrow>
     if oldestKey = '''' \<or> bu_lastSeen bucket < oldest then (key, bu_lastSeen bucket) else acc)"

definition oldest_bucket :: "(string, rateLimitBucket) gomap \<Rightarrow> string" where
  "oldest_bucket m = fst (foldl oldest_step ('''', 0) m)"

lemma oldest_fold_key: "fst (foldl oldest_step acc m) = fst acc \<or> fst (foldl oldest_step acc m) \<in> mkeys m"
proof (induction m arbitrary: acc)
  case (Cons kb m)
  have "fst (oldest_step acc kb) \<in> {fst acc, fst kb}" by (auto simp: oldest_step_def split: prod.splits)
  thus ?case using Cons [of "oldest_step acc kb"] by auto
qed simp

lemma oldest_bucket_key: "oldest_bucket m \<noteq> '''' \<Longrightarrow> oldest_bucket m \<in> mkeys m"
  using oldest_fold_key [of "('''', 0)" m] by (simp add: oldest_bucket_def)

lemma mdel_shorter: "k \<in> mkeys m \<Longrightarrow> length (mdel k m) < length m"
proof (induction m)
  case (Cons a m)
  thus ?case using length_delete_le [of k m] by (cases "fst a = k") (auto simp: less_Suc_eq_le)
qed simp

function evict :: "int \<Rightarrow> (string, rateLimitBucket) gomap \<Rightarrow> (string, rateLimitBucket) gomap" where
  "evict maxKeys m =
     (if int (length m) \<ge> maxKeys then
        (let oldestKey = oldest_bucket m
         in if oldestKey = '''' then m else evict maxKeys (mdel oldestKey m))
      else m)"
  by pat_completeness auto

termination evict
  by (relation "measure (\<lambda>(_, m). length m)") (auto intro: mdel_shorter oldest_bucket_key)

declare evict.simps [simp del]

definition rl_cleanupLocked :: "gotime \<Rightarrow> rateLimiter \<Rightarrow> rateLimiter" where
  "rl_cleanupLocked now l =
     (let cutoff = now - rl_idleTTL l;
          m = mfilter (\<lambda>_ bucket. \<not> bu_lastSeen bucket < cutoff) (rl_buckets l)
      in l\<lparr> rl_buckets := evict (rl_maxKeys l) m \<rparr>)"

section \<open>Taking a token\<close>

definition bucketKey :: "rateLimitPolicy \<Rightarrow> string \<Rightarrow> string" where
  "bucketKey policy key =
     (let key = trimSpace key; key = (if key = '''' then ''unknown'' else key)
      in pl_name policy @ [CHR 0x00] @ key)"

definition ratePerSecond :: "rateLimitPolicy \<Rightarrow> rat" where
  "ratePerSecond policy = fdiv (float_of_int (pl_perMinute policy)) 60"

definition refill :: "rateLimitPolicy \<Rightarrow> rateLimitBucket option \<Rightarrow> gotime \<Rightarrow> rateLimitBucket" where
  "refill policy b now =
     (let bucket = (case b of
            None \<Rightarrow> \<lparr> bu_tokens = float_of_int (pl_burst policy), bu_updatedAt = now, bu_lastSeen = now,
                       bu_lastBlockedAudit = 0 \<rparr>
          | Some bucket \<Rightarrow>
              if now > bu_updatedAt bucket then
                bucket\<lparr> bu_tokens := min (float_of_int (pl_burst policy))
                          (fadd (bu_tokens bucket)
                             (fmul (seconds (time_sub now (bu_updatedAt bucket))) (ratePerSecond policy))),
                        bu_updatedAt := now \<rparr>
              else bucket)
      in bucket\<lparr> bu_lastSeen := now \<rparr>)"

definition spend :: "rateLimitPolicy \<Rightarrow> gotime \<Rightarrow> rateLimitBucket \<Rightarrow> rateLimitBucket \<times> rateLimitDecision" where
  "spend policy now bucket =
     (let decision = \<lparr> de_Allowed = False, de_RetryAfter = 0, de_Limit = pl_perMinute policy,
                       de_Remaining = 0, de_Audit = False \<rparr>
      in if bu_tokens bucket \<ge> 1 then
           (let bucket = bucket\<lparr> bu_tokens := fsub (bu_tokens bucket) 1 \<rparr>
            in (bucket, decision\<lparr> de_Allowed := True, de_Remaining := \<lfloor>bu_tokens bucket\<rfloor> \<rparr>))
         else
           (let missing = fsub 1 (bu_tokens bucket);
                retryAfter = \<lceil>fmul (fdiv missing (ratePerSecond policy)) (float_of_int second)\<rceil>;
                retryAfter = (if retryAfter < second then second else retryAfter);
                decision = decision\<lparr> de_RetryAfter := retryAfter \<rparr>
            in if is_zero (bu_lastBlockedAudit bucket) \<or>
                  time_sub now (bu_lastBlockedAudit bucket) \<ge> rateLimitAuditInterval
               then (bucket\<lparr> bu_lastBlockedAudit := now \<rparr>, decision\<lparr> de_Audit := True \<rparr>)
               else (bucket, decision)))"

text \<open>The count of operations and the clean-up that comes with every 256th one and with a full
  table.\<close>

definition rl_tick :: "gotime \<Rightarrow> rateLimiter \<Rightarrow> rateLimiter" where
  "rl_tick now l =
     (let l = l\<lparr> rl_operations := (rl_operations l + 1) mod 2 ^ 64 \<rparr>
      in if rl_operations l mod 256 = 0 \<or> int (length (rl_buckets l)) \<ge> rl_maxKeys l
         then rl_cleanupLocked now l else l)"

definition unlimited :: "rateLimitPolicy \<Rightarrow> bool" where
  "unlimited policy \<longleftrightarrow> pl_perMinute policy \<le> 0 \<or> pl_burst policy \<le> 0"

definition rl_take :: "rateLimiter \<Rightarrow> rateLimitPolicy \<Rightarrow> string \<Rightarrow> gotime \<Rightarrow> rateLimiter \<times> rateLimitDecision" where
  "rl_take l policy key now =
     (if unlimited policy then (l, allowed_decision)
      else
        (let k = bucketKey policy key;
             l = rl_tick now l;
             (bucket, decision) = spend policy now (refill policy (mget (rl_buckets l) k) now)
         in (l\<lparr> rl_buckets := mput k bucket (rl_buckets l) \<rparr>, decision)))"

definition take_opt :: "rateLimiter option \<Rightarrow> rateLimitPolicy \<Rightarrow> string \<Rightarrow> gotime
    \<Rightarrow> rateLimiter option \<times> rateLimitDecision" where
  "take_opt l policy key now = (case l of
       None \<Rightarrow> (None, allowed_decision)
     | Some l \<Rightarrow> (let (l, d) = rl_take l policy key now in (Some l, d)))"

section \<open>The table of keys stays bounded\<close>

definition rl_inv :: "rateLimiter \<Rightarrow> bool" where
  "rl_inv l \<longleftrightarrow> wf_map (rl_buckets l) \<and> '''' \<notin> mkeys (rl_buckets l) \<and> 1 \<le> rl_maxKeys l \<and>
     int (length (rl_buckets l)) \<le> rl_maxKeys l"

lemma rl_inv_new: "rl_inv (newRateLimiter maxKeys ttl)"
  by (simp add: rl_inv_def newRateLimiter_def)

lemma oldest_fold_found:
  "'''' \<notin> mkeys m \<Longrightarrow> m \<noteq> [] \<or> fst acc \<noteq> '''' \<Longrightarrow> fst (foldl oldest_step acc m) \<noteq> ''''"
proof (induction m arbitrary: acc)
  case (Cons kb m)
  have "fst (oldest_step acc kb) \<noteq> ''''" using Cons.prems by (auto simp: oldest_step_def split: prod.splits)
  thus ?case using Cons.IH [of "oldest_step acc kb"] Cons.prems by simp
qed simp

lemma evict_props:
  assumes "wf_map m" and "'''' \<notin> mkeys m" and "1 \<le> n"
  shows "submap (evict n m) m \<and> int (length (evict n m)) < n"
  using assms
proof (induction n m rule: evict.induct)
  case (1 n m)
  show ?case
  proof (cases "int (length m) \<ge> n")
    case True
    hence "m \<noteq> []" using 1(4) by auto
    hence k: "oldest_bucket m \<noteq> ''''" using oldest_fold_found [of m] 1(3) by (simp add: oldest_bucket_def)
    have sub: "submap (mdel (oldest_bucket m) m) m" by (rule submap_mdel [OF 1(2)])
    have "'''' \<notin> mkeys (mdel (oldest_bucket m) m)" using 1(3) by (auto simp: mdel_set)
    hence "submap (evict n (mdel (oldest_bucket m) m)) (mdel (oldest_bucket m) m) \<and>
        int (length (evict n (mdel (oldest_bucket m) m))) < n"
      using 1(1) [OF True refl k] 1(2,4) by simp
    thus ?thesis using True k sub by (subst (1 2) evict.simps) (auto simp: Let_def intro: submap_trans)
  next
    case False
    thus ?thesis using 1(2) by (subst (1 2) evict.simps) (simp add: submap_refl)
  qed
qed

lemma mfilter_keys: "mkeys (mfilter P m) \<subseteq> mkeys m"
  using map_fst_mfilter_subset [of P m] by simp

lemma rl_cleanup_props:
  assumes "wf_map (rl_buckets l)" and "'''' \<notin> mkeys (rl_buckets l)" and "1 \<le> rl_maxKeys l"
  shows "submap (rl_buckets (rl_cleanupLocked now l)) (rl_buckets l) \<and>
    int (length (rl_buckets (rl_cleanupLocked now l))) < rl_maxKeys l"
proof -
  let ?m = "mfilter (\<lambda>_ bucket. \<not> bu_lastSeen bucket < now - rl_idleTTL l) (rl_buckets l)"
  have "'''' \<notin> mkeys ?m" using assms(2) mfilter_keys [of _ "rl_buckets l"] by blast
  hence "submap (evict (rl_maxKeys l) ?m) ?m \<and> int (length (evict (rl_maxKeys l) ?m)) < rl_maxKeys l"
    by (intro evict_props) (use assms in simp_all)
  thus ?thesis using submap_mfilter [OF assms(1)] by (auto simp: rl_cleanupLocked_def Let_def intro: submap_trans)
qed

lemma rl_tick_maxKeys [simp]: "rl_maxKeys (rl_tick now l) = rl_maxKeys l"
  by (simp add: rl_tick_def rl_cleanupLocked_def Let_def)

lemma rl_tick_props:
  assumes "rl_inv l"
  shows "submap (rl_buckets (rl_tick now l)) (rl_buckets l) \<and>
    int (length (rl_buckets (rl_tick now l))) < rl_maxKeys l"
  using assms rl_cleanup_props [of "l\<lparr> rl_operations := (rl_operations l + 1) mod 2 ^ 64 \<rparr>" now]
  by (auto simp: rl_tick_def Let_def rl_inv_def submap_refl)

lemma submap_keys: "submap m' m \<Longrightarrow> mkeys m' \<subseteq> mkeys m"
proof
  fix k assume s: "submap m' m" and "k \<in> mkeys m'"
  then obtain v where "mget m' k = Some v" by (auto simp: submap_def mget_iff)
  hence "mget m k = Some v" using s by (simp add: submap_def)
  thus "k \<in> mkeys m" using mget_in_set by force
qed

lemma bucketKey_nonempty [simp]: "bucketKey policy key \<noteq> ''''"
  by (simp add: bucketKey_def Let_def)

lemma rl_take_inv:
  assumes "rl_inv l"
  shows "rl_inv (fst (rl_take l policy key now))"
proof (cases "unlimited policy")
  case False
  let ?t = "rl_tick now l" and ?k = "bucketKey policy key"
  note t = rl_tick_props [OF assms, of now]
  have sub: "'''' \<notin> mkeys (rl_buckets ?t)" using submap_keys t assms unfolding rl_inv_def by blast
  have wf: "wf_map (rl_buckets ?t)" using t by (simp add: submap_def)
  define b where "b = fst (spend policy now (refill policy (mget (rl_buckets ?t) ?k) now))"
  have "rl_buckets (fst (rl_take l policy key now)) = mput ?k b (rl_buckets ?t)"
    "rl_maxKeys (fst (rl_take l policy key now)) = rl_maxKeys l"
    using False by (simp_all add: rl_take_def Let_def split_beta b_def)
  moreover have "int (length (mput ?k b (rl_buckets ?t))) \<le> rl_maxKeys l" using t by (simp add: length_mput)
  moreover have "'''' \<notin> mkeys (mput ?k b (rl_buckets ?t))"
    using sub mput_set [OF wf, of ?k b] bucketKey_nonempty [of policy key] by (auto simp del: bucketKey_nonempty)
  ultimately show ?thesis using assms mput_wf [OF wf] by (simp add: rl_inv_def)
qed (simp add: rl_take_def assms)

section \<open>What a bucket lets through\<close>

definition policy_ok :: "rateLimitPolicy \<Rightarrow> bool" where
  "policy_ok p \<longleftrightarrow> 0 < pl_perMinute p \<and> pl_perMinute p < 2 ^ 53 \<and> 0 < pl_burst p \<and> pl_burst p < 2 ^ 53"

abbreviation burst_of :: "rateLimitPolicy \<Rightarrow> rat" where "burst_of p \<equiv> of_int (pl_burst p)"

text \<open>The exact number of tokens the policy grants in a span of time.\<close>

definition granted :: "rateLimitPolicy \<Rightarrow> duration \<Rightarrow> rat" where
  "granted p d = of_int (pl_perMinute p) / 60 * (of_int d / 1000000000)"

lemma ulp_eps_pos [simp]: "0 < ulp_eps" "0 \<le> ulp_eps"
  by (simp_all add: ulp_eps_def)

lemma mult_mono4: "0 \<le> (a :: rat) \<Longrightarrow> 0 \<le> c \<Longrightarrow> a \<le> b \<Longrightarrow> c \<le> d \<Longrightarrow> a * c \<le> b * d"
  by (rule mult_mono) auto

lemma seconds_le:
  assumes "0 \<le> d" and "d < 2 ^ 63"
  shows "0 \<le> seconds d" "seconds d \<le> of_int d / 1000000000 * (1 + ulp_eps) ^ 2"
proof -
  let ?q = "d div second" and ?m = "d mod second"
  have q: "0 \<le> ?q" "?q < 2 ^ 53" and m: "0 \<le> ?m" "?m < 2 ^ 53"
  proof -
    have "0 < second" "second < 2 ^ 53" by (simp_all add: second_def)
    thus "0 \<le> ?m" "?m < 2 ^ 53" using pos_mod_sign [of second d] pos_mod_bound [of second d] by linarith+
    show "0 \<le> ?q" "?q < 2 ^ 53" using assms by (simp_all add: second_def)
  qed
  have ex: "float_of_int ?q = of_int ?q" "float_of_int ?m = of_int ?m" "float_of_int second = 1000000000"
    using float_of_int_exact q m float_of_int_exact [of second] by (simp_all add: second_def)
  define f where "f = fdiv (of_int ?m) (1000000000 :: rat)"
  have f: "0 \<le> f" "f \<le> of_int ?m / 1000000000 * (1 + ulp_eps)"
    unfolding f_def fdiv_def using m fl64_nonneg fl64_le [of "of_int ?m / 1000000000"] by simp_all
  have qn: "(0 :: rat) \<le> of_int ?q" using q by simp
  have s: "seconds d = fl64 (of_int ?q + f)" by (simp add: seconds_def ex fadd_def f_def)
  show "0 \<le> seconds d" unfolding s using f qn by (intro fl64_nonneg) simp
  have d: "d = ?q * 1000000000 + ?m" by (simp add: second_def)
  hence "(of_int d :: rat) = of_int ?q * 1000000000 + of_int ?m"
    by (metis of_int_add of_int_mult of_int_numeral)
  hence dq: "(of_int d :: rat) / 1000000000 = of_int ?q + of_int ?m / 1000000000" by simp
  have "of_int ?q + f \<le> of_int ?q * (1 + ulp_eps) + of_int ?m / 1000000000 * (1 + ulp_eps)"
  proof (rule add_mono [OF _ f(2)])
    show "(of_int ?q :: rat) \<le> of_int ?q * (1 + ulp_eps)"
      using mult_left_mono [OF _ qn, of 1 "1 + ulp_eps"] by simp
  qed
  also have "\<dots> = of_int d / 1000000000 * (1 + ulp_eps)" unfolding dq by (simp add: algebra_simps)
  finally have "of_int ?q + f \<le> of_int d / 1000000000 * (1 + ulp_eps)" .
  moreover have "seconds d \<le> (of_int ?q + f) * (1 + ulp_eps)" unfolding s using f qn by (intro fl64_le) simp
  ultimately have "seconds d \<le> of_int d / 1000000000 * (1 + ulp_eps) * (1 + ulp_eps)"
    by (meson mult_right_mono order_trans ulp_eps_pos(2) add_nonneg_nonneg zero_le_one)
  thus "seconds d \<le> of_int d / 1000000000 * (1 + ulp_eps) ^ 2" by (simp add: power2_eq_square algebra_simps)
qed

lemma ratePerSecond_le:
  assumes "policy_ok p"
  shows "0 \<le> ratePerSecond p" "ratePerSecond p \<le> of_int (pl_perMinute p) / 60 * (1 + ulp_eps)"
proof -
  have e: "float_of_int (pl_perMinute p) = of_int (pl_perMinute p)"
    using assms by (intro float_of_int_exact) (auto simp: policy_ok_def)
  have n: "(0 :: rat) \<le> of_int (pl_perMinute p) / 60" using assms by (simp add: policy_ok_def)
  show "0 \<le> ratePerSecond p" unfolding ratePerSecond_def e fdiv_def by (rule fl64_nonneg [OF n])
  show "ratePerSecond p \<le> of_int (pl_perMinute p) / 60 * (1 + ulp_eps)"
    unfolding ratePerSecond_def e fdiv_def by (rule fl64_le [OF n])
qed

lemma refill_amount:
  assumes "policy_ok p" and "0 \<le> d" and "d < 2 ^ 63"
  shows "0 \<le> fmul (seconds d) (ratePerSecond p)"
    "fmul (seconds d) (ratePerSecond p) \<le> granted p d * (1 + ulp_eps) ^ 4"
proof -
  note s = seconds_le [OF assms(2,3)] and r = ratePerSecond_le [OF assms(1)]
  have n: "0 \<le> seconds d * ratePerSecond p" using s(1) r(1) by simp
  show "0 \<le> fmul (seconds d) (ratePerSecond p)" unfolding fmul_def by (rule fl64_nonneg [OF n])
  have "fmul (seconds d) (ratePerSecond p) \<le> seconds d * ratePerSecond p * (1 + ulp_eps)"
    unfolding fmul_def by (rule fl64_le [OF n])
  also have "\<dots> \<le> (of_int d / 1000000000 * (1 + ulp_eps) ^ 2) * (of_int (pl_perMinute p) / 60 * (1 + ulp_eps)) * (1 + ulp_eps)"
    using s r by (intro mult_right_mono mult_mono4) simp_all
  also have "\<dots> = granted p d * (1 + ulp_eps) ^ 4" by (simp add: granted_def power4_eq_xxxx power2_eq_square)
  finally show "fmul (seconds d) (ratePerSecond p) \<le> granted p d * (1 + ulp_eps) ^ 4" .
qed


text \<open>The level of a bucket; a bucket that is not there counts as full.\<close>

definition level :: "rateLimitPolicy \<Rightarrow> rateLimitBucket option \<Rightarrow> rat" where
  "level p b = (case b of None \<Rightarrow> burst_of p | Some b \<Rightarrow> bu_tokens b)"

definition bucket_ok :: "rateLimitPolicy \<Rightarrow> rateLimitBucket \<Rightarrow> bool" where
  "bucket_ok p b \<longleftrightarrow> 0 \<le> bu_tokens b \<and> bu_tokens b \<le> burst_of p"

definition refill_span :: "rateLimitBucket option \<Rightarrow> gotime \<Rightarrow> duration" where
  "refill_span b now = (case b of None \<Rightarrow> 0 | Some b \<Rightarrow> max 0 (now - bu_updatedAt b))"

lemma burst_exact: "policy_ok p \<Longrightarrow> float_of_int (pl_burst p) = burst_of p"
  by (rule float_of_int_exact) (auto simp: policy_ok_def)

lemma burst_eps: "policy_ok p \<Longrightarrow> burst_of p * ulp_eps \<le> 1" "policy_ok p \<Longrightarrow> 1 \<le> burst_of p"
proof -
  assume "policy_ok p"
  hence b: "1 \<le> pl_burst p" "pl_burst p \<le> 2 ^ 53" by (auto simp: policy_ok_def)
  show "1 \<le> burst_of p" using b(1) by simp
  have "burst_of p \<le> 2 ^ 53" using b(2) by (metis of_int_le_iff of_int_numeral of_int_power)
  thus "burst_of p * ulp_eps \<le> 1" by (simp add: ulp_eps_def)
qed

lemma refill_bound:
  assumes "policy_ok p" and "\<And>x. b = Some x \<Longrightarrow> bucket_ok p x" and "refill_span b now < 2 ^ 63"
  shows "bucket_ok p (refill p b now)"
    "bu_tokens (refill p b now) \<le> level p b + granted p (refill_span b now) * (1 + ulp_eps) ^ 5 + burst_of p * ulp_eps"
    "bu_updatedAt (refill p b now) = (case b of None \<Rightarrow> now | Some x \<Rightarrow> max now (bu_updatedAt x))"
proof -
  have "bucket_ok p (refill p b now) \<and>
    bu_tokens (refill p b now) \<le> level p b + granted p (refill_span b now) * (1 + ulp_eps) ^ 5 + burst_of p * ulp_eps \<and>
    bu_updatedAt (refill p b now) = (case b of None \<Rightarrow> now | Some x \<Rightarrow> max now (bu_updatedAt x))"
  proof (cases b)
    case None
    thus ?thesis using burst_eps(2) [OF assms(1)]
      by (simp add: refill_def bucket_ok_def level_def refill_span_def granted_def burst_exact [OF assms(1)])
  next
    case (Some x)
    have ok: "0 \<le> bu_tokens x" "bu_tokens x \<le> burst_of p" using assms(2) [OF Some] by (auto simp: bucket_ok_def)
    have bp: "0 \<le> burst_of p" using burst_eps(2) [OF assms(1)] by linarith
    show ?thesis
    proof (cases "now > bu_updatedAt x")
      case False
      thus ?thesis using Some ok bp by (simp add: refill_def bucket_ok_def level_def refill_span_def granted_def)
    next
      case True
      define d where "d = now - bu_updatedAt x"
      have d: "0 \<le> d" "d < 2 ^ 63" "refill_span b now = d" "time_sub now (bu_updatedAt x) = d"
        using True assms(3) Some by (simp_all add: d_def refill_span_def time_sub_def int64_max_def)
      define g where "g = fmul (seconds d) (ratePerSecond p)"
      have g: "0 \<le> g" "g \<le> granted p d * (1 + ulp_eps) ^ 4"
        unfolding g_def by (rule refill_amount [OF assms(1) d(1,2)])+
      have t: "bu_tokens (refill p b now) = min (burst_of p) (fadd (bu_tokens x) g)"
        "bu_updatedAt (refill p b now) = now"
        using Some True by (simp_all add: refill_def Let_def burst_exact [OF assms(1)] d(4) g_def)
      have nn: "0 \<le> fadd (bu_tokens x) g" unfolding fadd_def using ok g by (intro fl64_nonneg) simp
      have "fadd (bu_tokens x) g \<le> (bu_tokens x + g) * (1 + ulp_eps)"
        unfolding fadd_def using ok g by (intro fl64_le) simp
      also have "\<dots> = bu_tokens x + bu_tokens x * ulp_eps + g * (1 + ulp_eps)" by (simp add: algebra_simps)
      also have "\<dots> \<le> bu_tokens x + burst_of p * ulp_eps + granted p d * (1 + ulp_eps) ^ 4 * (1 + ulp_eps)"
        using ok g by (intro add_mono mult_right_mono) simp_all
      finally have "fadd (bu_tokens x) g \<le> bu_tokens x + granted p d * (1 + ulp_eps) ^ 5 + burst_of p * ulp_eps"
        by (simp add: power_Suc2 [of _ 4, simplified] algebra_simps)
      hence "min (burst_of p) (fadd (bu_tokens x) g) \<le> bu_tokens x + granted p d * (1 + ulp_eps) ^ 5 + burst_of p * ulp_eps"
        by (rule min.coboundedI2)
      thus ?thesis using t nn bp Some True by (simp add: bucket_ok_def level_def d(3) [unfolded Some])
    qed
  qed
  thus "bucket_ok p (refill p b now)"
    "bu_tokens (refill p b now) \<le> level p b + granted p (refill_span b now) * (1 + ulp_eps) ^ 5 + burst_of p * ulp_eps"
    "bu_updatedAt (refill p b now) = (case b of None \<Rightarrow> now | Some x \<Rightarrow> max now (bu_updatedAt x))"
    by auto
qed

lemma spend_bound:
  assumes "policy_ok p" and "bucket_ok p b" and "spend p now b = (b', d)"
  shows "bucket_ok p b'" "bu_tokens b' + (if de_Allowed d then 1 else 0) \<le> bu_tokens b + burst_of p * ulp_eps"
    "bu_updatedAt b' = bu_updatedAt b"
proof -
  have ok: "0 \<le> bu_tokens b" "bu_tokens b \<le> burst_of p" using assms(2) by (auto simp: bucket_ok_def)
  have "bucket_ok p b' \<and> bu_tokens b' + (if de_Allowed d then 1 else 0) \<le> bu_tokens b + burst_of p * ulp_eps \<and>
    bu_updatedAt b' = bu_updatedAt b"
  proof (cases "1 \<le> bu_tokens b")
    case True
    hence t: "bu_tokens b' = fl64 (bu_tokens b - 1)" "de_Allowed d" "bu_updatedAt b' = bu_updatedAt b"
      using assms(3) by (auto simp: spend_def Let_def fsub_def)
    have "bu_tokens b' \<le> (bu_tokens b - 1) * (1 + ulp_eps)" unfolding t(1) using True by (intro fl64_le) simp
    also have "\<dots> = bu_tokens b - 1 + (bu_tokens b - 1) * ulp_eps" by (simp add: algebra_simps)
    also have "\<dots> \<le> bu_tokens b - 1 + burst_of p * ulp_eps" using ok by (intro add_left_mono mult_right_mono) simp_all
    finally have le: "bu_tokens b' \<le> bu_tokens b - 1 + burst_of p * ulp_eps" .
    moreover have "0 \<le> bu_tokens b'" unfolding t(1) using True by (intro fl64_nonneg) simp
    ultimately show ?thesis using t ok burst_eps(1) [OF assms(1)] by (simp add: bucket_ok_def)
  next
    case False
    have "0 \<le> burst_of p * ulp_eps" using burst_eps(2) [OF assms(1)] by (intro mult_nonneg_nonneg) simp_all
    thus ?thesis using False assms(3) ok by (auto simp: spend_def Let_def bucket_ok_def split: if_splits)
  qed
  thus "bucket_ok p b'" "bu_tokens b' + (if de_Allowed d then 1 else 0) \<le> bu_tokens b + burst_of p * ulp_eps"
    "bu_updatedAt b' = bu_updatedAt b" by auto
qed


section \<open>Runs\<close>

type_synonym rl_request = "rateLimitPolicy \<times> string \<times> gotime"

fun rl_after :: "rateLimiter \<Rightarrow> rl_request list \<Rightarrow> rateLimiter" where
  "rl_after l [] = l"
| "rl_after l ((q, key, now) # ops) = rl_after (fst (rl_take l q key now)) ops"

text \<open>The number of requests of a run that the bucket \<open>k\<close> lets through, and the number of
  times the clean-up drops that bucket.\<close>

fun accepted :: "string \<Rightarrow> rateLimiter \<Rightarrow> rl_request list \<Rightarrow> nat" where
  "accepted k l [] = 0"
| "accepted k l ((q, key, now) # ops) =
     (if \<not> unlimited q \<and> bucketKey q key = k \<and> de_Allowed (snd (rl_take l q key now)) then 1 else 0) +
     accepted k (fst (rl_take l q key now)) ops"

fun evicted :: "string \<Rightarrow> rateLimiter \<Rightarrow> rl_request list \<Rightarrow> nat" where
  "evicted k l [] = 0"
| "evicted k l ((q, key, now) # ops) =
     (if \<not> unlimited q \<and> mget (rl_buckets l) k \<noteq> None \<and> mget (rl_buckets (rl_tick now l)) k = None then 1 else 0) +
     evicted k (fst (rl_take l q key now)) ops"

lemma rl_run_bounded: "rl_inv l \<Longrightarrow> rl_inv (rl_after l ops)"
  by (induction l ops rule: rl_after.induct) (auto intro: rl_take_inv)

text \<open>A bucket that was seen within the idle time is not dropped while there is room.\<close>

lemma rl_tick_keeps:
  assumes "wf_map (rl_buckets l)" and "mget (rl_buckets l) k = Some b" and "now \<le> bu_lastSeen b + rl_idleTTL l"
    and "int (length (rl_buckets l)) < rl_maxKeys l"
  shows "mget (rl_buckets (rl_tick now l)) k = Some b"
proof -
  let ?m = "mfilter (\<lambda>_ bucket. \<not> bu_lastSeen bucket < now - rl_idleTTL l) (rl_buckets l)"
  have "int (length ?m) < rl_maxKeys l" using assms(4) mfilter_length [of _ "rl_buckets l"] by (meson le_less_trans of_nat_mono)
  hence "evict (rl_maxKeys l) ?m = ?m" by (subst evict.simps) simp
  thus ?thesis using assms by (simp add: rl_tick_def rl_cleanupLocked_def Let_def mfilter_get)
qed

text \<open>\<open>t\<close> bounds the times a bucket was filled at.\<close>

definition bucket_inv :: "rateLimitPolicy \<Rightarrow> gotime \<Rightarrow> rateLimitBucket option \<Rightarrow> bool" where
  "bucket_inv p t b \<longleftrightarrow> (\<forall>x. b = Some x \<longrightarrow> bucket_ok p x \<and> bu_updatedAt x \<le> t)"

text \<open>What a bucket may still let through, up to rounding: its level, and what it will be
  granted up to a time.\<close>

definition potential :: "rateLimitPolicy \<Rightarrow> gotime \<Rightarrow> gotime \<Rightarrow> rateLimitBucket option \<Rightarrow> rat" where
  "potential p t t1 b = level p b +
     granted p (t1 - (case b of None \<Rightarrow> t | Some x \<Rightarrow> bu_updatedAt x)) * (1 + ulp_eps) ^ 5"

lemma granted_add: "granted p (a + b) = granted p a + granted p b"
  by (simp add: granted_def algebra_simps add_divide_distrib)

lemma granted_mono: "policy_ok p \<Longrightarrow> a \<le> b \<Longrightarrow> granted p a \<le> granted p b"
  unfolding granted_def policy_ok_def by (intro mult_left_mono divide_right_mono) auto

lemma potential_anti:
  assumes "policy_ok p" and "t \<le> t'"
  shows "potential p t' t1 b \<le> potential p t t1 b"
  using assms granted_mono [OF assms(1), of "t1 - t'" "t1 - t"]
  by (auto simp: potential_def mult_right_mono split: option.splits)

lemma bucket_step:
  assumes ok: "policy_ok p" and inv: "bucket_inv p t b" and t: "t \<le> now" and span: "refill_span b now < 2 ^ 63"
    and spend: "spend p now (refill p b now) = (b', d)"
  shows "bucket_inv p now (Some b')"
    "potential p now t1 (Some b') + (if de_Allowed d then 1 else 0) \<le> potential p now t1 b + 2 * burst_of p * ulp_eps"
proof -
  have b: "\<And>x. b = Some x \<Longrightarrow> bucket_ok p x" using inv by (auto simp: bucket_inv_def)
  note r = refill_bound [OF ok b span]
  note s = spend_bound [OF ok r(1) spend]
  have u: "bu_updatedAt b' = now"
    using s(3) r(3) inv t by (auto simp: bucket_inv_def split: option.splits)
  thus "bucket_inv p now (Some b')" using s(1) by (simp add: bucket_inv_def)
  have g: "granted p (refill_span b now) + granted p (t1 - now) = granted p (t1 - (case b of None \<Rightarrow> now | Some x \<Rightarrow> bu_updatedAt x))"
    unfolding granted_add [symmetric] using inv t by (auto simp: bucket_inv_def refill_span_def split: option.splits)
  have "bu_tokens b' + (if de_Allowed d then 1 else 0) \<le>
      level p b + granted p (refill_span b now) * (1 + ulp_eps) ^ 5 + 2 * burst_of p * ulp_eps"
    using s(2) r(2) by linarith
  thus "potential p now t1 (Some b') + (if de_Allowed d then 1 else 0) \<le> potential p now t1 b + 2 * burst_of p * ulp_eps"
    unfolding potential_def using u g [symmetric] by (simp add: level_def distrib_right)
qed


lemma potential_evicted:
  assumes "policy_ok p" and "bucket_inv p t b" and "t \<le> now"
  shows "potential p now t1 None \<le> potential p now t1 b + (if b \<noteq> None then burst_of p else 0)"
proof (cases b)
  case (Some x)
  have x: "0 \<le> bu_tokens x" "bu_updatedAt x \<le> now" using assms(2,3) Some by (auto simp: bucket_inv_def bucket_ok_def)
  have "granted p (t1 - now) * (1 + ulp_eps) ^ 5 \<le> granted p (t1 - bu_updatedAt x) * (1 + ulp_eps) ^ 5"
    using granted_mono [OF assms(1), of "t1 - now" "t1 - bu_updatedAt x"] x(2) by (intro mult_right_mono) simp_all
  thus ?thesis using Some x(1) by (simp add: potential_def level_def)
qed simp

lemma rl_tick_get:
  "rl_inv l \<Longrightarrow> mget (rl_buckets (rl_tick now l)) k = mget (rl_buckets l) k \<or>
     mget (rl_buckets (rl_tick now l)) k = None"
  using rl_tick_props [of l now] by (cases "mget (rl_buckets (rl_tick now l)) k") (auto simp: submap_def)

definition requests_ok :: "rateLimitPolicy \<Rightarrow> string \<Rightarrow> rl_request list \<Rightarrow> bool" where
  "requests_ok p k ops \<longleftrightarrow> (\<forall>(q, key, now) \<in> set ops. bucketKey q key = k \<longrightarrow> q = p)"

lemma one_request:
  assumes ok: "policy_ok p" and inv: "rl_inv l" and b: "bucket_inv p t (mget (rl_buckets l) k)"
    and t: "t \<le> now" and span: "refill_span (mget (rl_buckets l) k) now < 2 ^ 63"
    and q: "bucketKey q key = k \<longrightarrow> q = p"
  shows "bucket_inv p now (mget (rl_buckets (fst (rl_take l q key now))) k) \<and>
    potential p now t1 (mget (rl_buckets (fst (rl_take l q key now))) k) +
      of_nat (accepted k l [(q, key, now)]) \<le>
    potential p t t1 (mget (rl_buckets l) k) + burst_of p * of_nat (evicted k l [(q, key, now)]) +
      2 * burst_of p * ulp_eps"
proof -
  let ?b = "mget (rl_buckets l) k" and ?c = "mget (rl_buckets (rl_tick now l)) k"
  have e0: "0 \<le> 2 * burst_of p * ulp_eps" using burst_eps(2) [OF ok] by simp
  have an: "potential p now t1 ?b \<le> potential p t t1 ?b" by (rule potential_anti [OF ok t])
  have mono: "bucket_inv p now ?b" using b t by (auto simp: bucket_inv_def)
  show ?thesis
  proof (cases "unlimited q")
    case True
    hence eq: "fst (rl_take l q key now) = l" "accepted k l [(q, key, now)] = 0" "evicted k l [(q, key, now)] = 0"
      by (simp_all add: rl_take_def)
    show ?thesis unfolding eq of_nat_0 mult_zero_right add_0_right
      by (rule conjI [OF mono]) (use an e0 in linarith)
  next
    case False
    have c: "?c = ?b \<or> ?c = None" by (rule rl_tick_get [OF inv])
    have ci: "bucket_inv p t ?c" "refill_span ?c now < 2 ^ 63"
      using c b span by (auto simp: bucket_inv_def refill_span_def)
    have pc: "potential p now t1 ?c \<le> potential p t t1 ?b + burst_of p * of_nat (evicted k l [(q, key, now)])"
    proof (cases "?c = ?b")
      case True
      thus ?thesis using an burst_eps(2) [OF ok] False by (cases "?b = None") auto
    next
      case ne: False
      hence "?c = None" "?b \<noteq> None" using c by auto
      thus ?thesis using potential_evicted [OF ok b t, of t1] an False by simp
    qed
    show ?thesis
    proof (cases "bucketKey q key = k")
      case True
      hence qp: "q = p" using q by simp
      obtain b' d where s: "spend p now (refill p ?c now) = (b', d)" by (cases "spend p now (refill p ?c now)")
      have take: "mget (rl_buckets (fst (rl_take l q key now))) k = Some b'" "snd (rl_take l q key now) = d"
        using False True s qp by (simp_all add: rl_take_def Let_def)
      have acc: "(of_nat (accepted k l [(q, key, now)]) :: rat) = (if de_Allowed d then 1 else 0)"
        using True False take(2) by simp
      show ?thesis unfolding take(1) acc
        using bucket_step(2) [OF ok ci(1) t ci(2) s, of t1] pc
        by (intro conjI bucket_step(1) [OF ok ci(1) t ci(2) s]) linarith
    next
      case ne: False
      hence eq: "mget (rl_buckets (fst (rl_take l q key now))) k = ?c" "accepted k l [(q, key, now)] = 0"
        using False by (simp_all add: rl_take_def Let_def split_beta)
      have "bucket_inv p now ?c" using ci(1) t by (auto simp: bucket_inv_def)
      thus ?thesis unfolding eq of_nat_0 add_0_right by (rule conjI) (use pc e0 in linarith)
    qed
  qed
qed


lemma refill_updated: "bu_updatedAt (refill p b now) = (case b of None \<Rightarrow> now | Some x \<Rightarrow> max now (bu_updatedAt x))"
  by (auto simp: refill_def Let_def split: option.splits)

lemma spend_updated: "bu_updatedAt (fst (spend p now b)) = bu_updatedAt b"
  by (simp add: spend_def Let_def)

text \<open>The time of the last refill only moves on, but for a bucket made anew.\<close>

lemma rl_take_updated:
  assumes "rl_inv l" and "mget (rl_buckets (fst (rl_take l q key now))) k = Some x"
  shows "now \<le> bu_updatedAt x \<or> (\<exists>y. mget (rl_buckets l) k = Some y \<and> bu_updatedAt y \<le> bu_updatedAt x)"
proof (cases "unlimited q")
  case False
  let ?c = "mget (rl_buckets (rl_tick now l)) k"
  show ?thesis
  proof (cases "bucketKey q key = k")
    case True
    hence "x = fst (spend q now (refill q ?c now))"
      using assms(2) False by (simp add: rl_take_def Let_def split_beta)
    thus ?thesis by (simp add: spend_updated refill_updated split: option.splits)
  next
    case ne: False
    hence "?c = Some x" using assms(2) False by (simp add: rl_take_def Let_def split_beta)
    thus ?thesis using rl_tick_get [OF assms(1), of now k] by (metis option.distinct(1) order_refl)
  qed
qed (use assms in \<open>simp add: rl_take_def\<close>)

lemma rl_run_bound:
  assumes "policy_ok p" and "rl_inv l" and "bucket_inv p t (mget (rl_buckets l) k)"
    and "\<And>x. mget (rl_buckets l) k = Some x \<Longrightarrow> t0 \<le> bu_updatedAt x" and "t0 \<le> t"
    and "sorted (t # map (\<lambda>(_, _, now). now) ops)" and "\<forall>(_, _, now) \<in> set ops. now \<le> t1"
    and "t1 - t0 < 2 ^ 63" and "requests_ok p k ops"
  shows "of_nat (accepted k l ops) \<le> potential p t t1 (mget (rl_buckets l) k) +
    burst_of p * of_nat (evicted k l ops) + 2 * of_nat (length ops) * burst_of p * ulp_eps \<or> t1 < t"
  using assms
proof (induction ops arbitrary: l t)
  case Nil
  have "0 \<le> level p (mget (rl_buckets l) k)"
    using Nil(3) burst_eps(2) [OF Nil(1)] by (auto simp: level_def bucket_inv_def bucket_ok_def split: option.splits)
  moreover have "0 \<le> granted p (t1 - (case mget (rl_buckets l) k of None \<Rightarrow> t | Some x \<Rightarrow> bu_updatedAt x))" if "t \<le> t1"
    using granted_mono [OF Nil(1), of 0] Nil(3) that
    by (force simp: granted_def [of p 0] bucket_inv_def split: option.splits)
  ultimately show ?case by (auto simp: potential_def)
next
  case (Cons op ops)
  obtain q key now where op: "op = (q, key, now)" by (cases op)
  let ?l = "fst (rl_take l q key now)"
  have now: "t \<le> now" "now \<le> t1" "sorted (now # map (\<lambda>(_, _, now). now) ops)" using Cons.prems op by auto
  have sp: "refill_span (mget (rl_buckets l) k) now < 2 ^ 63"
    using Cons.prems(4,8) now by (auto simp: refill_span_def split: option.splits)
  have q: "bucketKey q key = k \<longrightarrow> q = p" using Cons.prems(9) op by (auto simp: requests_ok_def)
  note one = one_request [OF Cons.prems(1-3) now(1) sp q, of t1]
  have up: "t0 \<le> bu_updatedAt x" if "mget (rl_buckets ?l) k = Some x" for x
    using rl_take_updated [OF Cons.prems(2) that] Cons.prems(4,5) now(1) by fastforce
  have "of_nat (accepted k ?l ops) \<le> potential p now t1 (mget (rl_buckets ?l) k) +
    burst_of p * of_nat (evicted k ?l ops) + 2 * of_nat (length ops) * burst_of p * ulp_eps \<or> t1 < now"
    using Cons.IH [OF Cons.prems(1) rl_take_inv [OF Cons.prems(2)] _ up _ now(3)] one Cons.prems now
    by (auto simp: op requests_ok_def)
  moreover have "accepted k l (op # ops) = accepted k l [op] + accepted k ?l ops"
    "evicted k l (op # ops) = evicted k l [op] + evicted k ?l ops" by (simp_all add: op)
  ultimately show ?case using one now(2) unfolding op by (simp add: algebra_simps del: accepted.simps(2) evicted.simps(2))
qed


section \<open>What the limiter promises\<close>

text \<open>C20: A bucket lets through at most its burst and what its rate grants in the time of the
  run. For any run of requests, to this and to other keys, on a limiter that does not know the
  key yet: the number of requests of the key that are allowed is at most the burst, once more
  for each time the clean-up drops the bucket, plus the rate times the length of the run, up to
  the rounding of floats (a relative error of 2 to the -53 in each operation).\<close>

theorem rate_limit_bound:
  assumes "policy_ok p" and "rl_inv l" and "mget (rl_buckets l) (bucketKey p key) = None"
    and "sorted (t0 # map (\<lambda>(_, _, now). now) ops)" and "\<forall>(_, _, now) \<in> set ops. now \<le> t1"
    and "t0 \<le> t1" and "t1 - t0 < 2 ^ 63" and "requests_ok p (bucketKey p key) ops"
  shows "of_nat (accepted (bucketKey p key) l ops) \<le>
     of_int (pl_burst p) * (1 + of_nat (evicted (bucketKey p key) l ops)) +
     of_int (pl_perMinute p) / 60 * (of_int (t1 - t0) / 1000000000) * (1 + 1 / 2 ^ 53) ^ 5 +
     2 * of_nat (length ops) * of_int (pl_burst p) / (2 ^ 53 :: rat)"
proof -
  have "of_nat (accepted (bucketKey p key) l ops) \<le> potential p t0 t1 (mget (rl_buckets l) (bucketKey p key)) +
    burst_of p * of_nat (evicted (bucketKey p key) l ops) + 2 * of_nat (length ops) * burst_of p * ulp_eps"
    using rl_run_bound [OF assms(1,2) _ _ order_refl assms(4,5,7,8)] assms(3,6) by (force simp: bucket_inv_def)
  thus ?thesis
    by (simp add: assms(3) potential_def level_def granted_def ulp_eps_def distrib_left)
qed

text \<open>C21: The limiter's memory is bounded: whatever requests come, in whatever order and however
  many different keys they use, it keeps at most as many buckets as it was configured for,
  50,000 when it was not.\<close>

theorem rate_limiter_keys_bounded:
  "int (length (rl_buckets (rl_after (newRateLimiter maxKeys idleTTL) ops))) \<le> (if maxKeys \<le> 0 then 50000 else maxKeys)"
proof -
  have "rl_maxKeys (rl_after l ops) = rl_maxKeys l" for l
    by (induction l ops rule: rl_after.induct) (auto simp: rl_take_def Let_def split_beta)
  thus ?thesis using rl_run_bounded [OF rl_inv_new, of maxKeys idleTTL ops]
    by (simp add: rl_inv_def newRateLimiter_def)
qed

definition demo_policy :: rateLimitPolicy where
  "demo_policy = \<lparr> pl_name = ''general'', pl_perMinute = 60, pl_burst = 2 \<rparr>"

definition demo_requests :: "rl_request list" where
  "demo_requests = [(demo_policy, ''ip:a'', 5), (demo_policy, ''ip:a'', 5), (demo_policy, ''ip:a'', 5)]"

definition demo_limiter :: "rat \<Rightarrow> int \<Rightarrow> rateLimiter" where
  "demo_limiter tokens n = \<lparr> rl_buckets = [(bucketKey demo_policy ''ip:a'',
      \<lparr> bu_tokens = tokens, bu_updatedAt = 5, bu_lastSeen = 5, bu_lastBlockedAudit = 0 \<rparr>)],
    rl_maxKeys = 10, rl_idleTTL = 30 * minute, rl_operations = n \<rparr>"

lemma demo_floats: "float_of_int 2 = 2" "fl64 1 = 1" "fl64 0 = 0"
  using float_of_int_exact [of 2] float_of_int_exact [of 1] by (simp_all add: float_of_int_def fl64_def)

lemma demo_policy_fields: "pl_perMinute demo_policy = 60" "pl_burst demo_policy = 2" "\<not> unlimited demo_policy"
  by (simp_all add: demo_policy_def unlimited_def)

lemmas demo_eval = rl_take_def demo_policy_fields Let_def rl_tick_def refill_def spend_def fsub_def
  demo_floats demo_limiter_def

lemma demo_first: "fst (rl_take (newRateLimiter 10 0) demo_policy ''ip:a'' 5) = demo_limiter 1 1"
  "de_Allowed (snd (rl_take (newRateLimiter 10 0) demo_policy ''ip:a'' 5))"
  by (simp_all add: demo_eval newRateLimiter_def)

lemma demo_second: "fst (rl_take (demo_limiter 1 1) demo_policy ''ip:a'' 5) = demo_limiter 0 2"
  "de_Allowed (snd (rl_take (demo_limiter 1 1) demo_policy ''ip:a'' 5))"
  by (simp_all add: demo_eval)

lemma demo_third: "\<not> de_Allowed (snd (rl_take (demo_limiter 0 2) demo_policy ''ip:a'' 5))"
  by (simp add: demo_eval)

lemma demo_run: "accepted (bucketKey demo_policy ''ip:a'') (newRateLimiter 10 0) demo_requests = 2"
  "evicted (bucketKey demo_policy ''ip:a'') (newRateLimiter 10 0) demo_requests = 0"
proof -
  show "accepted (bucketKey demo_policy ''ip:a'') (newRateLimiter 10 0) demo_requests = 2"
    by (simp add: demo_requests_def demo_first demo_second demo_third demo_policy_fields)
  have "mget (rl_buckets (rl_tick 5 (demo_limiter x n))) (bucketKey demo_policy ''ip:a'') \<noteq> None"
    if "n = 1 \<or> n = 2" for x n using that by (auto simp: rl_tick_def demo_limiter_def Let_def)
  thus "evicted (bucketKey demo_policy ''ip:a'') (newRateLimiter 10 0) demo_requests = 0"
    by (simp add: demo_requests_def demo_first demo_second demo_policy_fields) (simp add: newRateLimiter_def)
qed

theorem rate_limit_bound_witness:
  "accepted (bucketKey demo_policy ''ip:a'') (newRateLimiter 10 0) demo_requests = 2 \<and>
   evicted (bucketKey demo_policy ''ip:a'') (newRateLimiter 10 0) demo_requests = 0 \<and>
   of_nat (accepted (bucketKey demo_policy ''ip:a'') (newRateLimiter 10 0) demo_requests) \<le>
     of_int (pl_burst demo_policy) * (1 + of_nat (evicted (bucketKey demo_policy ''ip:a'') (newRateLimiter 10 0) demo_requests)) +
     of_int (pl_perMinute demo_policy) / 60 * (of_int (5 - 0) / 1000000000) * (1 + 1 / 2 ^ 53) ^ 5 +
     2 * of_nat (length demo_requests) * of_int (pl_burst demo_policy) / (2 ^ 53 :: rat)"
proof (intro conjI demo_run)
  show "of_nat (accepted (bucketKey demo_policy ''ip:a'') (newRateLimiter 10 0) demo_requests) \<le>
     of_int (pl_burst demo_policy) * (1 + of_nat (evicted (bucketKey demo_policy ''ip:a'') (newRateLimiter 10 0) demo_requests)) +
     of_int (pl_perMinute demo_policy) / 60 * (of_int (5 - 0) / 1000000000) * (1 + 1 / 2 ^ 53) ^ 5 +
     2 * of_nat (length demo_requests) * of_int (pl_burst demo_policy) / (2 ^ 53 :: rat)"
    by (rule rate_limit_bound)
       (simp_all add: rl_inv_new policy_ok_def demo_policy_fields requests_ok_def demo_requests_def newRateLimiter_def [of 10 0],
        simp add: rl_inv_def)
qed

end
