(* ===== verification/Http_Model.thy ===== *)
theory Http_Model
  imports Config_Model Audit_Store Rate_Limiter
begin

text \<open>
  Requests, responses and the parts of the server every handler shares
  (\<^verbatim>\<open>internal/application/server.go\<close>), and the rate limiting of requests
  (\<^verbatim>\<open>internal/application/rate_limit.go\<close>). \<open>Core\<close> holds the configuration, the limiter with its
  policies, and the trail: the records handed to the audit log, in order. A request reads the
  clock several times; \<open>clk n\<close> is the n-th reading.
\<close>

section \<open>Requests and responses\<close>

record Request =
  rq_Method :: string
  rq_Path :: string
  rq_RemoteAddr :: string
  rq_Header :: "string \<Rightarrow> string list"
  rq_Query :: "string \<Rightarrow> string"
  rq_PathValue :: "string \<Rightarrow> string"

definition headerGet :: "Request \<Rightarrow> string \<Rightarrow> string" where
  "headerGet r name = (case rq_Header r name of [] \<Rightarrow> '''' | v # _ \<Rightarrow> v)"

text \<open>The body is an error message or a value.\<close>

record 'b Response =
  rs_Status :: int
  rs_Header :: "(string \<times> string) list"
  rs_Body :: "string + 'b"

definition json_header :: "(string \<times> string) list" where
  "json_header = [(''Content-Type'', ''application/json; charset=utf-8'')]"

definition writeJSON :: "(string \<times> string) list \<Rightarrow> int \<Rightarrow> 'b \<Rightarrow> 'b Response" where
  "writeJSON headers status v = \<lparr> rs_Status = status, rs_Header = headers @ json_header, rs_Body = Inr v \<rparr>"

definition writeError :: "(string \<times> string) list \<Rightarrow> int \<Rightarrow> string \<Rightarrow> 'b Response" where
  "writeError headers status message = \<lparr> rs_Status = status, rs_Header = headers @ json_header, rs_Body = Inl message \<rparr>"

definition bearerToken :: "Request \<Rightarrow> string" where
  "bearerToken r =
     (let value = trimSpace (headerGet r ''Authorization'')
      in if \<not> hasPrefix value ''Bearer '' then '''' else trimSpace (trimPrefix value ''Bearer ''))"

definition server_secureEqual :: "string \<Rightarrow> string \<Rightarrow> bool" where
  "server_secureEqual left right =
     (if length left \<noteq> length right \<or> length left = 0 then False else left = right)"

definition queryLimit :: "Request \<Rightarrow> int \<Rightarrow> int \<Rightarrow> int" where
  "queryLimit r fallback maximum =
     (let value = (case atoi (rq_Query r ''limit'') of
            Some parsed \<Rightarrow> if parsed > 0 then parsed else fallback
          | None \<Rightarrow> fallback)
      in if value > maximum then maximum else value)"

definition validateMobileDevice :: "string \<Rightarrow> string \<Rightarrow> err option" where
  "validateMobileDevice installationID deviceSecret =
     (let installationID = trimSpace installationID; deviceSecret = trimSpace deviceSecret
      in if installationID = '''' \<or> length installationID > 128 then Some (ErrText ''invalid installationId'')
         else if length deviceSecret < 32 \<or> length deviceSecret > 256 then Some (ErrText ''invalid deviceSecret'')
         else None)"

section \<open>The shared part of the server\<close>

record Core =
  co_cfg :: Config
  co_rateLimiter :: "rateLimiter option"
  co_generalPolicy :: rateLimitPolicy
  co_authPolicy :: rateLimitPolicy
  co_installationPolicy :: rateLimitPolicy
  co_adminPolicy :: rateLimitPolicy
  co_trail :: "AuditRecord list"

definition or_default :: "int \<Rightarrow> int \<Rightarrow> int" where
  "or_default v fallback = (if v > 0 then v else fallback)"

definition rateLimitGeneralPerMinute :: "Config \<Rightarrow> int" where
  "rateLimitGeneralPerMinute cfg = or_default (cf_RateLimitGeneralPerMinute cfg) DefaultRateLimitGeneralPerMinute"

definition rateLimitGeneralBurst :: "Config \<Rightarrow> int" where
  "rateLimitGeneralBurst cfg = or_default (cf_RateLimitGeneralBurst cfg) DefaultRateLimitGeneralBurst"

definition rateLimitAuthPerMinute :: "Config \<Rightarrow> int" where
  "rateLimitAuthPerMinute cfg = or_default (cf_RateLimitAuthPerMinute cfg) DefaultRateLimitAuthPerMinute"

definition rateLimitAuthBurst :: "Config \<Rightarrow> int" where
  "rateLimitAuthBurst cfg = or_default (cf_RateLimitAuthBurst cfg) DefaultRateLimitAuthBurst"

definition rateLimitInstallationPerMinute :: "Config \<Rightarrow> int" where
  "rateLimitInstallationPerMinute cfg = or_default (cf_RateLimitInstallationPerMinute cfg) DefaultRateLimitInstallationPerMinute"

definition rateLimitInstallationBurst :: "Config \<Rightarrow> int" where
  "rateLimitInstallationBurst cfg = or_default (cf_RateLimitInstallationBurst cfg) DefaultRateLimitInstallationBurst"

definition rateLimitAdminPerMinute :: "Config \<Rightarrow> int" where
  "rateLimitAdminPerMinute cfg = or_default (cf_RateLimitAdminPerMinute cfg) DefaultRateLimitAdminPerMinute"

definition rateLimitAdminBurst :: "Config \<Rightarrow> int" where
  "rateLimitAdminBurst cfg = or_default (cf_RateLimitAdminBurst cfg) DefaultRateLimitAdminBurst"

definition rateLimitMaxKeys :: "Config \<Rightarrow> int" where
  "rateLimitMaxKeys cfg = or_default (cf_RateLimitMaxKeys cfg) DefaultRateLimitMaxKeys"

definition rateLimitIdleTTL :: "Config \<Rightarrow> duration" where
  "rateLimitIdleTTL cfg = or_default (cf_RateLimitIdleTTL cfg) DefaultRateLimitIdleTTL"

lemmas configured_limits = rateLimitGeneralPerMinute_def rateLimitGeneralBurst_def rateLimitAuthPerMinute_def
  rateLimitAuthBurst_def rateLimitInstallationPerMinute_def rateLimitInstallationBurst_def
  rateLimitAdminPerMinute_def rateLimitAdminBurst_def rateLimitMaxKeys_def rateLimitIdleTTL_def or_default_def

definition New_core :: "Config \<Rightarrow> Core" where
  "New_core cfg =
     \<lparr> co_cfg = cfg,
       co_rateLimiter = Some (newRateLimiter (rateLimitMaxKeys cfg) (rateLimitIdleTTL cfg)),
       co_generalPolicy = \<lparr> pl_name = ''general_ip'', pl_perMinute = rateLimitGeneralPerMinute cfg,
         pl_burst = rateLimitGeneralBurst cfg \<rparr>,
       co_authPolicy = \<lparr> pl_name = ''auth_ip'', pl_perMinute = rateLimitAuthPerMinute cfg,
         pl_burst = rateLimitAuthBurst cfg \<rparr>,
       co_installationPolicy = \<lparr> pl_name = ''installation'', pl_perMinute = rateLimitInstallationPerMinute cfg,
         pl_burst = rateLimitInstallationBurst cfg \<rparr>,
       co_adminPolicy = \<lparr> pl_name = ''admin_ip'', pl_perMinute = rateLimitAdminPerMinute cfg,
         pl_burst = rateLimitAdminBurst cfg \<rparr>,
       co_trail = [] \<rparr>"

definition auditRecord :: "Core \<Rightarrow> AuditRecord \<Rightarrow> Core" where
  "auditRecord s record = s\<lparr> co_trail := co_trail s @ [record] \<rparr>"

text \<open>What the audit log makes of the trail: each record is appended with a clock reading and
  random bytes of its own; an error is only logged.\<close>

definition append_trail :: "'a AuditRepository \<Rightarrow> 'a \<Rightarrow> (AuditRecord \<times> gotime \<times> string option) list \<Rightarrow> 'a" where
  "append_trail repo st xs = foldl (\<lambda>st (r, now, rnd). fst (ar_Append repo st r now rnd)) st xs"

definition authorizeAdmin :: "Core \<Rightarrow> Request \<Rightarrow> 'b Response option" where
  "authorizeAdmin s r =
     (if cf_AdminToken (co_cfg s) = '''' \<or> \<not> server_secureEqual (bearerToken r) (cf_AdminToken (co_cfg s))
      then Some (writeError [] 401 ''unauthorized'') else None)"

section \<open>The address of the client\<close>

text \<open>\<^verbatim>\<open>net.SplitHostPort\<close>: the host, or nothing on an error.\<close>

definition lastIndexByte :: "string \<Rightarrow> char \<Rightarrow> nat option" where
  "lastIndexByte s c = map_option (\<lambda>i. length s - 1 - i) (indexByte (rev s) c)"

definition splitHostPort :: "string \<Rightarrow> string option" where
  "splitHostPort hostport = (case lastIndexByte hostport (CHR '':'') of
       None \<Rightarrow> None
     | Some i \<Rightarrow>
         if hd hostport = CHR ''['' then
           (case indexByte hostport (CHR '']'') of
              None \<Rightarrow> None
            | Some e \<Rightarrow>
                if e + 1 \<noteq> i \<or> CHR ''['' \<in> set (drop 1 hostport) \<or> CHR '']'' \<in> set (drop (e + 1) hostport) then None
                else Some (drop 1 (take e hostport)))
         else let host = take i hostport
              in if CHR '':'' \<in> set host \<or> CHR ''['' \<in> set hostport \<or> CHR '']'' \<in> set hostport then None
                 else Some host)"

definition parseRequestIP :: "string \<Rightarrow> Addr option" where
  "parseRequestIP raw =
     (let raw = trimSpace raw
      in if raw = '''' then None
         else let raw = (case splitHostPort raw of Some host \<Rightarrow> host | None \<Rightarrow> raw);
                  raw = trimSet raw ''[]''
              in map_option unmap (parseAddr raw))"

definition ipInPrefixes :: "Addr \<Rightarrow> Prefix list \<Rightarrow> bool" where
  "ipInPrefixes address ps \<longleftrightarrow> (\<exists>p \<in> set ps. prefix_contains p address)"

definition forwarded_chain :: "string \<Rightarrow> Addr list" where
  "forwarded_chain value = List.map_filter (\<lambda>raw. parseRequestIP (trimSpace raw)) (splitChar (CHR '','') value)"

definition requestClientIP :: "Request \<Rightarrow> Prefix list \<Rightarrow> string" where
  "requestClientIP r trusted = (case parseRequestIP (rq_RemoteAddr r) of
       None \<Rightarrow> ''unknown''
     | Some remote \<Rightarrow>
         if \<not> ipInPrefixes remote trusted then addr_string remote
         else let chain = forwarded_chain (headerGet r ''X-Forwarded-For'') @ [remote]
              in case find (\<lambda>candidate. \<not> ipInPrefixes candidate trusted) (rev chain) of
                   Some candidate \<Rightarrow> addr_string candidate
                 | None \<Rightarrow> (case chain of [] \<Rightarrow> addr_string remote | a # _ \<Rightarrow> addr_string a))"

section \<open>Limiting requests\<close>

definition rateLimitExemptPath :: "string \<Rightarrow> bool" where
  "rateLimitExemptPath path \<longleftrightarrow> path = ''/v1/eventsub/webhook''"

definition hexEncode :: "string \<Rightarrow> string" where
  "hexEncode s = concat (map (\<lambda>c. [hexDigit (of_char c div 16), hexDigit (of_char c mod 16)]) s)"

definition installationRateKey :: "(string \<Rightarrow> string) \<Rightarrow> string \<Rightarrow> string \<Rightarrow> string" where
  "installationRateKey sha256 installationID deviceSecret =
     hexEncode (sha256 (trimSpace installationID @ [CHR 0x00] @ trimSpace deviceSecret))"

definition requestInstallationCredentials :: "Request \<Rightarrow> string \<times> string" where
  "requestInstallationCredentials r =
     (let installationID = trimSpace (headerGet r ''X-Installation-ID'');
          deviceSecret = trimSpace (headerGet r ''X-Device-Secret'');
          installationID =
            (if installationID = '''' \<and> hasPrefix (rq_Path r) ''/v1/push/registrations/''
             then trimSpace (hd (splitChar (CHR ''/'') (trimPrefix (rq_Path r) ''/v1/push/registrations/'')))
             else installationID)
      in (installationID, deviceSecret))"

definition audit_policy :: rateLimitPolicy where
  "audit_policy = \<lparr> pl_name = ''rate_limit_audit'', pl_perMinute = 60, pl_burst = 10 \<rparr>"

definition co_take :: "Core \<Rightarrow> rateLimitPolicy \<Rightarrow> string \<Rightarrow> gotime \<Rightarrow> Core \<times> rateLimitDecision" where
  "co_take s policy key now =
     (let (l, d) = take_opt (co_rateLimiter s) policy key now in (s\<lparr> co_rateLimiter := l \<rparr>, d))"

definition auditRateLimitBlock :: "Core \<Rightarrow> gotime \<Rightarrow> rateLimitDecision \<Rightarrow> string \<Rightarrow> string \<Rightarrow> string \<Rightarrow> string \<Rightarrow> string \<Rightarrow> Core" where
  "auditRateLimitBlock s now decision policyName method path installationID userID =
     (if \<not> de_Audit decision \<or> co_rateLimiter s = None then s
      else let (s, auditDecision) = co_take s audit_policy ''global'' now
           in if \<not> de_Allowed auditDecision then s
              else auditRecord s (empty_AuditRecord\<lparr> au_Action := ''security.rate_limit'', au_Status := ''blocked'',
                     au_InstallationID := installationID, au_UserID := userID,
                     au_Detail := ''policy='' @ policyName @ '' method='' @ method @ '' path='' @ path \<rparr>))"

definition enforceRateLimit :: "Core \<Rightarrow> (nat \<Rightarrow> gotime) \<Rightarrow> Request \<Rightarrow> rateLimitPolicy \<Rightarrow> string \<Rightarrow> string \<Rightarrow> string
    \<Rightarrow> Core \<times> 'b Response option" where
  "enforceRateLimit s clk r policy key installationID userID =
     (let (s, decision) = co_take s policy key (clk 0)
      in if de_Allowed decision then (s, None)
         else let retrySeconds = \<lceil>seconds (de_RetryAfter decision)\<rceil>;
                  retrySeconds = (if retrySeconds < 1 then 1 else retrySeconds);
                  headers = [(''Retry-After'', itoa retrySeconds), (''X-RateLimit-Limit'', itoa (de_Limit decision)),
                             (''X-RateLimit-Remaining'', ''0''), (''Cache-Control'', ''no-store'')];
                  s = auditRateLimitBlock s (clk 1) decision (pl_name policy) (rq_Method r) (rq_Path r) installationID userID
              in (s, Some (writeError headers 429 ''rate limit exceeded'')))"

definition enforceInstallationRateLimit :: "(string \<Rightarrow> string) \<Rightarrow> Core \<Rightarrow> (nat \<Rightarrow> gotime) \<Rightarrow> Request \<Rightarrow> string \<Rightarrow> string
    \<Rightarrow> Core \<times> 'b Response option" where
  "enforceInstallationRateLimit sha256 s clk r installationID deviceSecret =
     (if co_rateLimiter s = None \<or> cf_RateLimitDisabled (co_cfg s) then (s, None)
      else if validateMobileDevice installationID deviceSecret \<noteq> None then (s, None)
      else enforceRateLimit s clk r (co_installationPolicy s)
             (''installation:'' @ installationRateKey sha256 installationID deviceSecret) (trimSpace installationID) '''')"

definition takeInstallationRateLimit :: "(string \<Rightarrow> string) \<Rightarrow> Core \<Rightarrow> gotime \<Rightarrow> string \<Rightarrow> string \<Rightarrow> Core \<times> rateLimitDecision" where
  "takeInstallationRateLimit sha256 s now installationID deviceSecret =
     (if co_rateLimiter s = None \<or> cf_RateLimitDisabled (co_cfg s) then (s, allowed_decision)
      else if validateMobileDevice installationID deviceSecret \<noteq> None then (s, allowed_decision)
      else co_take s (co_installationPolicy s) (''installation:'' @ installationRateKey sha256 installationID deviceSecret) now)"

definition eventsub_invalid_policy :: rateLimitPolicy where
  "eventsub_invalid_policy = \<lparr> pl_name = ''eventsub_invalid_ip'', pl_perMinute = eventSubInvalidPerMinute,
     pl_burst = eventSubInvalidBurst \<rparr>"

definition eventsub_invalid_audit_policy :: rateLimitPolicy where
  "eventsub_invalid_audit_policy = \<lparr> pl_name = ''eventsub_invalid_audit'',
     pl_perMinute = eventSubInvalidAuditPerMinute, pl_burst = eventSubInvalidAuditBurst \<rparr>"

definition enforceInvalidEventSubRateLimit :: "Core \<Rightarrow> (nat \<Rightarrow> gotime) \<Rightarrow> Request \<Rightarrow> Core \<times> 'b Response option" where
  "enforceInvalidEventSubRateLimit s clk r =
     (if co_rateLimiter s = None \<or> cf_RateLimitDisabled (co_cfg s) then (s, None)
      else enforceRateLimit s clk r eventsub_invalid_policy
             (''ip:'' @ requestClientIP r (cf_RateLimitTrustedProxyCIDRs (co_cfg s))) '''' '''')"

definition auditInvalidEventSubVerification :: "Core \<Rightarrow> gotime \<Rightarrow> string \<Rightarrow> string \<Rightarrow> Core" where
  "auditInvalidEventSubVerification s now messageID verificationErr =
     (let (s, decision) = (if co_rateLimiter s \<noteq> None then co_take s eventsub_invalid_audit_policy ''global'' now
                           else (s, allowed_decision))
      in if \<not> de_Allowed decision then s
         else auditRecord s (empty_AuditRecord\<lparr> au_Action := ''eventsub.verify'', au_Status := ''rejected'',
                au_EventID := messageID, au_Detail := verificationErr \<rparr>))"

text \<open>The middleware: the limiter's answer, or nothing when the request goes on to its handler.\<close>

definition request_policy :: "Core \<Rightarrow> string \<Rightarrow> rateLimitPolicy" where
  "request_policy s path =
     (if hasPrefix path ''/v1/auth/'' then co_authPolicy s
      else if hasPrefix path ''/v1/admin/'' then co_adminPolicy s
      else co_generalPolicy s)"

definition rateLimitRequests :: "(string \<Rightarrow> string) \<Rightarrow> Core \<Rightarrow> (nat \<Rightarrow> gotime) \<Rightarrow> Request \<Rightarrow> Core \<times> 'b Response option" where
  "rateLimitRequests sha256 s clk r =
     (if co_rateLimiter s = None \<or> cf_RateLimitDisabled (co_cfg s) \<or> rateLimitExemptPath (rq_Path r) then (s, None)
      else let clientIP = requestClientIP r (cf_RateLimitTrustedProxyCIDRs (co_cfg s))
           in case enforceRateLimit s clk r (request_policy s (rq_Path r)) (''ip:'' @ clientIP) '''' '''' of
                (s, Some w) \<Rightarrow> (s, Some w)
              | (s, None) \<Rightarrow>
                  (let (installationID, deviceSecret) = requestInstallationCredentials r
                   in if installationID \<noteq> '''' \<and> deviceSecret \<noteq> ''''
                      then enforceInstallationRateLimit sha256 s (\<lambda>n. clk (n + 2)) r installationID deviceSecret
                      else (s, None)))"

end
