(* ===== verification/Http_Properties.thy ===== *)
theory Http_Properties
  imports Http_Model
begin

text \<open>
  What the rate limiting of requests promises: which address a request is counted under, and
  how many requests and how many audit records get through. A run of requests is related to the
  sequence of limiter operations it performs, on which the bound of the bucket is known.
\<close>

section \<open>The address a client cannot choose\<close>

lemma map_filter_append: "List.map_filter f (xs @ ys) = List.map_filter f xs @ List.map_filter f ys"
  by (induction xs) (auto simp: List.map_filter_def)

lemma splitChar_join: "splitChar sep (p @ sep # s) = splitChar sep p @ splitChar sep s"
proof (induction p)
  case (Cons c p)
  show ?case
  proof (cases "c = sep")
    case False
    obtain q qs where "splitChar sep p = q # qs" using splitChar_nonempty [of sep p] by (cases "splitChar sep p") auto
    thus ?thesis using Cons False by simp
  qed (use Cons in simp)
qed simp

lemma forwarded_chain_append: "forwarded_chain (p @ CHR '','' # s) = forwarded_chain p @ forwarded_chain s"
  by (simp add: forwarded_chain_def splitChar_join map_filter_append)

lemma find_append_hit: "find P xs = Some x \<Longrightarrow> find P (xs @ ys) = Some x"
  by (induction xs) (auto split: if_splits)


section \<open>Requests as operations of the limiter\<close>

definition enforce_takes :: "rateLimiter \<Rightarrow> rateLimitPolicy \<Rightarrow> string \<Rightarrow> (nat \<Rightarrow> gotime) \<Rightarrow> rl_request list" where
  "enforce_takes l policy key clk = (let d = snd (rl_take l policy key (clk 0)) in
     (policy, key, clk 0) # (if \<not> de_Allowed d \<and> de_Audit d then [(audit_policy, ''global'', clk 1)] else []))"

definition ip_key :: "Core \<Rightarrow> Request \<Rightarrow> string" where
  "ip_key s r = ''ip:'' @ requestClientIP r (cf_RateLimitTrustedProxyCIDRs (co_cfg s))"

text \<open>Whether the limiter looks at a request at all, and at its device.\<close>

definition limited :: "Core \<Rightarrow> Request \<Rightarrow> bool" where
  "limited s r \<longleftrightarrow> \<not> cf_RateLimitDisabled (co_cfg s) \<and> \<not> rateLimitExemptPath (rq_Path r)"

definition device_limited :: "Request \<Rightarrow> bool" where
  "device_limited r = (case requestInstallationCredentials r of (i, d) \<Rightarrow>
     i \<noteq> '''' \<and> d \<noteq> '''' \<and> validateMobileDevice i d = None)"

definition device_key :: "(string \<Rightarrow> string) \<Rightarrow> Request \<Rightarrow> string" where
  "device_key sha256 r = (case requestInstallationCredentials r of (i, d) \<Rightarrow>
     ''installation:'' @ installationRateKey sha256 i d)"

definition request_takes :: "(string \<Rightarrow> string) \<Rightarrow> Core \<Rightarrow> rateLimiter \<Rightarrow> (nat \<Rightarrow> gotime) \<Rightarrow> Request \<Rightarrow> rl_request list" where
  "request_takes sha256 s l clk r =
     (if \<not> limited s r then []
      else let ts = enforce_takes l (request_policy s (rq_Path r)) (ip_key s r) clk
           in if de_Allowed (snd (rl_take l (request_policy s (rq_Path r)) (ip_key s r) (clk 0))) \<and> device_limited r
              then ts @ enforce_takes (rl_after l ts) (co_installationPolicy s) (device_key sha256 r) (\<lambda>n. clk (n + 2))
              else ts)"

definition settings_of :: "Core \<Rightarrow> Config \<times> rateLimitPolicy \<times> rateLimitPolicy \<times> rateLimitPolicy \<times> rateLimitPolicy" where
  "settings_of s = (co_cfg s, co_generalPolicy s, co_authPolicy s, co_installationPolicy s, co_adminPolicy s)"

abbreviation audit_key :: string where
  "audit_key \<equiv> bucketKey audit_policy ''global''"

lemma rl_after_append: "rl_after l (xs @ ys) = rl_after (rl_after l xs) ys"
  by (induction l xs rule: rl_after.induct) auto

lemma accepted_append: "accepted k l (xs @ ys) = accepted k l xs + accepted k (rl_after l xs) ys"
  by (induction l xs rule: rl_after.induct) auto

lemma enforceRateLimit_takes:
  assumes "co_rateLimiter s = Some l" and "bucketKey policy key \<noteq> audit_key"
    and "enforceRateLimit s clk r policy key i u = (s', w)"
  shows "co_rateLimiter s' = Some (rl_after l (enforce_takes l policy key clk)) \<and>
    length (co_trail s') = length (co_trail s) + accepted audit_key l (enforce_takes l policy key clk) \<and>
    settings_of s' = settings_of s \<and>
    (w = None) = de_Allowed (snd (rl_take l policy key (clk 0)))"
proof -
  obtain l1 d where t: "rl_take l policy key (clk 0) = (l1, d)" by fastforce
  obtain l2 d2 where a: "rl_take l1 audit_policy ''global'' (clk (Suc 0)) = (l2, d2)" by fastforce
  have lim: "\<not> unlimited audit_policy" by (simp add: unlimited_def audit_policy_def)
  show ?thesis using assms lim
    by (auto simp: enforceRateLimit_def enforce_takes_def co_take_def take_opt_def auditRateLimitBlock_def
        auditRecord_def settings_of_def t a Let_def split: if_splits)
qed

lemma rateLimitRequests_takes:
  assumes "co_rateLimiter s = Some l" and "bucketKey (request_policy s (rq_Path r)) (ip_key s r) \<noteq> audit_key"
    and "bucketKey (co_installationPolicy s) (device_key sha256 r) \<noteq> audit_key"
    and "rateLimitRequests sha256 s clk r = (s', w :: 'b Response option)"
  shows "co_rateLimiter s' = Some (rl_after l (request_takes sha256 s l clk r)) \<and>
    length (co_trail s') = length (co_trail s) + accepted audit_key l (request_takes sha256 s l clk r) \<and>
    settings_of s' = settings_of s \<and>
    (w = None \<longrightarrow> limited s r \<longrightarrow> de_Allowed (snd (rl_take l (request_policy s (rq_Path r)) (ip_key s r) (clk 0))))"
proof (cases "limited s r")
  case False
  thus ?thesis using assms by (auto simp: rateLimitRequests_def request_takes_def limited_def)
next
  case True
  let ?p = "request_policy s (rq_Path r)" and ?k = "ip_key s r"
  obtain s1 w1 where e: "enforceRateLimit s clk r ?p ?k '''' '''' = (s1, w1 :: 'b Response option)" by fastforce
  note one = enforceRateLimit_takes [OF assms(1,2) e]
  obtain i d where cr: "requestInstallationCredentials r = (i, d)" by fastforce
  have inst: "co_installationPolicy s1 = co_installationPolicy s" "co_cfg s1 = co_cfg s"
    using one by (simp_all add: settings_of_def)
  have mw: "rateLimitRequests sha256 s clk r = (case w1 of Some w \<Rightarrow> (s1, Some w)
      | None \<Rightarrow> if i \<noteq> '''' \<and> d \<noteq> '''' then enforceInstallationRateLimit sha256 s1 (\<lambda>n. clk (n + 2)) r i d else (s1, None))"
    using True assms(1) e cr by (simp add: rateLimitRequests_def limited_def ip_key_def split: option.split)
  show ?thesis
  proof (cases "w1 = None \<and> device_limited r")
    case False
    hence "s' = s1 \<and> w = w1" using mw assms(4) cr inst one
      by (auto simp: device_limited_def enforceInstallationRateLimit_def split: option.splits if_splits)
    moreover have "request_takes sha256 s l clk r = enforce_takes l ?p ?k clk"
      using False True one by (auto simp: request_takes_def Let_def)
    ultimately show ?thesis using one by simp
  next
    case two: True
    let ?ts = "enforce_takes l ?p ?k clk"
    have l1: "co_rateLimiter s1 = Some (rl_after l ?ts)" using one by simp
    have "\<not> cf_RateLimitDisabled (co_cfg s1)" using True inst by (simp add: limited_def)
    hence en: "enforceRateLimit s1 (\<lambda>n. clk (n + 2)) r (co_installationPolicy s) (device_key sha256 r) (trimSpace i) '''' = (s', w)"
      using mw assms(4) cr two inst l1
      by (simp add: device_limited_def device_key_def enforceInstallationRateLimit_def)
    note sec = enforceRateLimit_takes [OF l1 assms(3) en]
    have "request_takes sha256 s l clk r =
        ?ts @ enforce_takes (rl_after l ?ts) (co_installationPolicy s) (device_key sha256 r) (\<lambda>n. clk (n + 2))"
      using True two one by (simp add: request_takes_def Let_def)
    thus ?thesis using one sec two by (simp add: rl_after_append accepted_append)
  qed
qed

section \<open>Runs of requests\<close>

type_synonym timed_request = "Request \<times> (nat \<Rightarrow> gotime)"

fun core_after :: "(string \<Rightarrow> string) \<Rightarrow> Core \<Rightarrow> timed_request list \<Rightarrow> Core" where
  "core_after sha256 s [] = s"
| "core_after sha256 s ((r, clk) # rs) =
     core_after sha256 (fst (rateLimitRequests sha256 s clk r :: Core \<times> unit Response option)) rs"

text \<open>The number of requests of a run that are limited under a policy and an address and get
  through to their handlers.\<close>

fun passed :: "(string \<Rightarrow> string) \<Rightarrow> rateLimitPolicy \<Rightarrow> string \<Rightarrow> Core \<Rightarrow> timed_request list \<Rightarrow> nat" where
  "passed sha256 p k s [] = 0"
| "passed sha256 p k s ((r, clk) # rs) =
     (let (s', w) = (rateLimitRequests sha256 s clk r :: Core \<times> unit Response option)
      in (if limited s r \<and> request_policy s (rq_Path r) = p \<and> ip_key s r = k \<and> w = None then 1 else 0) +
         passed sha256 p k s' rs)"

fun run_takes :: "(string \<Rightarrow> string) \<Rightarrow> Core \<Rightarrow> rateLimiter \<Rightarrow> timed_request list \<Rightarrow> rl_request list" where
  "run_takes sha256 s l [] = []"
| "run_takes sha256 s l ((r, clk) # rs) =
     (let ts = request_takes sha256 s l clk r in ts @ run_takes sha256 s (rl_after l ts) rs)"

definition clock_readings :: "timed_request list \<Rightarrow> gotime list" where
  "clock_readings rs = concat (map (\<lambda>(r, clk). map clk [0, 1, 2, 3]) rs)"

text \<open>The policies of a server keep their buckets apart.\<close>

definition policies_ok :: "Core \<Rightarrow> bool" where
  "policies_ok s \<longleftrightarrow> (\<exists>cfg. limits_ok cfg \<and> settings_of s = settings_of (New_core cfg))"

definition policy_names :: "string list" where
  "policy_names = [''general_ip'', ''auth_ip'', ''installation'', ''admin_ip'', ''rate_limit_audit'']"

lemma bucketKey_name: "CHR 0x00 \<notin> set (pl_name p) \<Longrightarrow> takeWhile (\<lambda>c. c \<noteq> CHR 0x00) (bucketKey p k) = pl_name p"
  by (auto simp: bucketKey_def Let_def takeWhile_tail takeWhile_eq_all_conv)

lemma names_free: "n \<in> set policy_names \<Longrightarrow> CHR 0x00 \<notin> set n"
  by (auto simp: policy_names_def)

lemma policies_named:
  assumes "policies_ok s"
  shows "pl_name (co_generalPolicy s) = ''general_ip''" "pl_name (co_authPolicy s) = ''auth_ip''"
    "pl_name (co_installationPolicy s) = ''installation''" "pl_name (co_adminPolicy s) = ''admin_ip''"
    "pl_name audit_policy = ''rate_limit_audit''"
  using assms by (auto simp: policies_ok_def settings_of_def New_core_def audit_policy_def)

lemma policies_policy_ok:
  assumes "policies_ok s"
  shows "policy_ok (co_generalPolicy s)" "policy_ok (co_authPolicy s)" "policy_ok (co_installationPolicy s)"
    "policy_ok (co_adminPolicy s)" "policy_ok audit_policy"
  using assms by (auto simp: policies_ok_def settings_of_def New_core_def audit_policy_def policy_ok_def limits_ok_def
      configured_limits rate_limit_defaults)

definition policies :: "Core \<Rightarrow> rateLimitPolicy set" where
  "policies s = {co_generalPolicy s, co_authPolicy s, co_installationPolicy s, co_adminPolicy s, audit_policy}"

lemma policies_apart:
  assumes "policies_ok s" and "p \<in> policies s" and "q \<in> policies s" and "bucketKey p a = bucketKey q b"
  shows "p = q"
proof -
  note n = policies_named [OF assms(1)]
  have "pl_name p \<in> set policy_names" "pl_name q \<in> set policy_names"
    using assms(2,3) n by (auto simp: policies_def policy_names_def)
  hence "pl_name p = pl_name q" using bucketKey_name names_free assms(4) by metis
  thus ?thesis using assms(2,3) n unfolding policies_def by fastforce
qed

lemma request_policy_in: "request_policy s path \<in> {co_generalPolicy s, co_authPolicy s, co_adminPolicy s}"
  by (simp add: request_policy_def)

lemma not_audit_key:
  assumes "policies_ok s" and "p \<in> policies s" and "p \<noteq> audit_policy"
  shows "bucketKey p k \<noteq> audit_key"
  using policies_apart [OF assms(1,2), of audit_policy k "''global''"] assms(3) by (auto simp: policies_def)

lemma request_policy_not_audit:
  assumes "policies_ok s"
  shows "request_policy s path \<noteq> audit_policy" "co_installationPolicy s \<noteq> audit_policy"
    "request_policy s path \<in> policies s" "co_installationPolicy s \<in> policies s"
  using request_policy_in [of s path] policies_named [OF assms] by (auto simp: policies_def)

lemma takes_policies: "(q, key, now) \<in> set (request_takes sha256 s l clk r) \<Longrightarrow> q \<in> policies s"
  using request_policy_in [of s "rq_Path r"]
  by (auto simp: request_takes_def enforce_takes_def policies_def Let_def split: if_splits)

lemma enforce_times: "subseq (map (\<lambda>(_, _, now). now) (enforce_takes l p k clk)) [clk 0, clk 1]"
  by (simp add: enforce_takes_def Let_def)

lemma takes_times: "subseq (map (\<lambda>(_, _, now). now) (request_takes sha256 s l clk r)) (map clk [0, 1, 2, 3])"
proof -
  let ?t = "\<lambda>ts. map (\<lambda>(_, _, now). now) ts :: gotime list"
  have c: "map clk [0, 1, 2, 3] = [clk 0, clk 1] @ [clk 2, clk 3]" by simp
  have one: "subseq (?t (enforce_takes l p k clk)) ([clk 0, clk 1] @ [clk 2, clk 3])" for l p k
    using enforce_times by (rule list_emb_prefix)
  have two: "subseq (?t (enforce_takes l p k clk) @ ?t (enforce_takes l' p' k' (\<lambda>n. clk (n + 2)))) ([clk 0, clk 1] @ [clk 2, clk 3])"
    for l p k l' p' k'
    by (rule list_emb_append_mono) (use enforce_times [of l' p' k' "\<lambda>n. clk (n + 2)"] enforce_times in \<open>simp_all add: numeral_2_eq_2 numeral_3_eq_3\<close>)
  show ?thesis unfolding c request_takes_def Let_def using one two by simp
qed

lemma sorted_subseq: "subseq xs ys \<Longrightarrow> sorted_wrt R ys \<Longrightarrow> sorted_wrt R xs"
  by (induction rule: list_emb.induct) (auto dest: list_emb_set)

lemma run_takes_policies: "(q, key, now) \<in> set (run_takes sha256 s l rs) \<Longrightarrow> q \<in> policies s"
  by (induction sha256 s l rs rule: run_takes.induct) (auto simp: Let_def dest: takes_policies)

lemma run_takes_times: "subseq (map (\<lambda>(_, _, now). now) (run_takes sha256 s l rs)) (clock_readings rs)"
proof (induction sha256 s l rs rule: run_takes.induct)
  case (2 sha256 s l r clk rs)
  show ?case using list_emb_append_mono [OF takes_times [of sha256 s l clk r] 2 [OF refl]]
    by (simp add: Let_def clock_readings_def)
qed (simp add: clock_readings_def)

lemma settings_takes:
  assumes "settings_of s' = settings_of s"
  shows "request_takes sha256 s' l clk r = request_takes sha256 s l clk r"
proof -
  have "limited s' r = limited s r" "request_policy s' (rq_Path r) = request_policy s (rq_Path r)"
    "ip_key s' r = ip_key s r" "co_installationPolicy s' = co_installationPolicy s"
    using assms by (simp_all add: settings_of_def limited_def request_policy_def ip_key_def)
  thus ?thesis by (simp only: request_takes_def)
qed

lemma settings_run:
  assumes "settings_of s' = settings_of s"
  shows "run_takes sha256 s' l rs = run_takes sha256 s l rs"
  by (induction rs arbitrary: l) (auto simp: settings_takes [OF assms])

text \<open>A run performs the operations of \<^const>\<open>run_takes\<close> on the limiter; each request that passes
  is one that the bucket of its address accepted, each audit record one that the bucket of the
  audit accepted.\<close>

lemma run_simulation:
  assumes "policies_ok s" and "co_rateLimiter s = Some l" and "p \<in> {co_generalPolicy s, co_authPolicy s, co_adminPolicy s}"
  shows "passed sha256 p k s rs \<le> accepted (bucketKey p k) l (run_takes sha256 s l rs) \<and>
    length (co_trail (core_after sha256 s rs)) = length (co_trail s) + accepted audit_key l (run_takes sha256 s l rs)"
  using assms
proof (induction rs arbitrary: s l)
  case (Cons rc rs)
  obtain r clk where rc: "rc = (r, clk)" by (cases rc)
  obtain s' w where mw: "rateLimitRequests sha256 s clk r = (s', w :: unit Response option)" by fastforce
  note pol = request_policy_not_audit [OF Cons.prems(1)]
  note step = rateLimitRequests_takes [OF Cons.prems(2) not_audit_key [OF Cons.prems(1) pol(3,1)]
      not_audit_key [OF Cons.prems(1) pol(4,2)] mw]
  let ?ts = "request_takes sha256 s l clk r"
  have st: "settings_of s' = settings_of s" "co_rateLimiter s' = Some (rl_after l ?ts)" using step by simp_all
  have ok': "policies_ok s'" using Cons.prems(1) st(1) by (simp add: policies_ok_def)
  have p': "p \<in> {co_generalPolicy s', co_authPolicy s', co_adminPolicy s'}" using Cons.prems(3) st(1) by (simp add: settings_of_def)
  have "policy_ok p" using Cons.prems(3) policies_policy_ok [OF Cons.prems(1)] by auto
  hence "\<not> unlimited p" by (simp add: unlimited_def policy_ok_def)
  hence "1 \<le> accepted (bucketKey p k) l ?ts"
    if "limited s r" "request_policy s (rq_Path r) = p" "ip_key s r = k" "w = None"
    using that step by (simp add: request_takes_def enforce_takes_def Let_def)
  thus ?case using Cons.IH [OF ok' st(2) p'] step settings_run [OF st(1)]
    by (auto simp: rc mw Let_def accepted_append)
qed simp

text \<open>The run of a bucket on a fresh server.\<close>

lemma fresh_run:
  assumes "limits_ok cfg" and "p \<in> policies (New_core cfg)"
    and "sorted (t0 # clock_readings rs)" and "\<forall>t \<in> set (clock_readings rs). t \<le> t1"
    and "t0 \<le> t1" and "t1 - t0 < 2 ^ 63"
  shows "let l = newRateLimiter (rateLimitMaxKeys cfg) (rateLimitIdleTTL cfg); ops = run_takes sha256 (New_core cfg) l rs
    in of_nat (accepted (bucketKey p k) l ops) \<le> burst_of p * (1 + of_nat (evicted (bucketKey p k) l ops)) +
       granted p (t1 - t0) * (1 + ulp_eps) ^ 5 + 2 * of_nat (length ops) * burst_of p * ulp_eps"
proof -
  let ?s = "New_core cfg" and ?l = "newRateLimiter (rateLimitMaxKeys cfg) (rateLimitIdleTTL cfg)"
  let ?ops = "run_takes sha256 ?s ?l rs"
  have ok: "policies_ok ?s" using assms(1) by (auto simp: policies_ok_def)
  have pok: "policy_ok p" using policies_policy_ok [OF ok] assms(2) by (auto simp: policies_def)
  have none: "mget (rl_buckets ?l) (bucketKey p k) = None" by (simp add: newRateLimiter_def)
  have b: "bucket_inv p t0 (mget (rl_buckets ?l) (bucketKey p k))"
    "\<And>x. mget (rl_buckets ?l) (bucketKey p k) = Some x \<Longrightarrow> t0 \<le> bu_updatedAt x"
    unfolding none by (simp_all add: bucket_inv_def)
  have sub: "subseq (t0 # map (\<lambda>(_, _, now). now) ?ops) (t0 # clock_readings rs)"
    using run_takes_times by (simp add: subseq_Cons2)
  have srt: "sorted (t0 # map (\<lambda>(_, _, now). now) ?ops)" by (rule sorted_subseq [OF sub assms(3)])
  have le: "\<forall>(_, _, now) \<in> set ?ops. now \<le> t1"
    using list_emb_set [OF run_takes_times [of sha256 ?s ?l rs]] assms(4) by force
  have req: "requests_ok p (bucketKey p k) ?ops"
    using policies_apart [OF ok _ assms(2)] run_takes_policies by (fastforce simp: requests_ok_def)
  have "of_nat (accepted (bucketKey p k) ?l ?ops) \<le> potential p t0 t1 None +
    burst_of p * of_nat (evicted (bucketKey p k) ?l ?ops) + 2 * of_nat (length ?ops) * burst_of p * ulp_eps"
    using rl_run_bound [OF pok rl_inv_new b(1) b(2) order_refl srt le assms(6) req] assms(5) unfolding none by linarith
  thus ?thesis by (simp add: potential_def level_def distrib_left Let_def)
qed


definition demo_request :: Request where
  "demo_request = \<lparr> rq_Method = ''GET'', rq_Path = ''/healthz'', rq_RemoteAddr = ''192.0.2.7:4711'', rq_Header = (\<lambda>_. []),
     rq_Query = (\<lambda>_. ''''), rq_PathValue = (\<lambda>_. '''') \<rparr>"



end
