(* ===== verification/Push_Socket.thy ===== *)
theory Push_Socket
  imports Http_Model
begin

unbundle bit_operations_syntax

text \<open>
  The WebSocket of the embedded push transport (\<^verbatim>\<open>internal/application/push_socket.go\<close>): the frames
  the server writes and reads, the headers of the upgrade, and the hub that knows the open
  connection of each device. The input of a connection is the bytes that arrive before its
  deadline; \<open>sha1\<close> is the hash of the handshake.
\<close>

section \<open>Frames\<close>

definition maxSocketMessageBytes :: nat where "maxSocketMessageBytes = 65536"

fun be_bytes :: "nat \<Rightarrow> nat \<Rightarrow> string" where
  "be_bytes 0 n = []"
| "be_bytes (Suc k) n = be_bytes k (n div 256) @ [char_of (n mod 256)]"

definition be_value :: "string \<Rightarrow> nat" where
  "be_value bs = foldl (\<lambda>v c. v * 256 + of_char c) 0 bs"

definition frame_size :: "nat \<Rightarrow> string" where
  "frame_size n = (if n \<le> 125 then [char_of n] else if n \<le> 65535 then char_of (126 :: nat) # be_bytes 2 n
     else char_of (127 :: nat) # be_bytes 8 n)"

definition errClosed :: err where "errClosed = ErrText ''use of closed network connection''"
definition errEOF :: err where "errEOF = ErrText ''EOF''"
definition errUnexpectedEOF :: err where "errUnexpectedEOF = ErrText ''unexpected EOF''"

text \<open>What a write puts on the wire; \<open>wire\<close> is the error of writing to the connection, if it fails.\<close>

definition writeFrame :: "bool \<Rightarrow> err option \<Rightarrow> nat \<Rightarrow> string \<Rightarrow> err + string" where
  "writeFrame isClosed wire opcode payload =
     (if isClosed then Inl errClosed
      else case wire of
        Some e \<Rightarrow> Inl e
      | None \<Rightarrow> Inr (char_of (128 OR opcode) # frame_size (length payload) @ payload))"

definition readFull :: "nat \<Rightarrow> string \<Rightarrow> err + string \<times> string" where
  "readFull n s = (if length s < n then Inl (if s = [] then errEOF else errUnexpectedEOF) else Inr (take n s, drop n s))"

lemma readFull_Inr: "readFull n s = Inr (a, b) \<longleftrightarrow> n \<le> length s \<and> a = take n s \<and> b = drop n s"
  by (auto simp: readFull_def)

definition xor_char :: "char \<Rightarrow> char \<Rightarrow> char" where
  "xor_char a m = char_of ((of_char a :: nat) XOR of_char m)"

definition unmask :: "string \<Rightarrow> string \<Rightarrow> string" where
  "unmask key4 payload = map (\<lambda>i. xor_char (payload ! i) (key4 ! (i mod 4))) [0 ..< length payload]"

text \<open>One frame: its opcode, its payload and the rest of the input.\<close>

definition frame_length :: "nat \<Rightarrow> string \<Rightarrow> err + nat \<times> string" where
  "frame_length n s =
     (if n = 126 then ebind (readFull 2 s) (\<lambda>(v, s). Inr (be_value v, s))
      else if n = 127 then ebind (readFull 8 s) (\<lambda>(v, s). Inr (be_value v, s))
      else Inr (n, s))"

definition frame_rejected :: "bool \<Rightarrow> nat \<Rightarrow> nat \<Rightarrow> string option" where
  "frame_rejected fin opcode n =
     (if opcode \<ge> 8 then
        (if \<not> fin then Some ''fragmented WebSocket control frame''
         else if n > 125 then Some ''WebSocket control frame exceeds 125 bytes'' else None)
      else if \<not> fin then Some ''fragmented WebSocket frames are not supported''
      else None)"

definition readFrame :: "string \<Rightarrow> err + nat \<times> string \<times> string" where
  "readFrame s = (case s of
       c1 # c2 # s \<Rightarrow>
         (let a = of_char c1 :: nat; b = of_char c2 :: nat;
              fin = (a AND 128 \<noteq> 0); opcode = a AND 15; masked = (b AND 128 \<noteq> 0)
          in if a AND 112 \<noteq> 0 then Inl (ErrText ''WebSocket reserved bits are not supported'')
             else if \<not> masked then Inl (ErrText ''client WebSocket frame is not masked'')
             else ebind (frame_length (b AND 127) s) (\<lambda>(n, s).
               case frame_rejected fin opcode n of
                 Some e \<Rightarrow> Inl (ErrText e)
               | None \<Rightarrow>
                   if n > maxSocketMessageBytes then Inl (ErrText ''WebSocket frame exceeds 65536 bytes'')
                   else ebind (readFull 4 s) (\<lambda>(key4, s).
                        ebind (readFull n s) (\<lambda>(payload, s). Inr (opcode, unmask key4 payload, s)))))
     | _ \<Rightarrow> Inl errEOF)"

lemma readFrame_shorter: "readFrame s = Inr (opcode, payload, rest) \<Longrightarrow> length rest < length s"
  by (auto simp: readFrame_def frame_length_def readFull_Inr Let_def split: list.splits if_splits option.splits)

text \<open>The loop: control frames are answered until a text message comes. The bytes written, and
  the message with the rest of the input.\<close>

function readText :: "bool \<Rightarrow> err option \<Rightarrow> string \<Rightarrow> string \<times> (err + string \<times> string)" where
  "readText isClosed wire s = (case readFrame s of
       Inl e \<Rightarrow> ([], Inl e)
     | Inr (opcode, payload, rest) \<Rightarrow>
         if opcode = 1 then ([], Inr (payload, rest))
         else if opcode = 8 then
           ((case writeFrame isClosed wire 8 payload of Inl _ \<Rightarrow> [] | Inr b \<Rightarrow> b), Inl errEOF)
         else if opcode = 9 then
           (case writeFrame isClosed wire 10 payload of
              Inl e \<Rightarrow> ([], Inl e)
            | Inr b \<Rightarrow> (let (w, r) = readText isClosed wire rest in (b @ w, r)))
         else if opcode = 10 then readText isClosed wire rest
         else ([], Inl (ErrText (''unsupported WebSocket opcode '' @ digits_of opcode))))"
  by pat_completeness auto

termination readText
  by (relation "measure (\<lambda>(isClosed, wire, s). length s)") (auto dest: readFrame_shorter)

declare readText.simps [simp del]

text \<open>A client's frame: masked, otherwise with the same header.\<close>

definition client_frame :: "string \<Rightarrow> nat \<Rightarrow> string \<Rightarrow> string" where
  "client_frame key4 opcode payload =
     (let size = frame_size (length payload)
      in char_of (128 + opcode) # char_of (128 + of_char (hd size) :: nat) # tl size @ key4 @ unmask key4 payload)"

section \<open>The upgrade\<close>

definition websocketGUID :: string where
  "websocketGUID = ''258EAFA5-E914-47DA-95CA-C5AB0DC85B11''"

definition headerContainsToken :: "Unicode \<Rightarrow> string \<Rightarrow> string \<Rightarrow> bool" where
  "headerContainsToken uc value token =
     (\<exists>item \<in> set (splitChar (CHR '','') value). equalFold uc (trimSpace item) token)"

text \<open>The answer that refuses the upgrade, the bytes put on the connection, and the connection's
  id or the error. \<open>hijack\<close> is what the server library answers to taking the connection over
  (\<open>None\<close> when its writer does not support it), \<open>wire\<close> the error of the write, \<open>rnd\<close> the random
  bytes of the id.\<close>

definition randomSocketID :: "string option \<Rightarrow> err + string" where
  "randomSocketID rnd = (case rnd of None \<Rightarrow> Inl (ErrText ''rand'') | Some v \<Rightarrow> Inr (''psc_'' @ rawURL_encode v))"

definition std_encode :: "string \<Rightarrow> string" where
  "std_encode s = (let e = base64_encode std_alphabet s in e @ replicate ((4 - length e mod 4) mod 4) (CHR ''=''))"

definition crlf :: string where "crlf = [CHR 0x0D, CHR 0x0A]"

definition switchingProtocols :: "string \<Rightarrow> string" where
  "switchingProtocols accept =
     ''HTTP/1.1 101 Switching Protocols'' @ crlf @ ''Upgrade: websocket'' @ crlf @
     ''Connection: Upgrade'' @ crlf @ ''Sec-WebSocket-Accept: '' @ accept @ crlf @ crlf"

definition upgradePushSocket ::
  "Unicode \<Rightarrow> (string \<Rightarrow> string) \<Rightarrow> Request \<Rightarrow> err option option \<Rightarrow> err option \<Rightarrow> string option
   \<Rightarrow> string Response option \<times> string \<times> (err + string)" where
  "upgradePushSocket uc sha1 r hijack wire rnd =
     (if \<not> equalFold uc (headerGet r ''Upgrade'') ''websocket'' \<or>
         \<not> headerContainsToken uc (headerGet r ''Connection'') ''upgrade'' \<or>
         headerGet r ''Sec-WebSocket-Version'' \<noteq> ''13''
      then (Some (writeError [] 426 ''WebSocket upgrade required''), '''', Inl (ErrText ''invalid WebSocket upgrade headers''))
      else let key = trimSpace (headerGet r ''Sec-WebSocket-Key'')
           in if key = '''' then (Some (writeError [] 400 ''missing Sec-WebSocket-Key''), '''', Inl (ErrText ''missing WebSocket key''))
              else case hijack of
                None \<Rightarrow> (Some (writeError [] 500 ''WebSocket is not supported''), '''',
                         Inl (ErrText ''HTTP writer does not support hijacking''))
              | Some (Some e) \<Rightarrow> (None, '''', Inl e)
              | Some None \<Rightarrow>
                  let accept = std_encode (sha1 (key @ websocketGUID))
                  in case wire of
                       Some e \<Rightarrow> (None, '''', Inl e)
                     | None \<Rightarrow> (None, switchingProtocols accept, randomSocketID rnd))"

section \<open>The hub\<close>

text \<open>A connection is known by its id. The hub holds the connection of each installation and the
  ids of those that were closed.\<close>

record PushHub =
  hb_connections :: "(string, string) gomap"
  hb_closed :: "string list"

definition NewPushHub :: PushHub where
  "NewPushHub = \<lparr> hb_connections = [], hb_closed = [] \<rparr>"

definition hub_closeConnection :: "PushHub \<Rightarrow> string \<Rightarrow> PushHub" where
  "hub_closeConnection h connection =
     (if connection \<in> set (hb_closed h) then h else h\<lparr> hb_closed := connection # hb_closed h \<rparr>)"

definition hub_Attach :: "PushHub \<Rightarrow> string \<Rightarrow> string \<Rightarrow> PushHub" where
  "hub_Attach h installationID connection =
     (let previous = mget (hb_connections h) installationID;
          h = h\<lparr> hb_connections := mput installationID connection (hb_connections h) \<rparr>
      in case previous of
           Some p \<Rightarrow> if p \<noteq> connection then hub_closeConnection h p else h
         | None \<Rightarrow> h)"

definition hub_Detach :: "PushHub \<Rightarrow> string \<Rightarrow> string \<Rightarrow> PushHub" where
  "hub_Detach h installationID connection =
     (if mget (hb_connections h) installationID = Some connection
      then h\<lparr> hb_connections := mdel installationID (hb_connections h) \<rparr> else h)"

text \<open>Sending: \<open>wire\<close> is the error of the write on an open connection, if it fails.\<close>

definition hub_Send :: "PushHub \<Rightarrow> string \<Rightarrow> err option \<Rightarrow> PushHub \<times> err option" where
  "hub_Send h installationID wire = (case mget (hb_connections h) installationID of
       None \<Rightarrow> (h, Some ErrRegistrationNotFound)
     | Some connection \<Rightarrow>
         (case (if connection \<in> set (hb_closed h) then Some errClosed else wire) of
            Some e \<Rightarrow> (hub_closeConnection h connection, Some e)
          | None \<Rightarrow> (h, None)))"

definition hub_Close :: "PushHub \<Rightarrow> string \<Rightarrow> PushHub" where
  "hub_Close h installationID = (case mget (hb_connections h) installationID of
       None \<Rightarrow> h
     | Some connection \<Rightarrow> hub_closeConnection h connection)"

section \<open>Lemmas\<close>

lemma take_bit_char: "take_bit 8 (of_char c :: nat) = of_char c"
  by (simp add: take_bit_eq_mod)

lemma xor_char_twice: "xor_char (xor_char c m) m = c"
proof -
  have "(of_char (xor_char c m) :: nat) = take_bit 8 ((of_char c :: nat) XOR of_char m)"
    by (simp add: xor_char_def take_bit_eq_mod)
  also have "\<dots> = of_char c XOR of_char m" by (simp only: take_bit_xor take_bit_char)
  finally show ?thesis unfolding xor_char_def [of "xor_char c m"] by (simp add: xor.assoc)
qed

lemma length_unmask [simp]: "length (unmask m p) = length p"
  by (simp add: unmask_def)

lemma unmask_twice: "unmask m (unmask m p) = p"
  by (rule nth_equalityI) (simp_all add: unmask_def xor_char_twice)

lemma length_be_bytes [simp]: "length (be_bytes k n) = k"
  by (induction k arbitrary: n) simp_all

lemma be_value_snoc: "be_value (s @ [c]) = be_value s * 256 + of_char c"
  by (simp add: be_value_def)

lemma be_value_bytes: "n < 256 ^ k \<Longrightarrow> be_value (be_bytes k n) = n"
proof (induction k arbitrary: n)
  case (Suc k)
  have "n div 256 < 256 ^ k" using Suc.prems by (simp add: less_mult_imp_div_less mult.commute)
  thus ?case using Suc.IH [of "n div 256"] by (simp add: be_value_snoc)
qed (simp add: be_value_def)

lemma and_127: "(x :: nat) AND 127 = x mod 128"
  using take_bit_eq_mask [of 7 x] by (simp add: take_bit_eq_mod mask_eq_exp_minus_1)

lemma and_128: "n < 128 \<Longrightarrow> (128 + n :: nat) AND 128 \<noteq> 0"
  using and_exp_eq_0_iff_not_bit [of "128 + n" 7] by (simp add: bit_iff_odd)

lemma frame_length_size:
  assumes "n \<le> 65536"
  shows "\<exists>b. of_char (hd (frame_size n)) = b \<and> b < 128 \<and> frame_length b (tl (frame_size n) @ s) = Inr (n, s)"
proof -
  have v8: "be_value (be_bytes 8 n) = n" using assms by (intro be_value_bytes) simp
  have v2: "n \<le> 65535 \<Longrightarrow> be_value (be_bytes 2 n) = n" by (rule be_value_bytes) simp
  consider "n \<le> 125" | "125 < n" "n \<le> 65535" | "65535 < n" by linarith
  thus ?thesis
    by cases (use v8 v2 in \<open>simp_all add: frame_size_def frame_length_def readFull_def ebind_def\<close>)
qed

lemma readFrame_client:
  assumes "length m = 4" and "opcode \<in> {1, 9}" and "length p \<le> (if opcode = 9 then 125 else 65536)"
  shows "readFrame (client_frame m opcode p @ rest) = Inr (opcode, p, rest)"
proof -
  let ?size = "frame_size (length p)"
  have len: "length p \<le> 65536" using assms(3) by (simp split: if_splits)
  obtain b where b: "of_char (hd ?size) = b" "b < 128" and
    l: "frame_length b (tl ?size @ m @ unmask m p @ rest) = Inr (length p, m @ unmask m p @ rest)"
    using frame_length_size [OF len] by metis
  have c1: "of_char (char_of (128 + opcode) :: char) = 128 + opcode" using assms(2) by auto
  have c2: "of_char (char_of (128 + b) :: char) = 128 + b" using b(2) by simp
  have bits: "(128 + opcode) AND 112 = 0" "(128 + opcode) AND 128 \<noteq> 0" "(128 + opcode) AND 15 = opcode"
    using assms(2) by auto
  have rej: "frame_rejected True opcode (length p) = None" using assms by (auto simp: frame_rejected_def)
  have low: "(128 + b) AND 127 = b" using b(2) by (simp add: and_127)
  show ?thesis
    unfolding client_frame_def Let_def readFrame_def b(1) append_Cons list.case append_assoc c1 c2 low
    using bits and_128 [OF b(2)] l rej len assms(1)
    by (simp add: ebind_def readFull_def maxSocketMessageBytes_def unmask_twice)
qed

definition pong_frame :: "string \<Rightarrow> string" where
  "pong_frame q = char_of (138 :: nat) # frame_size (length q) @ q"



text \<open>No message is longer than the limit, whatever arrives.\<close>

lemma readFrame_bound: "readFrame s = Inr (opcode, payload, rest) \<Longrightarrow> length payload \<le> 65536"
  by (auto simp: readFrame_def readFull_Inr maxSocketMessageBytes_def Let_def split: list.splits if_splits option.splits)

lemma readText_step:
  assumes "readText isClosed wire s = (w, Inr (payload, rest))"
  obtains "readFrame s = Inr (1, payload, rest)"
  | opcode q r w' where "readFrame s = Inr (opcode, q, r)" "opcode \<in> {9, 10}"
      "readText isClosed wire r = (w', Inr (payload, rest))"
proof (cases "readFrame s")
  case (Inl e)
  thus thesis using assms by (simp add: readText.simps)
next
  case (Inr f)
  obtain opcode q r where f: "readFrame s = Inr (opcode, q, r)" using Inr by (metis prod_cases3)
  consider "opcode = 1" | "opcode = 8" | "opcode = 9" | "opcode = 10" | "opcode \<notin> {1, 8, 9, 10}" by auto
  thus thesis
    by cases (use assms f that in \<open>auto simp: readText.simps [of _ _ s] split: sum.splits prod.splits\<close>)
qed

lemma readText_bound:
  "readText isClosed wire s = (w, Inr (payload, rest)) \<Longrightarrow> length payload \<le> 65536 \<and> length rest < length s"
proof (induction s arbitrary: w rule: length_induct)
  case (1 s)
  from 1(2) show ?case
  proof (cases rule: readText_step)
    case 1
    thus ?thesis by (simp add: readFrame_bound readFrame_shorter)
  next
    case (2 opcode q r w')
    thus ?thesis using 1(1) readFrame_shorter [of s] less_trans by blast
  qed
qed

text \<open>The newest connection of a device is the one that is used, and its predecessor is closed;
  the end of a connection that was replaced does not take its successor away.\<close>

lemma hub_newest:
  "mget (hb_connections (hub_Attach h i c)) i = Some c"
  "mget (hb_connections h) i = Some p \<Longrightarrow> p \<noteq> c \<Longrightarrow> p \<in> set (hb_closed (hub_Attach h i c))"
  "p \<noteq> c \<Longrightarrow> mget (hb_connections (hub_Detach (hub_Attach h i c) i p)) i = Some c"
  by (auto simp: hub_Attach_def hub_Detach_def hub_closeConnection_def Let_def split: option.splits)

end
