(* ===== verification/Registration_Handlers.thy ===== *)
theory Registration_Handlers
  imports Push_Socket Registration_Store
begin

text \<open>
  The registration of devices over HTTP (\<^verbatim>\<open>internal/application/server.go\<close>): what a client sends is
  normalised, validated, bound to the account of its login and stored. The repository is any
  one that meets the contract of \<open>registration_repository\<close>. \<open>credentialFor\<close> is the credential of
  a device, or nothing when the server has no login; \<open>moderated\<close> is what Twitch answers about the
  channels an account moderates; \<open>decoded\<close> is the JSON body.
\<close>

section \<open>Normalisation\<close>

definition decodeJSON :: "string + 'a \<Rightarrow> bool \<Rightarrow> err + 'a" where
  "decodeJSON first atEOF = (case first of
       Inl e \<Rightarrow> Inl (ErrText (''invalid JSON: '' @ e))
     | Inr v \<Rightarrow> if \<not> atEOF then Inl (ErrText ''invalid JSON: multiple values are not allowed'') else Inr v)"

definition normalizeRegistration :: "Unicode \<Rightarrow> Registration \<Rightarrow> Registration" where
  "normalizeRegistration uc r =
     (let r = r\<lparr> rg_Platform := toLower uc (trimSpace (rg_Platform r)), rg_Provider := toLower uc (trimSpace (rg_Provider r)),
                 rg_APNsDeviceToken := trimSpace (rg_APNsDeviceToken r), rg_Endpoint := trimSpace (rg_Endpoint r) \<rparr>
      in if rg_Platform r = '''' then r\<lparr> rg_Platform := ''android'' \<rparr> else r)"

definition validateRegistration :: "(string \<Rightarrow> URL option) \<Rightarrow> Registration \<Rightarrow> err option" where
  "validateRegistration urlParse r = (case validateMobileDevice (rg_InstallationID r) (rg_DeviceSecret r) of
       Some e \<Rightarrow> Some e
     | None \<Rightarrow>
         if rg_Platform r = ''android'' then
           (if rg_Provider r = ''fcm'' then
              (if rg_FirebaseInstallation r = '''' then Some (ErrText ''firebaseInstallationId is required for FCM'') else None)
            else if rg_Provider r = ''unifiedpush'' then
              (if rg_Endpoint r = '''' \<or> rg_P256DH r = '''' \<or> rg_Auth r = ''''
               then Some (ErrText ''endpoint, p256dh and auth are required for UnifiedPush'')
               else if ValidatePublicHTTPSURL urlParse (rg_Endpoint r) \<noteq> None
               then Some (ErrText ''UnifiedPush endpoint must be a public HTTPS URL'') else None)
            else if rg_Provider r = ''embedded_socket'' then None
            else Some (ErrText ''android provider must be fcm, unifiedpush, or embedded_socket''))
         else if rg_Platform r = ''ios'' then
           (if rg_Provider r \<noteq> ''apns'' then Some (ErrText ''ios provider must be apns'')
            else if rg_APNsDeviceToken r = '''' then Some (ErrText ''apnsDeviceToken is required for APNs'') else None)
         else Some (ErrText ''platform must be android or ios''))"

definition intersectStrings :: "Unicode \<Rightarrow> string list \<Rightarrow> string list \<Rightarrow> string list" where
  "intersectStrings uc values allowed = filter (\<lambda>v. toLower uc v \<in> set (map (toLower uc) allowed)) values"

fun limited_from :: "Unicode \<Rightarrow> nat \<Rightarrow> nat \<Rightarrow> string list \<Rightarrow> string list \<Rightarrow> string list \<Rightarrow> string list" where
  "limited_from uc maxItems maxLength seen result [] = result"
| "limited_from uc maxItems maxLength seen result (v # vs) =
     (let v = trimSpace v
      in if v = '''' \<or> length v > maxLength then limited_from uc maxItems maxLength seen result vs
         else let key = toLower uc v
              in if key \<in> set seen then limited_from uc maxItems maxLength seen result vs
                 else let result = result @ [v]
                      in if length result \<ge> maxItems then result
                         else limited_from uc maxItems maxLength (key # seen) result vs)"

definition normalizeLimitedStrings :: "Unicode \<Rightarrow> string list \<Rightarrow> nat \<Rightarrow> nat \<Rightarrow> string list" where
  "normalizeLimitedStrings uc values maxItems maxLength = limited_from uc maxItems maxLength [] [] values"

text \<open>The channels by their lower-case id.\<close>

definition allowed_channels :: "Unicode \<Rightarrow> string list \<Rightarrow> (string, string) gomap" where
  "allowed_channels uc channelIDs =
     foldl (\<lambda>m c. let c = trimSpace c in if c \<noteq> '''' then mput (toLower uc c) c m else m) [] channelIDs"

fun rules_from :: "Unicode \<Rightarrow> (string, string) gomap \<Rightarrow> (string, string list) gomap \<Rightarrow> (string, string list) gomap
    \<Rightarrow> (string, string list) gomap" where
  "rules_from uc allowed result [] = result"
| "rules_from uc allowed result ((raw, rules) # vs) = (case mget allowed (toLower uc (trimSpace raw)) of
       None \<Rightarrow> rules_from uc allowed result vs
     | Some c \<Rightarrow>
         (let result = mput c (normalizeLimitedStrings uc rules 32 64) result
          in if length result \<ge> 100 then result else rules_from uc allowed result vs))"

definition normalizeNotificationChannelRules :: "Unicode \<Rightarrow> (string, string list) gomap \<Rightarrow> string list
    \<Rightarrow> (string, string list) gomap" where
  "normalizeNotificationChannelRules uc value channelIDs =
     (if value = [] \<or> channelIDs = [] then []
      else let allowed = allowed_channels uc channelIDs
           in if allowed = [] then [] else rules_from uc allowed [] value)"

fun muted_from :: "Unicode \<Rightarrow> (string, string) gomap \<Rightarrow> (string, int) gomap \<Rightarrow> (string, int) gomap \<Rightarrow> (string, int) gomap" where
  "muted_from uc allowed result [] = result"
| "muted_from uc allowed result ((raw, mutedUntil) # vs) = (case mget allowed (toLower uc (trimSpace raw)) of
       None \<Rightarrow> muted_from uc allowed result vs
     | Some c \<Rightarrow>
         if mutedUntil \<le> 0 then muted_from uc allowed result vs
         else let result = mput c mutedUntil result
              in if length result \<ge> 100 then result else muted_from uc allowed result vs)"

definition normalizeNotificationChannelMuted :: "Unicode \<Rightarrow> (string, int) gomap \<Rightarrow> string list \<Rightarrow> (string, int) gomap" where
  "normalizeNotificationChannelMuted uc value channelIDs =
     (if value = [] \<or> channelIDs = [] then []
      else let allowed = allowed_channels uc channelIDs
           in if allowed = [] then [] else muted_from uc allowed [] value)"

definition limit_registration :: "Unicode \<Rightarrow> Registration \<Rightarrow> Registration" where
  "limit_registration uc r =
     (let channels = normalizeLimitedStrings uc (rg_ChannelIDs r) 100 64
      in r\<lparr> rg_ChannelIDs := channels,
            rg_ModeratorChannelIDs := intersectStrings uc (normalizeLimitedStrings uc (rg_ModeratorChannelIDs r) 100 64) channels,
            rg_NotificationRules := normalizeLimitedStrings uc (rg_NotificationRules r) 32 64,
            rg_NotificationChannelRules := normalizeNotificationChannelRules uc (rg_NotificationChannelRules r) channels,
            rg_MutedUntilEpochMillis := normalizeNotificationChannelMuted uc (rg_MutedUntilEpochMillis r) channels,
            rg_HighlightPhrases := normalizeLimitedStrings uc (rg_HighlightPhrases r) 100 200,
            rg_SelectedUserLogins := normalizeLimitedStrings uc (rg_SelectedUserLogins r) 100 50 \<rparr>)"

section \<open>The handlers\<close>

definition errorText :: "err \<Rightarrow> string" where
  "errorText e = (case e of
       ErrText m \<Rightarrow> m
     | ErrRegistrationNotFound \<Rightarrow> ''registration not found''
     | ErrDeviceSecretMismatch \<Rightarrow> ''device secret mismatch''
     | ErrSettingsSyncConflict \<Rightarrow> ''settings sync revision conflict''
     | ErrSettingsSyncRevisionNotFound \<Rightarrow> ''settings sync revision not found''
     | ErrAuthNotFound \<Rightarrow> ''authentication record not found''
     | ErrAuthExpired \<Rightarrow> ''authentication record expired''
     | ErrAuthDeviceMismatch \<Rightarrow> ''authentication device mismatch''
     | ErrAuthStateMismatch \<Rightarrow> ''authentication state mismatch''
     | ErrAuthCapacity \<Rightarrow> ''authentication store capacity exceeded'')"

text \<open>Binding a registration to the account of the device: the answer that ends the request, or
  the registration to store.\<close>

definition verified_moderation :: "Unicode \<Rightarrow> 's RegistrationRepository \<Rightarrow> 's \<Rightarrow> AuthCredential \<Rightarrow> string + string list
    \<Rightarrow> Registration \<Rightarrow> string list" where
  "verified_moderation uc repo store credential verified r = (case verified of
       Inl _ \<Rightarrow>
         (case rp_Get repo store (rg_InstallationID r) of
            Inr existing \<Rightarrow> if rg_UserID existing = ac_UserID credential
              then intersectStrings uc (rg_ModeratorChannelIDs r) (rg_ModeratorChannelIDs existing) else []
          | Inl _ \<Rightarrow> [])
     | Inr ids \<Rightarrow> intersectStrings uc (rg_ModeratorChannelIDs r) ids)"

definition unbound :: "Registration \<Rightarrow> Registration" where
  "unbound r = r\<lparr> rg_UserID := '''', rg_UserLogin := '''', rg_ChannelIDs := [], rg_ModeratorChannelIDs := [],
     rg_NotificationRules := [], rg_NotificationChannelRules := [], rg_MutedUntilEpochMillis := [],
     rg_HighlightPhrases := [], rg_SelectedUserLogins := [] \<rparr>"

definition bind_account :: "Unicode \<Rightarrow> 's RegistrationRepository \<Rightarrow> (string \<Rightarrow> string \<Rightarrow> err + AuthCredential) option
    \<Rightarrow> (string \<Rightarrow> string + string list) \<Rightarrow> Core \<Rightarrow> 's \<Rightarrow> Registration \<Rightarrow> Core \<times> (string Response + Registration)" where
  "bind_account uc repo credentialFor moderated s store r = (case credentialFor of
       None \<Rightarrow> (s, Inr (unbound r))
     | Some credentialForInstallation \<Rightarrow>
         (case credentialForInstallation (rg_InstallationID r) (rg_DeviceSecret r) of
            Inl e \<Rightarrow>
              (auditRecord s (empty_AuditRecord\<lparr> au_Action := ''push.registration.upsert'', au_Status := ''unauthorized'',
                 au_InstallationID := rg_InstallationID r, au_Detail := errorText e \<rparr>),
               Inl (writeError [] 401 ''active Twitch authorization is required''))
          | Inr credential \<Rightarrow>
              (let verified = moderated (ac_ID credential);
                   r = r\<lparr> rg_UserID := ac_UserID credential, rg_UserLogin := ac_Login credential,
                          rg_ModeratorChannelIDs := verified_moderation uc repo store credential verified r \<rparr>;
                   s = (case verified of
                          Inl e \<Rightarrow> auditRecord s (empty_AuditRecord\<lparr> au_Action := ''push.registration.moderation_verify'',
                            au_Status := ''failed_safe'', au_InstallationID := rg_InstallationID r,
                            au_UserID := ac_UserID credential, au_Detail := e \<rparr>)
                        | Inr _ \<Rightarrow> s)
               in (s, Inr r))))"

text \<open>The state after the request, the answer, and whether the reconciliation of subscriptions is
  asked for.\<close>

definition store_registration :: "'s RegistrationRepository \<Rightarrow> Core \<Rightarrow> 's \<Rightarrow> Registration
    \<Rightarrow> Core \<times> 's \<times> string Response \<times> bool" where
  "store_registration repo s store r = (case rp_Upsert repo store r of
       (store, Some e) \<Rightarrow> (s, store,
          (if e = ErrDeviceSecretMismatch then writeError [] 403 ''device secret mismatch''
           else writeError [] 500 ''registration was not saved''), False)
     | (store, None) \<Rightarrow>
          (auditRecord s (empty_AuditRecord\<lparr> au_Action := ''push.registration.upsert'', au_Status := ''ok'',
             au_InstallationID := rg_InstallationID r, au_UserID := rg_UserID r, au_Detail := rg_Provider r \<rparr>),
           store, writeJSON [] 200 ''registered'', True))"

definition upsertRegistration :: "Unicode \<Rightarrow> (string \<Rightarrow> URL option) \<Rightarrow> (string \<Rightarrow> string) \<Rightarrow> 's RegistrationRepository
    \<Rightarrow> (string \<Rightarrow> string \<Rightarrow> err + AuthCredential) option \<Rightarrow> (string \<Rightarrow> string + string list)
    \<Rightarrow> (nat \<Rightarrow> gotime) \<Rightarrow> Core \<Rightarrow> 's \<Rightarrow> Request \<Rightarrow> err + Registration \<Rightarrow> Core \<times> 's \<times> string Response \<times> bool" where
  "upsertRegistration uc urlParse sha256 repo credentialFor moderated clk s store r decoded = (case decoded of
       Inl e \<Rightarrow> (s, store, writeError [] 400 (errorText e), False)
     | Inr registration \<Rightarrow>
         if rg_InstallationID registration \<noteq> rq_PathValue r ''installationID''
         then (s, store, writeError [] 400 ''installationId does not match URL'', False)
         else let registration = normalizeRegistration uc registration
              in case validateRegistration urlParse registration of
                   Some e \<Rightarrow> (s, store, writeError [] 400 (errorText e), False)
                 | None \<Rightarrow>
                     (case enforceInstallationRateLimit sha256 s clk r (rg_InstallationID registration)
                             (rg_DeviceSecret registration) of
                        (s, Some w) \<Rightarrow> (s, store, w, False)
                      | (s, None) \<Rightarrow>
                          (case bind_account uc repo credentialFor moderated s store (limit_registration uc registration) of
                             (s, Inl w) \<Rightarrow> (s, store, w, False)
                           | (s, Inr registration) \<Rightarrow>
                               store_registration repo s store (registration\<lparr> rg_UpdatedAt := clk 2 \<rparr>))))"

definition deleteRegistration :: "'s RegistrationRepository \<Rightarrow> Core \<Rightarrow> 's \<Rightarrow> PushHub \<Rightarrow> Request
    \<Rightarrow> Core \<times> 's \<times> PushHub \<times> string Response \<times> bool" where
  "deleteRegistration repo s store hub r =
     (let installationID = rq_PathValue r ''installationID''
      in case rp_Delete repo store installationID (headerGet r ''X-Device-Secret'') of
           (store, Some e) \<Rightarrow> (s, store, hub,
              (if e = ErrRegistrationNotFound then writeError [] 404 ''registration not found''
               else if e = ErrDeviceSecretMismatch then writeError [] 403 ''device secret mismatch''
               else writeError [] 500 ''registration was not deleted''), False)
         | (store, None) \<Rightarrow>
              (auditRecord s (empty_AuditRecord\<lparr> au_Action := ''push.registration.delete'', au_Status := ''ok'',
                 au_InstallationID := installationID \<rparr>),
               store, hub_Close hub installationID, \<lparr> rs_Status = 204, rs_Header = [], rs_Body = Inr '''' \<rparr>, True))"

definition authorizeDevice :: "'s RegistrationRepository \<Rightarrow> 's \<Rightarrow> Request \<Rightarrow> 'b Response + Registration" where
  "authorizeDevice repo store r =
     (case rp_Authenticate repo store (rq_PathValue r ''installationID'') (headerGet r ''X-Device-Secret'') of
        Inl e \<Rightarrow> Inl (if e = ErrRegistrationNotFound then writeError [] 404 ''registration not found''
                   else if e = ErrDeviceSecretMismatch then writeError [] 403 ''device secret mismatch''
                   else writeError [] 500 ''registration lookup failed'')
      | Inr registration \<Rightarrow> Inr registration)"

section \<open>Sequences of requests\<close>

text \<open>Registrations change through these requests, and through the end of an account's
  authorization. Every upsert comes with the credentials and the answers of Twitch of its time.\<close>

datatype RegistrationRequest =
    UpsertRequest "(string \<Rightarrow> string \<Rightarrow> err + AuthCredential) option" "string \<Rightarrow> string + string list"
      "nat \<Rightarrow> gotime" Request "err + Registration"
  | DeleteRequest Request
  | AccountRevoked string "string list"

definition serve_registration :: "Unicode \<Rightarrow> (string \<Rightarrow> URL option) \<Rightarrow> (string \<Rightarrow> string) \<Rightarrow> 's RegistrationRepository
    \<Rightarrow> Core \<times> 's \<times> PushHub \<Rightarrow> RegistrationRequest \<Rightarrow> Core \<times> 's \<times> PushHub" where
  "serve_registration uc urlParse sha256 repo = (\<lambda>(s, store, hub) q. case q of
       UpsertRequest credentialFor moderated clk r decoded \<Rightarrow>
         (case upsertRegistration uc urlParse sha256 repo credentialFor moderated clk s store r decoded of
            (s, store, w, b) \<Rightarrow> (s, store, hub))
     | DeleteRequest r \<Rightarrow> (case deleteRegistration repo s store hub r of (s, store, hub, w, b) \<Rightarrow> (s, store, hub))
     | AccountRevoked userID installationIDs \<Rightarrow> (s, fst (rp_DeleteForAccount repo store userID installationIDs), hub))"

text \<open>What Twitch confirmed during a sequence: the user and the channel the user moderates.\<close>

definition confirmed :: "Unicode \<Rightarrow> RegistrationRequest \<Rightarrow> (string \<times> string) set" where
  "confirmed uc q = (case q of
       UpsertRequest (Some credentialFor) moderated clk r (Inr d) \<Rightarrow>
         (case credentialFor (rg_InstallationID d) (rg_DeviceSecret d) of
            Inr c \<Rightarrow> (case moderated (ac_ID c) of
               Inr ids \<Rightarrow> (\<lambda>m. (ac_UserID c, toLower uc m)) ` set ids
             | Inl _ \<Rightarrow> {})
          | Inl _ \<Rightarrow> {})
     | _ \<Rightarrow> {})"

definition moderation :: "Unicode \<Rightarrow> Registration \<Rightarrow> (string \<times> string) set" where
  "moderation uc r = (\<lambda>m. (rg_UserID r, toLower uc m)) ` set (rg_ModeratorChannelIDs r)"

section \<open>Lemmas\<close>

lemma limited_from_bound:
  "length result < maxItems \<Longrightarrow> length (limited_from uc maxItems maxLength seen result vs) \<le> maxItems"
  by (induction vs arbitrary: seen result) (auto simp: Let_def)

lemma limited_from_set:
  "\<forall>a \<in> set vs. trimSpace a \<noteq> '''' \<and> length (trimSpace a) \<le> maxLength \<longrightarrow> trimSpace a \<in> A \<Longrightarrow> set result \<subseteq> A \<Longrightarrow>
   set (limited_from uc maxItems maxLength seen result vs) \<subseteq> A"
  by (induction vs arbitrary: seen result) (simp_all add: Let_def)

lemma limited_from_distinct:
  "distinct (map (toLower uc) result) \<Longrightarrow> set (map (toLower uc) result) = set seen \<Longrightarrow>
   distinct (map (toLower uc) (limited_from uc maxItems maxLength seen result vs))"
  by (induction vs arbitrary: seen result) (simp_all add: Let_def)

lemma limited_strings:
  "0 < maxItems \<Longrightarrow> length (normalizeLimitedStrings uc vs maxItems maxLength) \<le> maxItems"
  "set (normalizeLimitedStrings uc vs maxItems maxLength) \<subseteq> {v \<in> trimSpace ` set vs. v \<noteq> '''' \<and> length v \<le> maxLength}"
  "distinct (map (toLower uc) (normalizeLimitedStrings uc vs maxItems maxLength))"
  unfolding normalizeLimitedStrings_def
  using limited_from_bound [of "[]"] limited_from_distinct [of uc "[]" "[]"]
  by (simp_all add: limited_from_set)

lemma intersect_set: "set (intersectStrings uc xs ys) = {v \<in> set xs. toLower uc v \<in> toLower uc ` set ys}"
  by (auto simp: intersectStrings_def)

lemma rules_from_bound:
  "length result < 100 \<Longrightarrow> length (rules_from uc allowed result vs) \<le> 100"
  by (induction vs arbitrary: result rule: list.induct)
     (auto simp: Let_def length_mput split: option.splits)

lemma validate_device: "validateRegistration urlParse r = None \<Longrightarrow> trimSpace (rg_InstallationID r) \<noteq> '''' \<and> rg_DeviceSecret r \<noteq> ''''"
  by (auto simp: validateRegistration_def validateMobileDevice_def Let_def split: if_splits option.splits)

lemma normalize_keeps [simp]:
  "rg_InstallationID (normalizeRegistration uc r) = rg_InstallationID r"
  "rg_DeviceSecret (normalizeRegistration uc r) = rg_DeviceSecret r"
  "rg_InstallationID (limit_registration uc r) = rg_InstallationID r"
  "rg_DeviceSecret (limit_registration uc r) = rg_DeviceSecret r"
  "moderation uc (publicRegistration r) = moderation uc r"
  "moderation uc (r\<lparr> rg_UpdatedAt := t \<rparr>) = moderation uc r"
  by (simp_all add: normalizeRegistration_def limit_registration_def publicRegistration_def moderation_def Let_def)

lemma upsert_branches:
  assumes "upsertRegistration uc urlParse sha256 repo credentialFor moderated clk s store q decoded = (s', store', w, b)"
  obtains "store' = store"
  | d s1 s2 r where "decoded = Inr d" "trimSpace (rg_InstallationID d) \<noteq> ''''"
    "bind_account uc repo credentialFor moderated s1 store (limit_registration uc (normalizeRegistration uc d)) = (s2, Inr r)"
    "store_registration repo s2 store (r\<lparr> rg_UpdatedAt := clk 2 \<rparr>) = (s', store', w, b)"
proof (cases "store' = store")
  case False
  then obtain d where d: "decoded = Inr d" using assms by (auto simp: upsertRegistration_def split: sum.splits)
  let ?r = "normalizeRegistration uc d"
  have v: "validateRegistration urlParse ?r = None"
    using False assms d by (auto simp: upsertRegistration_def Let_def split: if_splits option.splits)
  obtain s1 where e: "enforceInstallationRateLimit sha256 s clk q (rg_InstallationID ?r) (rg_DeviceSecret ?r) =
      (s1, None :: string Response option)"
    using False assms d v by (auto simp: upsertRegistration_def Let_def split: if_splits option.splits prod.splits)
  obtain s2 r where b: "bind_account uc repo credentialFor moderated s1 store (limit_registration uc ?r) = (s2, Inr r)"
    using False assms d v e by (auto simp: upsertRegistration_def Let_def split: if_splits prod.splits sum.splits)
  show thesis
    using that(2) [OF d _ b] validate_device [OF v] False assms d v e b
    by (auto simp: upsertRegistration_def Let_def split: if_splits)
qed (rule that(1))

lemma unbound_moderation: "moderation uc (unbound r) = {}"
  by (simp add: unbound_def moderation_def)

definition held :: "('s \<Rightarrow> string \<Rightarrow> (Registration \<times> string) option) \<Rightarrow> Unicode \<Rightarrow> 's \<Rightarrow> (string \<times> string) set" where
  "held view uc s = (\<Union>r \<in> {r. \<exists>i h. view s i = Some (r, h)}. moderation uc r)"

context registration_repository
begin

lemma moderation_stored: "moderation uc (stored r) = moderation uc r"
  by (simp add: moderation_def stored_keeps)

lemma bind_moderation:
  assumes "inv store" and "bind_account uc repo credentialFor moderated s store r = (s', Inr r')"
    and "rg_InstallationID d = rg_InstallationID r" and "rg_DeviceSecret d = rg_DeviceSecret r"
  shows "moderation uc r' \<subseteq> held view uc store \<union> confirmed uc (UpsertRequest credentialFor moderated clk q (Inr d))
    \<and> rg_InstallationID r' = rg_InstallationID r"
proof (cases credentialFor)
  case None
  thus ?thesis using assms(2) by (auto simp: bind_account_def unbound_def moderation_def)
next
  case (Some f)
  then obtain c where c: "f (rg_InstallationID r) (rg_DeviceSecret r) = Inr c"
    using assms(2) by (auto simp: bind_account_def split: sum.splits)
  let ?v = "verified_moderation uc repo store c (moderated (ac_ID c)) r"
  have r': "rg_UserID r' = ac_UserID c" "rg_ModeratorChannelIDs r' = ?v" "rg_InstallationID r' = rg_InstallationID r"
    using assms(2) Some c by (auto simp: bind_account_def verified_moderation_def Let_def)
  have "(ac_UserID c, toLower uc m) \<in> held view uc store \<union> confirmed uc (UpsertRequest credentialFor moderated clk q (Inr d))"
    if m: "m \<in> set ?v" for m
  proof (cases "moderated (ac_ID c)")
    case (Inr ids)
    thus ?thesis using m Some c assms(3,4) by (auto simp: verified_moderation_def intersect_set confirmed_def)
  next
    case (Inl e)
    then obtain r0 h where "view store (rg_InstallationID r) = Some (r0, h)" "rg_UserID r0 = ac_UserID c"
      "toLower uc m \<in> toLower uc ` set (rg_ModeratorChannelIDs r0)"
      using m by (auto simp: verified_moderation_def get_view [OF assms(1)] intersect_set split: option.splits if_splits)
    thus ?thesis unfolding held_def moderation_def by fastforce
  qed
  thus ?thesis using r' by (auto simp: moderation_def)
qed

end

context registration_repository
begin

lemma held_update: "view s' = (view s)(i \<mapsto> (r, h)) \<Longrightarrow> held view uc s' \<subseteq> held view uc s \<union> moderation uc r"
  by (auto simp: held_def split: if_splits)

lemma held_mono: "(\<And>i r h. view s' i = Some (r, h) \<Longrightarrow> view s i = Some (r, h)) \<Longrightarrow> held view uc s' \<subseteq> held view uc s"
  by (fastforce simp: held_def)

lemma upsert_held:
  assumes "inv store" and "upsertRegistration uc urlParse sha256 repo credentialFor moderated clk s store q decoded = (s', store', w, b)"
  shows "inv store' \<and> held view uc store' \<subseteq> held view uc store \<union> confirmed uc (UpsertRequest credentialFor moderated clk q decoded)"
proof -
  from assms(2) show ?thesis
  proof (cases rule: upsert_branches)
    case 1
    thus ?thesis using assms(1) by simp
  next
    case (2 d s1 s2 r)
    have m: "moderation uc r \<subseteq> held view uc store \<union> confirmed uc (UpsertRequest credentialFor moderated clk q decoded)"
      and i: "rg_InstallationID r = rg_InstallationID d"
      using bind_moderation [OF assms(1) 2(3), where d = d] 2(1) by auto
    show ?thesis
      using upsert_cases [OF assms(1), of "r\<lparr> rg_UpdatedAt := clk 2 \<rparr>"] 2(2,4) i m assms(1)
        held_update [of store' store "rg_InstallationID d"]
      by (fastforce simp: store_registration_def moderation_stored split: prod.splits option.splits)
  qed
qed

end

text \<open>What the handlers rely on beyond the contract: a delete removes the named registration or
  nothing.\<close>

locale registration_service = registration_repository +
  assumes delete_shrinks: "inv s \<Longrightarrow> rp_Delete repo s i d = (s', res) \<Longrightarrow>
    inv s' \<and> (view s' = view s \<or> view s' = (view s)(i := None))"
begin

lemma serve_held:
  assumes "inv store" and "serve_registration uc urlParse sha256 repo (s, store, hub) q = (s', store', hub')"
  shows "inv store' \<and> held view uc store' \<subseteq> held view uc store \<union> confirmed uc q"
proof (cases q)
  case (UpsertRequest credentialFor moderated clk r decoded)
  thus ?thesis using assms upsert_held [OF assms(1), of uc urlParse sha256 credentialFor moderated clk s r decoded]
    by (auto simp: serve_registration_def split: prod.splits)
next
  case (DeleteRequest r)
  let ?i = "rq_PathValue r ''installationID''" and ?d = "headerGet r ''X-Device-Secret''"
  have "\<exists>res. rp_Delete repo store ?i ?d = (store', res)"
    using assms(2) DeleteRequest
    by (auto simp: serve_registration_def deleteRegistration_def Let_def split: prod.splits option.splits)
  hence "inv store' \<and> (view store' = view store \<or> view store' = (view store)(?i := None))"
    using delete_shrinks [OF assms(1)] by blast
  moreover from this have "held view uc store' \<subseteq> held view uc store" by (intro held_mono) (auto split: if_splits)
  ultimately show ?thesis by blast
next
  case (AccountRevoked u "is")
  hence "store' = fst (rp_DeleteForAccount repo store u is)" using assms(2) by (simp add: serve_registration_def)
  then obtain res where r: "rp_DeleteForAccount repo store u is = (store', res)" by (metis prod.collapse)
  note v = account_view [OF assms(1) r]
  hence "held view uc store' \<subseteq> held view uc store" by (intro held_mono) (auto split: option.splits prod.splits if_splits)
  thus ?thesis using v by blast
qed

lemma run_held:
  "inv store \<Longrightarrow> foldl (serve_registration uc urlParse sha256 repo) (s, store, hub) qs = (s', store', hub') \<Longrightarrow>
   inv store' \<and> held view uc store' \<subseteq> held view uc store \<union> (\<Union>q \<in> set qs. confirmed uc q)"
proof (induction qs arbitrary: s store hub)
  case (Cons q qs)
  obtain s1 store1 hub1 where 1: "serve_registration uc urlParse sha256 repo (s, store, hub) q = (s1, store1, hub1)"
    by (metis prod_cases3)
  show ?case using Cons.IH [of store1 s1 hub1] Cons.prems serve_held [OF Cons.prems(1) 1] 1 by auto
qed simp

lemma run_listed:
  assumes "inv store" and "view store = Map.empty"
  shows "(\<Union>r \<in> set (rp_List repo (fst (snd (foldl (serve_registration uc urlParse sha256 repo) (s, store, hub) qs)))).
    moderation uc r) \<subseteq> (\<Union>q \<in> set qs. confirmed uc q)"
proof -
  obtain s' store' hub' where run: "foldl (serve_registration uc urlParse sha256 repo) (s, store, hub) qs = (s', store', hub')"
    by (metis prod_cases3)
  have "inv store'" "held view uc store' \<subseteq> (\<Union>q \<in> set qs. confirmed uc q)"
    using run_held [OF assms(1) run] assms(2) by (auto simp: held_def)
  moreover from this(1) have "set (rp_List repo store') = {r. \<exists>i h. view store' i = Some (r, h)}"
    using list_view by blast
  ultimately show ?thesis by (simp add: run held_def)
qed

end

lemma mem_delete_shrinks:
  "reg_inv s \<Longrightarrow> rp_Delete (memory_registrations sha256) s i d = (s', res) \<Longrightarrow>
   reg_inv s' \<and> (reg_view s' = reg_view s \<or> reg_view s' = (reg_view s)(i := None))"
  by (auto simp: memory_registrations_def reg_Delete_def Let_def reg_inv_del reg_view_del split: option.splits if_splits)

lemma pg_delete_shrinks:
  "reg_inv s \<Longrightarrow> rp_Delete (postgres_registrations db sha256) s i d = (s', res) \<Longrightarrow>
   reg_inv s' \<and> (reg_view s' = reg_view s \<or> reg_view s' = (reg_view s)(i := None))"
  by (auto simp: postgres_registrations_def pg_Delete_def Let_def reg_inv_del reg_view_del split: option.splits if_splits)

interpretation mem_service: registration_service "memory_registrations sha256" reg_inv reg_view "\<lambda>r. r"
    "hashSecret sha256" for sha256
  by unfold_locales (rule mem_delete_shrinks)

interpretation pg_service: registration_service "postgres_registrations (\<lambda>_. True) sha256" reg_inv reg_view
    "\<lambda>r. r\<lparr> rg_UpdatedAt := pg_time (rg_UpdatedAt r) \<rparr>" "hashSecret sha256" for sha256
  by unfold_locales (rule pg_delete_shrinks)

section \<open>What registering guarantees\<close>

text \<open>C32: Moderator rights come from Twitch only. Whatever requests are served, in whatever order,
  with clients claiming what they want and Twitch failing at any time, a device is recorded as
  a moderator of a channel only for a user of whom Twitch confirmed it during one of the
  requests: for the in-memory store and for PostgreSQL.\<close>

theorem moderator_rights_verified:
  "(\<Union>r \<in> set (rp_List (memory_registrations sha256) (fst (snd
      (foldl (serve_registration uc urlParse sha256 (memory_registrations sha256)) (s, OpenStore, hub) qs)))). moderation uc r)
    \<subseteq> (\<Union>q \<in> set qs. confirmed uc q) \<and>
   (\<Union>r \<in> set (rp_List (postgres_registrations (\<lambda>_. True) sha256) (fst (snd
      (foldl (serve_registration uc urlParse sha256 (postgres_registrations (\<lambda>_. True) sha256)) (s, OpenStore, hub) qs)))).
      moderation uc r)
    \<subseteq> (\<Union>q \<in> set qs. confirmed uc q)"
proof -
  have none: "reg_view OpenStore = Map.empty" by (rule ext) (simp add: OpenStore_def reg_view_def)
  show ?thesis
    by (rule conjI [OF mem_service.run_listed [OF reg_inv_init none] pg_service.run_listed [OF reg_inv_init none]])
qed

text \<open>What the normalisation leaves of a client's lists and maps.\<close>

definition tidy :: "Unicode \<Rightarrow> nat \<Rightarrow> nat \<Rightarrow> string list \<Rightarrow> bool" where
  "tidy uc n len vs = (length vs \<le> n \<and> list_all (\<lambda>v. v \<noteq> '''' \<and> length v \<le> len) vs \<and> distinct (map (toLower uc) vs))"

definition registration_tidy :: "Unicode \<Rightarrow> Registration \<Rightarrow> bool" where
  "registration_tidy uc r =
     (tidy uc 100 64 (rg_ChannelIDs r) \<and> tidy uc 32 64 (rg_NotificationRules r) \<and>
      tidy uc 100 200 (rg_HighlightPhrases r) \<and> tidy uc 100 50 (rg_SelectedUserLogins r) \<and>
      length (rg_NotificationChannelRules r) \<le> 100 \<and> mkeys (rg_NotificationChannelRules r) \<subseteq> set (rg_ChannelIDs r) \<and>
      list_all (\<lambda>(c, rules). tidy uc 32 64 rules) (rg_NotificationChannelRules r) \<and>
      length (rg_MutedUntilEpochMillis r) \<le> 100 \<and> mkeys (rg_MutedUntilEpochMillis r) \<subseteq> set (rg_ChannelIDs r) \<and>
      toLower uc ` set (rg_ModeratorChannelIDs r) \<subseteq> toLower uc ` set (rg_ChannelIDs r))"

lemma limited_tidy: "0 < n \<Longrightarrow> tidy uc n len (normalizeLimitedStrings uc vs n len)"
  using limited_strings(2) [of uc vs n len]
  by (auto simp: tidy_def limited_strings(1,3) list_all_iff)

lemma allowed_from:
  "\<forall>c \<in> set cs. trimSpace c \<in> A \<Longrightarrow> ran (mget m) \<subseteq> A \<Longrightarrow>
   ran (mget (foldl (\<lambda>m c. let c = trimSpace c in if c \<noteq> '''' then mput (toLower uc c) c m else m) m cs)) \<subseteq> A"
proof (induction cs arbitrary: m)
  case (Cons c cs)
  have "ran (mget (mput (toLower uc (trimSpace c)) (trimSpace c) m)) \<subseteq> A"
    using Cons.prems by (auto simp: ran_def split: if_splits)
  from Cons.IH [OF _ this] show ?case using Cons.IH [of m] Cons.prems by (simp add: Let_def)
qed simp

lemma allowed_channels_ran: "ran (mget (allowed_channels uc (normalizeLimitedStrings uc cs n len))) \<subseteq> set (normalizeLimitedStrings uc cs n len)"
  unfolding allowed_channels_def
  by (rule allowed_from) (use limited_strings(2) [of uc cs n len] in auto)

lemma mput_list_all: "P k v \<Longrightarrow> list_all (\<lambda>(k, v). P k v) m \<Longrightarrow> list_all (\<lambda>(k, v). P k v) (mput k v m)"
  by (induction m) auto

lemma rules_from_tidy:
  "length result < 100 \<Longrightarrow> list_all (\<lambda>(c, rules). c \<in> ran (mget allowed) \<and> tidy uc 32 64 rules) result \<Longrightarrow>
   length (rules_from uc allowed result vs) \<le> 100 \<and>
   list_all (\<lambda>(c, rules). c \<in> ran (mget allowed) \<and> tidy uc 32 64 rules) (rules_from uc allowed result vs)"
proof (induction uc allowed result vs rule: rules_from.induct)
  case (2 uc allowed result raw rules vs)
  show ?case
  proof (cases "mget allowed (toLower uc (trimSpace raw))")
    case (Some c)
    let ?r = "mput c (normalizeLimitedStrings uc rules 32 64) result"
    have l: "length ?r \<le> 100" using 2(3) by (simp add: length_mput)
    have a: "list_all (\<lambda>(c, rules). c \<in> ran (mget allowed) \<and> tidy uc 32 64 rules) ?r"
      by (rule mput_list_all) (use 2(4) Some limited_tidy [of 32] in \<open>auto simp: ran_def\<close>)
    show ?thesis using 2(2) [OF Some refl] l a Some by (auto simp: Let_def not_le)
  qed (use 2 in simp)
qed simp

lemma muted_from_tidy:
  "length result < 100 \<Longrightarrow> list_all (\<lambda>(c, t). c \<in> ran (mget allowed)) result \<Longrightarrow>
   length (muted_from uc allowed result vs) \<le> 100 \<and>
   list_all (\<lambda>(c, t). c \<in> ran (mget allowed)) (muted_from uc allowed result vs)"
proof (induction uc allowed result vs rule: muted_from.induct)
  case (2 uc allowed result raw t vs)
  show ?case
  proof (cases "mget allowed (toLower uc (trimSpace raw))")
    case (Some c)
    have l: "length (mput c t result) \<le> 100" using 2(4) by (simp add: length_mput)
    have a: "list_all (\<lambda>(c, t). c \<in> ran (mget allowed)) (mput c t result)"
      by (rule mput_list_all) (use 2(5) Some in \<open>auto simp: ran_def\<close>)
    show ?thesis using 2(2,3) [OF Some] 2(4,5) l a Some by (auto simp: Let_def not_le)
  qed (use 2 in simp)
qed simp

lemma limit_registration_tidy: "registration_tidy uc (limit_registration uc r)"
proof -
  let ?c = "normalizeLimitedStrings uc (rg_ChannelIDs r) 100 64"
  note ran = allowed_channels_ran [of uc "rg_ChannelIDs r" 100 64]
  have rules: "length (normalizeNotificationChannelRules uc m ?c) \<le> 100 \<and>
      list_all (\<lambda>(c, rules). c \<in> set ?c \<and> tidy uc 32 64 rules) (normalizeNotificationChannelRules uc m ?c)" for m
    using rules_from_tidy [of "[]" "allowed_channels uc ?c" uc m] ran
    by (auto simp: normalizeNotificationChannelRules_def Let_def list_all_iff)
  have muted: "length (normalizeNotificationChannelMuted uc m ?c) \<le> 100 \<and>
      list_all (\<lambda>(c, t). c \<in> set ?c) (normalizeNotificationChannelMuted uc m ?c)" for m
    using muted_from_tidy [of "[]" "allowed_channels uc ?c" uc m] ran
    by (auto simp: normalizeNotificationChannelMuted_def Let_def list_all_iff)
  show ?thesis
    using rules [of "rg_NotificationChannelRules r"] muted [of "rg_MutedUntilEpochMillis r"]
    by (auto simp: registration_tidy_def limit_registration_def Let_def limited_tidy intersect_set list_all_iff)
qed

context registration_repository
begin

lemma registration_taken:
  assumes "inv store" and "view store (rg_InstallationID d) = None"
    and "rg_InstallationID d = rq_PathValue q ''installationID''"
    and "validateRegistration urlParse (normalizeRegistration uc d) = None"
    and "enforceInstallationRateLimit sha256 s clk q (rg_InstallationID d) (rg_DeviceSecret d) = (s1, None :: string Response option)"
    and "f (rg_InstallationID d) (rg_DeviceSecret d) = Inr c" and "moderated (ac_ID c) = Inr ids"
    and "hash (rg_DeviceSecret d) \<noteq> ''''"
  defines "r \<equiv> limit_registration uc (normalizeRegistration uc d)"
  defines "r1 \<equiv> r\<lparr> rg_UserID := ac_UserID c, rg_UserLogin := ac_Login c,
      rg_ModeratorChannelIDs := intersectStrings uc (rg_ModeratorChannelIDs r) ids, rg_UpdatedAt := clk 2 \<rparr>"
  shows "\<exists>s' store'. upsertRegistration uc urlParse sha256 repo (Some f) moderated clk s store q (Inr d) =
      (s', store', writeJSON [] 200 ''registered'', True) \<and>
    rp_Authenticate repo store' (rg_InstallationID d) (rg_DeviceSecret d) = Inr (publicRegistration (stored r1))"
proof -
  have k: "rg_InstallationID r1 = rg_InstallationID d" "rg_DeviceSecret r1 = rg_DeviceSecret d"
    by (simp_all add: r1_def r_def)
  have v: "trimSpace (rg_InstallationID d) \<noteq> ''''" "rg_DeviceSecret d \<noteq> ''''"
    using validate_device [OF assms(4)] by simp_all
  obtain store' where up: "rp_Upsert repo store r1 = (store', None)"
    using upsert_ok [OF assms(1), of r1] k v assms(2) by auto
  have "upsertRegistration uc urlParse sha256 repo (Some f) moderated clk s store q (Inr d) =
      store_registration repo s1 store r1"
    unfolding upsertRegistration_def sum.case Let_def normalize_keeps assms(3) [symmetric] assms(4,5)
    by (simp add: bind_account_def assms(6,7) verified_moderation_def r1_def r_def Let_def)
  moreover have "rp_Authenticate repo store' (rg_InstallationID d) (rg_DeviceSecret d) = Inr (publicRegistration (stored r1))"
    using registration_bound [OF assms(1) up] k v assms(8) by simp
  ultimately show ?thesis by (auto simp: store_registration_def up)
qed

end


definition demo_registration :: Registration where
  "demo_registration = empty_Registration\<lparr> rg_InstallationID := ''i1'', rg_DeviceSecret := replicate 32 CHR ''s'',
     rg_Platform := ''android'', rg_Provider := ''embedded_socket'', rg_ChannelIDs := [''12'', ''7'', ''12''],
     rg_ModeratorChannelIDs := [''7'', ''12''] \<rparr>"

lemma demo_texts:
  "toLower ascii_tables ''12'' = ''12''" "toLower ascii_tables ''7'' = ''7''"
  "toLower ascii_tables ''android'' = ''android''" "toLower ascii_tables ''embedded_socket'' = ''embedded_socket''"
  "trimSpace ''12'' = ''12''" "trimSpace ''7'' = ''7''" "trimSpace ''i1'' = ''i1''"
  "trimSpace ''android'' = ''android''" "trimSpace ''embedded_socket'' = ''embedded_socket''"
  "trimSpace (replicate 32 CHR ''s'') = replicate 32 CHR ''s''"
  by (rule toLower_ascii trimSpace_id; simp add: in_range_def graphic_def)+

definition demo_credential :: AuthCredential where
  "demo_credential = \<lparr> ac_ID = ''c1'', ac_ClientID = '''', ac_UserID = ''42'', ac_Login = ''user'',
     ac_Scopes = [], ac_AccessToken = '''', ac_RefreshToken = '''', ac_AccessExpiresAt = 0, ac_LastValidatedAt = 0,
     ac_UpdatedAt = 0 \<rparr>"

definition demo_upsert :: Request where
  "demo_upsert = \<lparr> rq_Method = ''PUT'', rq_Path = ''/v1/push/registrations/i1'', rq_RemoteAddr = ''192.0.2.7:4711'',
     rq_Header = (\<lambda>_. []), rq_Query = (\<lambda>_. ''''), rq_PathValue = (\<lambda>_. ''i1'') \<rparr>"


end
