(* ===== verification/Settings_Sync_Store.thy ===== *)
theory Settings_Sync_Store
  imports Domain_Model
begin

text \<open>
  The settings-sync repository: the port of \<^verbatim>\<open>internal/domain/repositories.go\<close> as a record of
  operations over a store state, its contract as the locale \<open>settings_sync_repository\<close>, and
  the in-memory store of \<^verbatim>\<open>internal/storage/memory/sync_store.go\<close>. An operation that changes
  the store returns the new store first; \<open>now\<close> is the reading of \<^verbatim>\<open>time.Now\<close> it makes. A
  snapshot pointer is an option. Snapshots are values in HOL, so
  \<^verbatim>\<open>cloneSettingsSyncSnapshot\<close> (a deep copy) is the identity.
\<close>

section \<open>The port\<close>

type_synonym 's sync_result = "'s \<times> SettingsSyncSnapshot \<times> err option"

record 's SettingsSyncRepository =
  sr_Current :: "'s \<Rightarrow> string \<Rightarrow> SettingsSyncSnapshot option"
  sr_Put :: "'s \<Rightarrow> string \<Rightarrow> string \<Rightarrow> int \<Rightarrow> bool \<Rightarrow> string \<Rightarrow> string \<Rightarrow> string \<Rightarrow> gotime
               \<Rightarrow> 's sync_result"
  sr_History :: "'s \<Rightarrow> string \<Rightarrow> SettingsSyncSnapshot list"
  sr_Restore :: "'s \<Rightarrow> string \<Rightarrow> string \<Rightarrow> int \<Rightarrow> gotime \<Rightarrow> 's sync_result"

definition revision_of :: "SettingsSyncSnapshot option \<Rightarrow> int" where
  "revision_of c = (case c of None \<Rightarrow> 0 | Some s \<Rightarrow> sn_Revision s)"

definition snapshot_or_empty :: "SettingsSyncSnapshot option \<Rightarrow> SettingsSyncSnapshot" where
  "snapshot_or_empty c = (case c of None \<Rightarrow> empty_SettingsSyncSnapshot | Some s \<Rightarrow> s)"

section \<open>The in-memory store\<close>

record SettingsSyncStore =
  sy_Users :: "(string, SettingsSyncUserState) gomap"

definition newMemorySettingsSyncStore :: SettingsSyncStore where
  "newMemorySettingsSyncStore = \<lparr> sy_Users = [] \<rparr>"

definition sync_persistLocked :: "SettingsSyncStore \<Rightarrow> err option" where
  "sync_persistLocked s = None"

definition sync_userState :: "SettingsSyncStore \<Rightarrow> string \<Rightarrow> SettingsSyncUserState" where
  "sync_userState s userID = (case mget (sy_Users s) userID of
       None \<Rightarrow> \<lparr> us_Current = None, us_History = [] \<rparr>
     | Some us \<Rightarrow> us)"

definition sync_Current :: "SettingsSyncStore \<Rightarrow> string \<Rightarrow> SettingsSyncSnapshot option" where
  "sync_Current s userID = (case mget (sy_Users s) userID of
       None \<Rightarrow> None
     | Some state \<Rightarrow> us_Current state)"

definition sync_putLocked ::
  "SettingsSyncStore \<Rightarrow> string \<Rightarrow> string \<Rightarrow> int \<Rightarrow> bool \<Rightarrow> string \<Rightarrow> string \<Rightarrow> string \<Rightarrow> gotime
    \<Rightarrow> SettingsSyncStore sync_result" where
  "sync_putLocked s userID installationID baseRevision force appVersion contentHash payload now =
    (let previousUserState = mget (sy_Users s) userID;
         userState = sync_userState s userID;
         currentRevision = (case us_Current userState of None \<Rightarrow> 0 | Some c \<Rightarrow> sn_Revision c)
     in if \<not> force \<and> baseRevision \<noteq> currentRevision then
          (case us_Current userState of
             None \<Rightarrow> (s, empty_SettingsSyncSnapshot, Some ErrSettingsSyncConflict)
           | Some c \<Rightarrow> (s, c, Some ErrSettingsSyncConflict))
        else if (case us_Current userState of None \<Rightarrow> False
                 | Some c \<Rightarrow> sn_ContentHash c = contentHash) then
          (s, snapshot_or_empty (us_Current userState), None)
        else
          (let next = \<lparr> sn_Revision = wrap64 (currentRevision + 1), sn_UpdatedAt = now,
                        sn_UpdatedByInstallationID = installationID,
                        sn_AppVersion = appVersion, sn_ContentHash = contentHash,
                        sn_Payload = payload \<rparr>;
               history = (case us_Current userState of
                   None \<Rightarrow> us_History userState
                 | Some c \<Rightarrow>
                     (let h = c # us_History userState
                      in if length h > MaxSettingsSyncHistory
                         then take MaxSettingsSyncHistory h else h));
               s' = s\<lparr> sy_Users := mput userID
                          \<lparr> us_Current = Some next, us_History = history \<rparr> (sy_Users s) \<rparr>
           in case sync_persistLocked s' of
                Some e \<Rightarrow>
                  ((case previousUserState of
                      Some us \<Rightarrow> s'\<lparr> sy_Users := mput userID us (sy_Users s') \<rparr>
                    | None \<Rightarrow> s'\<lparr> sy_Users := mdel userID (sy_Users s') \<rparr>),
                   empty_SettingsSyncSnapshot, Some e)
              | None \<Rightarrow> (s', next, None)))"

definition sync_Put ::
  "SettingsSyncStore \<Rightarrow> string \<Rightarrow> string \<Rightarrow> int \<Rightarrow> bool \<Rightarrow> string \<Rightarrow> string \<Rightarrow> string \<Rightarrow> gotime
    \<Rightarrow> SettingsSyncStore sync_result" where
  "sync_Put s userID installationID baseRevision force appVersion contentHash payload now =
     sync_putLocked s userID installationID baseRevision force appVersion contentHash payload now"

definition sync_History :: "SettingsSyncStore \<Rightarrow> string \<Rightarrow> SettingsSyncSnapshot list" where
  "sync_History s userID = (case mget (sy_Users s) userID of
       None \<Rightarrow> []
     | Some userState \<Rightarrow>
         sortSlice (\<lambda>a b. sn_Revision a > sn_Revision b)
           ((case us_Current userState of None \<Rightarrow> [] | Some c \<Rightarrow> [c]) @ us_History userState))"

definition sync_Restore ::
  "SettingsSyncStore \<Rightarrow> string \<Rightarrow> string \<Rightarrow> int \<Rightarrow> gotime \<Rightarrow> SettingsSyncStore sync_result" where
  "sync_Restore s userID installationID revision now = (case mget (sy_Users s) userID of
       None \<Rightarrow> (s, empty_SettingsSyncSnapshot, Some ErrSettingsSyncRevisionNotFound)
     | Some userState \<Rightarrow>
         (let source = (case us_Current userState of
              Some c \<Rightarrow> if sn_Revision c = revision then Some c
                        else find (\<lambda>h. sn_Revision h = revision) (us_History userState)
            | None \<Rightarrow> find (\<lambda>h. sn_Revision h = revision) (us_History userState));
              currentRevision = (case us_Current userState of None \<Rightarrow> 0 | Some c \<Rightarrow> sn_Revision c)
          in case source of
               None \<Rightarrow> (s, empty_SettingsSyncSnapshot, Some ErrSettingsSyncRevisionNotFound)
             | Some src \<Rightarrow> sync_putLocked s userID installationID currentRevision True
                 (sn_AppVersion src) (sn_ContentHash src) (sn_Payload src) now))"

definition memory_sync :: "SettingsSyncStore SettingsSyncRepository" where
  "memory_sync = \<lparr> sr_Current = sync_Current, sr_Put = sync_Put, sr_History = sync_History,
                   sr_Restore = sync_Restore \<rparr>"

lemmas sync_defs = sync_Put_def sync_putLocked_def sync_persistLocked_def sync_userState_def
  Let_def

section \<open>The contract of the port\<close>

text \<open>
  \<open>stored\<close> is what reading back a written snapshot gives (a database may normalise the
  payload and round the instant), \<open>acceptable\<close> the payloads the store takes, and
  \<open>records_new\<close> the effect of a write that creates a revision: the new snapshot heads the
  history, of which the newest \<open>MaxSettingsSyncHistory + 1\<close> are kept, and no other user's
  history changes.
\<close>

definition new_snapshot ::
  "SettingsSyncSnapshot option \<Rightarrow> string \<Rightarrow> string \<Rightarrow> string \<Rightarrow> string \<Rightarrow> gotime
    \<Rightarrow> SettingsSyncSnapshot" where
  "new_snapshot c installationID appVersion contentHash payload now =
     \<lparr> sn_Revision = revision_of c + 1, sn_UpdatedAt = now,
       sn_UpdatedByInstallationID = installationID, sn_AppVersion = appVersion,
       sn_ContentHash = contentHash, sn_Payload = payload \<rparr>"

definition records_new ::
  "('s \<Rightarrow> string \<Rightarrow> SettingsSyncSnapshot list) \<Rightarrow> 's \<Rightarrow> string \<Rightarrow> SettingsSyncSnapshot \<Rightarrow> 's \<Rightarrow> bool"
where
  "records_new H s u n s' \<longleftrightarrow>
     H s' u = take (MaxSettingsSyncHistory + 1) (n # H s u) \<and> (\<forall>v. v \<noteq> u \<longrightarrow> H s' v = H s v)"

locale settings_sync_repository =
  fixes repo :: "'s SettingsSyncRepository"
    and inv :: "'s \<Rightarrow> bool"
    and stored :: "SettingsSyncSnapshot \<Rightarrow> SettingsSyncSnapshot"
    and acceptable :: "string \<Rightarrow> bool"
  assumes stored_keeps: "sn_Revision (stored n) = sn_Revision n"
      "sn_ContentHash (stored n) = sn_ContentHash n"
    and current_heads: "inv s \<Longrightarrow> sr_Current repo s u =
      (case sr_History repo s u of [] \<Rightarrow> None | c # _ \<Rightarrow> Some c)"
    and history_bound: "inv s \<Longrightarrow> length (sr_History repo s u) \<le> MaxSettingsSyncHistory + 1"
    and history_revision: "inv s \<Longrightarrow> k < length (sr_History repo s u) \<Longrightarrow>
      sn_Revision (sr_History repo s u ! k) = revision_of (sr_Current repo s u) - int k"
    and revision_nonneg: "inv s \<Longrightarrow> 0 \<le> revision_of (sr_Current repo s u)"
    and put_conflict: "inv s \<Longrightarrow> \<not> force \<Longrightarrow> base \<noteq> revision_of (sr_Current repo s u) \<Longrightarrow>
      sr_Put repo s u i base force a h p now =
        (s, snapshot_or_empty (sr_Current repo s u), Some ErrSettingsSyncConflict)"
    and put_unchanged: "inv s \<Longrightarrow> force \<or> base = revision_of (sr_Current repo s u) \<Longrightarrow>
      sr_Current repo s u = Some c \<Longrightarrow> sn_ContentHash c = h \<Longrightarrow>
      sr_Put repo s u i base force a h p now = (s, c, None)"
    and put_new: "inv s \<Longrightarrow> force \<or> base = revision_of (sr_Current repo s u) \<Longrightarrow>
      (\<And>c. sr_Current repo s u = Some c \<Longrightarrow> sn_ContentHash c \<noteq> h) \<Longrightarrow>
      revision_of (sr_Current repo s u) < int64_max \<Longrightarrow> acceptable p \<Longrightarrow>
      n = new_snapshot (sr_Current repo s u) i a h p now \<Longrightarrow>
      \<exists>s'. sr_Put repo s u i base force a h p now = (s', n, None) \<and> inv s' \<and>
           records_new (sr_History repo) s u (stored n) s'"
    and restore_missing: "inv s \<Longrightarrow> \<forall>c \<in> set (sr_History repo s u). sn_Revision c \<noteq> r \<Longrightarrow>
      sr_Restore repo s u i r now =
        (s, empty_SettingsSyncSnapshot, Some ErrSettingsSyncRevisionNotFound)"
    and restore_new: "inv s \<Longrightarrow> src \<in> set (sr_History repo s u) \<Longrightarrow> sn_Revision src = r \<Longrightarrow>
      sn_ContentHash src \<noteq> sn_ContentHash (hd (sr_History repo s u)) \<Longrightarrow>
      revision_of (sr_Current repo s u) < int64_max \<Longrightarrow>
      n = new_snapshot (sr_Current repo s u) i (sn_AppVersion src) (sn_ContentHash src)
            (sn_Payload src) now \<Longrightarrow>
      \<exists>s'. sr_Restore repo s u i r now = (s', n, None) \<and> inv s' \<and>
           records_new (sr_History repo) s u (stored n) s'"
begin

lemma current_after_new:
  "inv s' \<Longrightarrow> records_new (sr_History repo) s u n s' \<Longrightarrow> sr_Current repo s' u = Some n"
  by (simp add: current_heads records_new_def)

lemma frame_after_new:
  "inv s \<Longrightarrow> inv s' \<Longrightarrow> records_new (sr_History repo) s u n s' \<Longrightarrow> v \<noteq> u \<Longrightarrow>
   sr_Current repo s' v = sr_Current repo s v"
  by (simp add: current_heads records_new_def)

text \<open>Optimistic concurrency: of two writes made against one revision the later conflicts
  and is told the snapshot the earlier one left.\<close>

lemma second_writer_conflicts:
  assumes "inv s" and "base = revision_of (sr_Current repo s u)"
    and "\<And>c. sr_Current repo s u = Some c \<Longrightarrow> sn_ContentHash c \<noteq> h"
    and "revision_of (sr_Current repo s u) < int64_max" and "acceptable p"
  shows "\<exists>s1 n. sr_Put repo s u i base force a h p now = (s1, n, None) \<and>
           sr_Put repo s1 u i' base False a' h' p' now' =
             (s1, stored n, Some ErrSettingsSyncConflict)"
proof -
  define n where "n = new_snapshot (sr_Current repo s u) i a h p now"
  obtain s1 where s1: "sr_Put repo s u i base force a h p now = (s1, n, None)" "inv s1"
      "records_new (sr_History repo) s u (stored n) s1"
    using put_new [OF assms(1) _ assms(3-5) n_def, of force base] assms(2) by blast
  have cur: "sr_Current repo s1 u = Some (stored n)"
    using current_after_new s1 by blast
  hence "base \<noteq> revision_of (sr_Current repo s1 u)"
    using assms(2) by (simp add: revision_of_def stored_keeps n_def new_snapshot_def)
  hence "sr_Put repo s1 u i' base False a' h' p' now' =
           (s1, stored n, Some ErrSettingsSyncConflict)"
    using put_conflict [OF s1(2), of False base u i' a' h' p' now'] cur
    by (simp add: snapshot_or_empty_def)
  thus ?thesis using s1(1) by blast
qed

text \<open>A retained revision can be restored, and its content is then current under a new
  revision number, with the restored revision still in the history unless it was the oldest.\<close>

lemma restore_current:
  assumes "inv s" and "src \<in> set (sr_History repo s u)"
    and "sn_ContentHash src \<noteq> sn_ContentHash (hd (sr_History repo s u))"
    and "revision_of (sr_Current repo s u) < int64_max"
  shows "\<exists>s' n. sr_Restore repo s u i (sn_Revision src) now = (s', n, None) \<and>
           sr_Current repo s' u = Some (stored n) \<and>
           sn_ContentHash n = sn_ContentHash src \<and> sn_Payload n = sn_Payload src \<and>
           sn_Revision n = revision_of (sr_Current repo s u) + 1"
proof -
  define n where "n = new_snapshot (sr_Current repo s u) i (sn_AppVersion src)
                        (sn_ContentHash src) (sn_Payload src) now"
  obtain s' where "sr_Restore repo s u i (sn_Revision src) now = (s', n, None)" "inv s'"
      "records_new (sr_History repo) s u (stored n) s'"
    using restore_new [OF assms(1,2) refl assms(3,4) n_def] by blast
  thus ?thesis using current_after_new [of s'] by (auto simp: n_def new_snapshot_def)
qed

end

section \<open>The in-memory store meets the contract\<close>

definition user_ok :: "SettingsSyncUserState \<Rightarrow> bool" where
  "user_ok us = (case us_Current us of
       None \<Rightarrow> us_History us = []
     | Some c \<Rightarrow> 1 \<le> sn_Revision c \<and>
         int (length (us_History us)) = min (int MaxSettingsSyncHistory) (sn_Revision c - 1) \<and>
         (\<forall>i < length (us_History us). sn_Revision (us_History us ! i) = sn_Revision c - 1 - int i))"

definition sync_inv :: "SettingsSyncStore \<Rightarrow> bool" where
  "sync_inv s \<longleftrightarrow> wf_map (sy_Users s) \<and> (\<forall>u us. mget (sy_Users s) u = Some us \<longrightarrow> user_ok us)"

definition sync_rows :: "SettingsSyncUserState \<Rightarrow> SettingsSyncSnapshot list" where
  "sync_rows us = (case us_Current us of None \<Rightarrow> [] | Some c \<Rightarrow> [c]) @ us_History us"

lemma user_ok_empty [simp]: "user_ok \<lparr> us_Current = None, us_History = [] \<rparr>"
  by (simp add: user_ok_def)

lemma sync_inv_user: "sync_inv s \<Longrightarrow> user_ok (sync_userState s u)"
  by (auto simp: sync_inv_def sync_userState_def split: option.splits)

lemma user_ok_revision_nth:
  "user_ok us \<Longrightarrow> k < length (sync_rows us) \<Longrightarrow>
   sn_Revision (sync_rows us ! k) = revision_of (us_Current us) - int k"
  by (cases k) (auto simp: user_ok_def sync_rows_def revision_of_def split: option.splits)

lemma user_ok_sorted:
  "user_ok us \<Longrightarrow> sorted_wrt (\<lambda>a b. \<not> sn_Revision b > sn_Revision a) (sync_rows us)"
  by (subst sorted_wrt_iff_nth_less) (auto simp: user_ok_revision_nth)

lemma sync_Current_userState: "sync_Current s u = us_Current (sync_userState s u)"
  by (simp add: sync_Current_def sync_userState_def split: option.splits)

lemma sync_History_rows:
  assumes "sync_inv s"
  shows "sync_History s u = sync_rows (sync_userState s u)"
proof (cases "mget (sy_Users s) u")
  case (Some us)
  hence "user_ok us" using assms by (simp add: sync_inv_def)
  thus ?thesis using Some sortSlice_sorted [OF user_ok_sorted [of us]]
    by (simp add: sync_History_def sync_userState_def sync_rows_def)
qed (simp add: sync_History_def sync_userState_def sync_rows_def)

lemma user_ok_push:
  assumes "user_ok us" and "revision_of (us_Current us) < int64_max"
    and "sn_Revision n = revision_of (us_Current us) + 1"
  shows "user_ok \<lparr> us_Current = Some n, us_History = take MaxSettingsSyncHistory (sync_rows us) \<rparr>"
proof -
  have len: "int (length (sync_rows us)) \<le> revision_of (us_Current us)"
    "int (length (sync_rows us)) \<ge> min (int MaxSettingsSyncHistory) (revision_of (us_Current us))"
    "0 \<le> revision_of (us_Current us)"
    using assms(1) by (auto simp: user_ok_def sync_rows_def revision_of_def split: option.splits)
  show ?thesis using len assms(3) user_ok_revision_nth [OF assms(1)]
    by (auto simp: user_ok_def)
qed

text \<open>The effect of a write that reaches the end of \<^const>\<open>sync_putLocked\<close>.\<close>

lemma sync_putLocked_new:
  assumes inv: "sync_inv s" and base: "force \<or> base = revision_of (sync_Current s u)"
    and hash: "\<And>c. sync_Current s u = Some c \<Longrightarrow> sn_ContentHash c \<noteq> h"
    and room: "revision_of (sync_Current s u) < int64_max"
    and n: "n = new_snapshot (sync_Current s u) i a h p now"
  shows "\<exists>s'. sync_putLocked s u i base force a h p now = (s', n, None) \<and> sync_inv s' \<and>
           records_new sync_History s u n s'"
proof -
  define us where "us = sync_userState s u"
  define s' where "s' = s\<lparr> sy_Users := mput u \<lparr> us_Current = Some n,
      us_History = take MaxSettingsSyncHistory (sync_rows us) \<rparr> (sy_Users s) \<rparr>"
  have ok: "user_ok us" unfolding us_def by (rule sync_inv_user [OF inv])
  have cur: "sync_Current s u = us_Current us" by (simp add: us_def sync_Current_userState)
  have "0 \<le> revision_of (us_Current us)"
    using ok by (auto simp: user_ok_def revision_of_def split: option.splits)
  hence wrap: "wrap64 (revision_of (us_Current us) + 1) = revision_of (us_Current us) + 1"
    using room cur by (simp add: wrap64_Suc)
  have "sync_putLocked s u i base force a h p now = (s', n, None)"
  proof (cases "us_Current us")
    case None
    thus ?thesis using base hash cur wrap ok
      by (simp add: sync_putLocked_def sync_persistLocked_def Let_def us_def [symmetric] s'_def n
          new_snapshot_def revision_of_def sync_rows_def user_ok_def)
  next
    case (Some c)
    thus ?thesis using base hash cur wrap ok
      by (auto simp: sync_putLocked_def sync_persistLocked_def Let_def us_def [symmetric] s'_def n
          new_snapshot_def revision_of_def sync_rows_def)
  qed
  moreover have inv': "sync_inv s'"
    using inv user_ok_push [OF ok, of n] room cur n
    by (auto simp: sync_inv_def s'_def new_snapshot_def)
  moreover have "records_new sync_History s u n s'"
    using inv inv'
    by (auto simp: records_new_def sync_History_rows sync_userState_def s'_def sync_rows_def us_def)
  ultimately show ?thesis by blast
qed

lemma sync_source_find:
  assumes "user_ok us"
  shows "(case us_Current us of
      Some c \<Rightarrow> if sn_Revision c = r then Some c else find (\<lambda>h. sn_Revision h = r) (us_History us)
    | None \<Rightarrow> find (\<lambda>h. sn_Revision h = r) (us_History us)) = find (\<lambda>h. sn_Revision h = r) (sync_rows us)"
  by (auto simp: sync_rows_def split: option.splits)

lemma sync_rows_unique:
  assumes "user_ok us" "a \<in> set (sync_rows us)" "b \<in> set (sync_rows us)" "sn_Revision a = sn_Revision b"
  shows "a = b"
proof -
  obtain j k where "j < length (sync_rows us)" "k < length (sync_rows us)"
      "a = sync_rows us ! j" "b = sync_rows us ! k"
    using assms(2,3) by (metis in_set_conv_nth)
  thus ?thesis using user_ok_revision_nth [OF assms(1), of j] user_ok_revision_nth [OF assms(1), of k]
      assms(4) by simp
qed

lemma sync_find_row:
  assumes "user_ok us" "src \<in> set (sync_rows us)" "sn_Revision src = r"
  shows "find (\<lambda>h. sn_Revision h = r) (sync_rows us) = Some src"
proof -
  have "find (\<lambda>h. sn_Revision h = r) (sync_rows us) \<noteq> None"
    using assms(2,3) by (auto simp: find_None_iff)
  then obtain x where x: "find (\<lambda>h. sn_Revision h = r) (sync_rows us) = Some x" by blast
  hence "x \<in> set (sync_rows us)" "sn_Revision x = r" by (auto simp: find_Some_iff)
  thus ?thesis using sync_rows_unique [OF assms(1) _ assms(2), of x] assms(3) x by simp
qed

interpretation mem_sync: settings_sync_repository memory_sync sync_inv "\<lambda>n. n" "\<lambda>_. True"
proof (unfold_locales, goal_cases)
  case (3 s u) thus ?case
    using sync_inv_user [OF 3, of u]
    by (auto simp: memory_sync_def sync_History_rows sync_Current_userState sync_rows_def user_ok_def
        split: option.splits)
next
  case (4 s u) thus ?case
    using sync_inv_user [OF 4, of u]
    by (auto simp: memory_sync_def sync_History_rows sync_rows_def user_ok_def split: option.splits)
next
  case (5 s k u) thus ?case
    using sync_inv_user [OF 5(1), of u]
    by (simp add: memory_sync_def sync_History_rows sync_Current_userState user_ok_revision_nth)
next
  case (6 s u) thus ?case
    using sync_inv_user [OF 6, of u]
    by (auto simp: memory_sync_def sync_Current_userState user_ok_def revision_of_def
        split: option.splits)
next
  case (7 s force base u i a h p now) thus ?case
    by (auto simp: memory_sync_def sync_Put_def sync_putLocked_def Let_def sync_Current_userState
        revision_of_def snapshot_or_empty_def split: option.splits)
next
  case (8 s force base u c h i a p now) thus ?case
    by (auto simp: memory_sync_def sync_Put_def sync_putLocked_def Let_def sync_Current_userState
        revision_of_def snapshot_or_empty_def split: option.splits)
next
  case (9 s force base u h p n i a now) thus ?case
    using sync_putLocked_new [of s force base u h n i a p now]
    by (simp add: memory_sync_def sync_Put_def)
next
  case (10 s u r i now)
  hence "find (\<lambda>h. sn_Revision h = r) (sync_rows (sync_userState s u)) = None"
    by (simp add: memory_sync_def sync_History_rows find_None_iff)
  thus ?case using sync_source_find [OF sync_inv_user [OF 10(1), of u], of r]
    by (auto simp: memory_sync_def sync_Restore_def Let_def sync_userState_def split: option.splits)
next
  case (11 s src u r n i now)
  hence src: "src \<in> set (sync_rows (sync_userState s u))"
    by (simp add: memory_sync_def sync_History_rows)
  have some: "sync_Restore s u i r now = sync_putLocked s u i (revision_of (sync_Current s u)) True
      (sn_AppVersion src) (sn_ContentHash src) (sn_Payload src) now"
    using sync_source_find [OF sync_inv_user [OF 11(1), of u], of r]
      sync_find_row [OF sync_inv_user [OF 11(1)] src 11(3)] src
    by (auto simp: sync_Restore_def Let_def sync_userState_def sync_Current_def revision_of_def
        sync_rows_def split: option.splits)
  have hash: "sn_ContentHash c \<noteq> sn_ContentHash src" if "sync_Current s u = Some c" for c
    using 11(1,4) that
    by (simp add: memory_sync_def sync_History_rows sync_Current_userState sync_rows_def)
  show ?case
    using sync_putLocked_new [OF 11(1) _ hash, of True] 11(5,6) some
    by (simp add: memory_sync_def)
qed (auto simp: memory_sync_def)

end
