(* ===== verification/Settings_Sync_Spec.thy ===== *)
theory Settings_Sync_Spec
  imports Settings_Sync_Store
begin

text \<open>
  An abstract specification of settings sync, and that the in-memory store implements it. The
  specification keeps for each user the log of all accepted changes, newest first, and numbers a
  change by its position in that log. Reads and restores reach the newest
  \<open>MaxSettingsSyncHistory + 1\<close> entries.
\<close>

section \<open>Operations as data\<close>

datatype sync_op =
    SyncPut string string int bool string string string gotime
  | SyncRestore string string int gotime

fun sync_user :: "sync_op \<Rightarrow> string" where
  "sync_user (SyncPut u i base force a h p now) = u"
| "sync_user (SyncRestore u i r now) = u"

fun sync_step :: "SettingsSyncStore \<Rightarrow> sync_op \<Rightarrow> SettingsSyncStore sync_result" where
  "sync_step s (SyncPut u i base force a h p now) = sync_Put s u i base force a h p now"
| "sync_step s (SyncRestore u i r now) = sync_Restore s u i r now"

section \<open>The specification\<close>

type_synonym sync_log = "string \<Rightarrow> SettingsSyncSnapshot list"

abbreviation kept :: "SettingsSyncSnapshot list \<Rightarrow> SettingsSyncSnapshot list" where
  "kept l \<equiv> take (MaxSettingsSyncHistory + 1) l"

definition spec_current :: "SettingsSyncSnapshot list \<Rightarrow> SettingsSyncSnapshot option" where
  "spec_current l = (case l of [] \<Rightarrow> None | c # _ \<Rightarrow> Some c)"

definition spec_write :: "sync_log \<Rightarrow> string \<Rightarrow> string \<Rightarrow> string \<Rightarrow> string \<Rightarrow> string \<Rightarrow> gotime
    \<Rightarrow> sync_log sync_result" where
  "spec_write lg u i a h p now =
    (case lg u of
       c # _ \<Rightarrow> if sn_ContentHash c = h then (lg, c, None) else
         (let n = \<lparr> sn_Revision = int (length (lg u)) + 1, sn_UpdatedAt = now,
                    sn_UpdatedByInstallationID = i, sn_AppVersion = a, sn_ContentHash = h,
                    sn_Payload = p \<rparr>
          in (lg(u := n # lg u), n, None))
     | [] \<Rightarrow>
         (let n = \<lparr> sn_Revision = 1, sn_UpdatedAt = now,
                    sn_UpdatedByInstallationID = i, sn_AppVersion = a, sn_ContentHash = h,
                    sn_Payload = p \<rparr>
          in (lg(u := [n]), n, None)))"

fun spec_step :: "sync_log \<Rightarrow> sync_op \<Rightarrow> sync_log sync_result" where
  "spec_step lg (SyncPut u i base force a h p now) =
     (if \<not> force \<and> base \<noteq> int (length (lg u))
      then (lg, snapshot_or_empty (spec_current (lg u)), Some ErrSettingsSyncConflict)
      else spec_write lg u i a h p now)"
| "spec_step lg (SyncRestore u i r now) =
     (if 1 \<le> r \<and> r \<le> int (length (lg u)) \<and> int (length (lg u)) - r \<le> int MaxSettingsSyncHistory
      then (let src = lg u ! nat (int (length (lg u)) - r)
            in spec_write lg u i (sn_AppVersion src) (sn_ContentHash src) (sn_Payload src) now)
      else (lg, empty_SettingsSyncSnapshot, Some ErrSettingsSyncRevisionNotFound))"

fun sync_run :: "('s \<Rightarrow> sync_op \<Rightarrow> 's sync_result) \<Rightarrow> 's \<Rightarrow> sync_op list
    \<Rightarrow> 's \<times> (SettingsSyncSnapshot \<times> err option) list" where
  "sync_run step s [] = (s, [])"
| "sync_run step s (x # xs) =
     (let (s', out) = step s x; (s'', outs) = sync_run step s' xs in (s'', out # outs))"

text \<open>Two devices write against revision 0, the loser retries, and the first content is
  restored.\<close>

definition example_ops :: "sync_op list" where
  "example_ops = [SyncPut ''u'' ''a'' 0 False ''1'' ''h1'' ''{}'' 5,
     SyncPut ''u'' ''b'' 0 False ''1'' ''h2'' ''{}'' 6,
     SyncPut ''u'' ''b'' 1 False ''1'' ''h2'' ''{}'' 7, SyncRestore ''u'' ''a'' 1 8]"

section \<open>Simulation\<close>

definition log_ok :: "SettingsSyncSnapshot list \<Rightarrow> bool" where
  "log_ok l \<longleftrightarrow> (\<forall>k < length l. sn_Revision (l ! k) = int (length l) - int k)"

definition sync_sim :: "SettingsSyncStore \<Rightarrow> sync_log \<Rightarrow> bool" where
  "sync_sim s lg \<longleftrightarrow> sync_inv s \<and> (\<forall>u. sync_History s u = kept (lg u) \<and> log_ok (lg u))"

lemma sync_sim_init: "sync_sim newMemorySettingsSyncStore (\<lambda>_. [])"
  by (simp add: sync_sim_def sync_inv_def newMemorySettingsSyncStore_def sync_History_def log_ok_def)

lemma sync_sim_current:
  assumes "sync_sim s lg"
  shows "sync_Current s u = spec_current (lg u)"
    and "revision_of (sync_Current s u) = int (length (lg u))"
proof -
  have "sync_inv s" "sync_History s u = kept (lg u)" "log_ok (lg u)"
    using assms by (auto simp: sync_sim_def)
  thus cur: "sync_Current s u = spec_current (lg u)"
    using mem_sync.current_heads [of s u]
    by (cases "lg u") (auto simp: memory_sync_def spec_current_def)
  show "revision_of (sync_Current s u) = int (length (lg u))"
    using \<open>log_ok (lg u)\<close> unfolding cur
    by (cases "lg u") (auto simp: spec_current_def revision_of_def log_ok_def)
qed

lemma log_ok_push: "log_ok l \<Longrightarrow> sn_Revision n = int (length l) + 1 \<Longrightarrow> log_ok (n # l)"
  by (auto simp: log_ok_def nth_Cons split: nat.splits)

lemma sync_sim_write:
  assumes sim: "sync_sim s lg" and base: "force \<or> base = int (length (lg u))"
    and room: "int (length (lg u)) < int64_max"
  shows "\<exists>s' lg' n. sync_putLocked s u i base force a h p now = (s', n, None) \<and>
    spec_write lg u i a h p now = (lg', n, None) \<and> sync_sim s' lg' \<and>
    (\<forall>v. length (lg' v) \<le> Suc (length (lg v)))"
proof (cases "\<exists>c. sync_Current s u = Some c \<and> sn_ContentHash c = h")
  case True
  then obtain c where c: "sync_Current s u = Some c" "sn_ContentHash c = h" by blast
  have "sync_putLocked s u i base force a h p now = (s, c, None)"
    using mem_sync.put_unchanged [of s force base u c h i a p now] c sim base
      sync_sim_current [OF sim, of u]
    by (simp add: memory_sync_def sync_Put_def sync_sim_def)
  moreover have "spec_write lg u i a h p now = (lg, c, None)"
    using c sync_sim_current(1) [OF sim, of u]
    by (auto simp: spec_write_def spec_current_def split: list.splits)
  ultimately show ?thesis using sim by auto
next
  case False
  define n where "n = new_snapshot (sync_Current s u) i a h p now"
  obtain s' where s': "sync_putLocked s u i base force a h p now = (s', n, None)" "sync_inv s'"
      "records_new sync_History s u n s'"
    using sync_putLocked_new [of s force base u h n i a p now] False sim base room n_def
      sync_sim_current [OF sim, of u] by (auto simp: sync_sim_def)
  have rev: "sn_Revision n = int (length (lg u)) + 1"
    using sync_sim_current(2) [OF sim, of u] by (simp add: n_def new_snapshot_def)
  have "spec_write lg u i a h p now = (lg(u := n # lg u), n, None)"
    using False sync_sim_current [OF sim, of u]
    by (auto simp: spec_write_def spec_current_def n_def new_snapshot_def revision_of_def Let_def
        split: list.splits)
  moreover have "sync_sim s' (lg(u := n # lg u))"
    using sim s'(2,3) rev log_ok_push
    by (auto simp: sync_sim_def records_new_def MaxSettingsSyncHistory_def)
  ultimately show ?thesis using s'(1) by auto
qed

lemma kept_nth: "k < length (kept l) \<Longrightarrow> kept l ! k = l ! k"
  by simp

lemma sync_sim_source:
  assumes sim: "sync_sim s lg"
  shows "find (\<lambda>h. sn_Revision h = r) (sync_History s u) =
    (if 1 \<le> r \<and> r \<le> int (length (lg u)) \<and> int (length (lg u)) - r \<le> int MaxSettingsSyncHistory
     then Some (lg u ! nat (int (length (lg u)) - r)) else None)"
proof -
  have h: "sync_History s u = kept (lg u)" and ok: "log_ok (lg u)"
    using sim by (auto simp: sync_sim_def)
  have rev: "sn_Revision (kept (lg u) ! k) = int (length (lg u)) - int k"
    if "k < length (kept (lg u))" for k
    using ok that by (auto simp: log_ok_def)
  show ?thesis
  proof (cases "1 \<le> r \<and> r \<le> int (length (lg u)) \<and> int (length (lg u)) - r \<le> int MaxSettingsSyncHistory")
    case True
    define k where "k = nat (int (length (lg u)) - r)"
    have k1: "k < length (kept (lg u))" using True by (auto simp: k_def nat_less_iff)
    have k: "k < length (kept (lg u))" "sn_Revision (kept (lg u) ! k) = r"
      using True rev [OF k1] k1 by (auto simp: k_def)
    have "find (\<lambda>h. sn_Revision h = r) (kept (lg u)) = Some (kept (lg u) ! k)"
      unfolding find_Some_iff using k rev by (intro exI [of _ k]) auto
    thus ?thesis using True h k by (simp add: k_def)
  next
    case False
    have "sn_Revision (kept (lg u) ! k) \<noteq> r" if "k < length (kept (lg u))" for k
      using rev [OF that] that False by auto
    hence "find (\<lambda>h. sn_Revision h = r) (kept (lg u)) = None"
      by (auto simp: find_None_iff in_set_conv_nth)
    thus ?thesis using False h by simp
  qed
qed

lemma sync_Restore_source:
  assumes "sync_inv s"
  shows "sync_Restore s u i r now =
    (case find (\<lambda>h. sn_Revision h = r) (sync_History s u) of
       None \<Rightarrow> (s, empty_SettingsSyncSnapshot, Some ErrSettingsSyncRevisionNotFound)
     | Some src \<Rightarrow> sync_putLocked s u i (revision_of (sync_Current s u)) True
         (sn_AppVersion src) (sn_ContentHash src) (sn_Payload src) now)"
  using sync_source_find [OF sync_inv_user [OF assms, of u], of r]
  by (auto simp: sync_Restore_def sync_History_rows [OF assms] sync_userState_def sync_Current_def
      revision_of_def Let_def sync_rows_def split: option.splits)

lemma sync_sim_step:
  assumes sim: "sync_sim s lg" and room: "int (length (lg (sync_user x))) < int64_max"
  shows "\<exists>s' lg' out. sync_step s x = (s', out) \<and> spec_step lg x = (lg', out) \<and>
    sync_sim s' lg' \<and> (\<forall>v. length (lg' v) \<le> Suc (length (lg v)))"
proof (cases x)
  case (SyncPut u i base force a h p now)
  show ?thesis
  proof (cases "\<not> force \<and> base \<noteq> int (length (lg u))")
    case True
    thus ?thesis
      using SyncPut sim sync_sim_current [OF sim, of u]
        mem_sync.put_conflict [of s force base u i a h p now]
      by (auto simp: memory_sync_def sync_sim_def)
  next
    case False
    thus ?thesis using SyncPut sync_sim_write [OF sim, of force base u i a h p now] room
      by (auto simp: sync_Put_def)
  qed
next
  case (SyncRestore u i r now)
  let ?found = "1 \<le> r \<and> r \<le> int (length (lg u)) \<and>
                int (length (lg u)) - r \<le> int MaxSettingsSyncHistory"
  have inv: "sync_inv s" using sim by (simp add: sync_sim_def)
  show ?thesis
  proof (cases ?found)
    case True
    define src where "src = lg u ! nat (int (length (lg u)) - r)"
    have "sync_step s x = sync_putLocked s u i (int (length (lg u))) True
        (sn_AppVersion src) (sn_ContentHash src) (sn_Payload src) now"
      using True SyncRestore sync_sim_source [OF sim, of r u] sync_sim_current(2) [OF sim, of u]
      by (simp add: sync_Restore_source [OF inv] src_def)
    thus ?thesis using True SyncRestore room
        sync_sim_write [OF sim, of True "int (length (lg u))" u i "sn_AppVersion src"
          "sn_ContentHash src" "sn_Payload src" now]
      by (auto simp: src_def Let_def)
  next
    case False
    have "sync_step s x = (s, empty_SettingsSyncSnapshot, Some ErrSettingsSyncRevisionNotFound)"
      using False SyncRestore sync_sim_source [OF sim, of r u]
      by (auto simp: sync_Restore_source [OF inv])
    thus ?thesis using False SyncRestore sim by auto
  qed
qed

lemma sync_sim_run:
  assumes "sync_sim s lg" and "\<forall>u. int (length (lg u)) + int (length ops) \<le> int64_max"
  shows "snd (sync_run sync_step s ops) = snd (sync_run spec_step lg ops) \<and>
    sync_sim (fst (sync_run sync_step s ops)) (fst (sync_run spec_step lg ops))"
  using assms
proof (induction ops arbitrary: s lg)
  case (Cons x ops)
  have "int (length (lg (sync_user x))) < int64_max"
    using Cons.prems(2) by (auto dest: spec [of _ "sync_user x"])
  then obtain s' lg' out where *: "sync_step s x = (s', out)" "spec_step lg x = (lg', out)"
      "sync_sim s' lg'" "\<forall>v. length (lg' v) \<le> Suc (length (lg v))"
    using sync_sim_step [OF Cons.prems(1), of x] by blast
  have "\<forall>u. int (length (lg' u)) + int (length ops) \<le> int64_max"
  proof
    fix u
    show "int (length (lg' u)) + int (length ops) \<le> int64_max"
      using Cons.prems(2) *(4) by (auto dest!: spec [of _ u])
  qed
  thus ?case using Cons.IH [OF *(3)] *(1,2) by (simp add: split_beta)
qed simp

section \<open>Properties\<close>

text \<open>C1: Settings sync keeps, for each user, a log of accepted changes numbered from 1.
  Whatever sequence of writes and restores is made on a fresh in-memory store (shorter than the
  64-bit revision range), every answer and error is the specification's: a write conflicts
  exactly when it is not forced and its base is not the number of changes accepted so far, a
  write of the current content is accepted without a new revision, and a restore finds exactly
  the newest 21 revisions. The history read at the end is the newest 21 entries of the log.\<close>

theorem sync_store_refines_log:
  assumes "int (length ops) \<le> int64_max"
  shows "snd (sync_run sync_step newMemorySettingsSyncStore ops) =
           snd (sync_run spec_step (\<lambda>_. []) ops) \<and>
         sync_History (fst (sync_run sync_step newMemorySettingsSyncStore ops)) u =
           take (MaxSettingsSyncHistory + 1) (fst (sync_run spec_step (\<lambda>_. []) ops) u)"
  using sync_sim_run [OF sync_sim_init, of ops] assms by (auto simp: sync_sim_def)

theorem sync_store_refines_log_witness:
  "map snd (snd (sync_run sync_step newMemorySettingsSyncStore example_ops)) =
      [None, Some ErrSettingsSyncConflict, None, None] \<and>
   map sn_Revision (sync_History (fst (sync_run sync_step newMemorySettingsSyncStore example_ops)) ''u'') =
      [3, 2, 1]"
proof -
  have len: "int (length example_ops) \<le> int64_max" by (simp add: example_ops_def int64_max_def)
  show ?thesis
    unfolding conjunct1 [OF sync_store_refines_log [OF len]]
      conjunct2 [OF sync_store_refines_log [OF len]]
    by (simp add: example_ops_def spec_write_def Let_def MaxSettingsSyncHistory_def)
qed

text \<open>C17: No update is lost. When two devices write different content against the revision
  both have read, the first is accepted under the next revision, and the second, unless
  forced, changes nothing and is answered with a conflict and the first one's snapshot.\<close>

theorem sync_no_lost_update:
  assumes "sync_inv s" and "base = revision_of (sync_Current s u)"
    and "\<forall>c. sync_Current s u = Some c \<longrightarrow> sn_ContentHash c \<noteq> h"
    and "revision_of (sync_Current s u) < int64_max"
  shows "\<exists>s1 n. sync_Put s u i base force a h p now = (s1, n, None) \<and>
           sync_Put s1 u i' base False a' h' p' now' = (s1, n, Some ErrSettingsSyncConflict)"
  using mem_sync.second_writer_conflicts [of s base u h i force a p now i' a' h' p' now'] assms
  by (simp add: memory_sync_def)

theorem sync_no_lost_update_witness:
  "\<exists>s1 n. sync_Put newMemorySettingsSyncStore ''u'' ''a'' 0 False ''1'' ''h1'' ''{}'' 5 = (s1, n, None) \<and>
     sync_Put s1 ''u'' ''b'' 0 False ''1'' ''h2'' ''{}'' 6 = (s1, n, Some ErrSettingsSyncConflict)"
  by (rule sync_no_lost_update)
     (simp_all add: newMemorySettingsSyncStore_def sync_inv_def sync_Current_def revision_of_def
       int64_max_def)

end
