(* ===== verification/Spec2Isabelle.thy ===== *)
theory Spec2Isabelle
  imports Audit_Store Auth_Laws Auth_Properties Auth_Store Config_Model Credentials Delivery_Laws
    Delivery_Properties Delivery_Store Domain_Model Dotenv Go_Float Go_Netip Go_Prelude Go_Strings
    Http_Model Http_Properties Outbound Push_Socket Rate_Limiter Registration_Handlers
    Registration_Store Settings_Sync_Spec Settings_Sync_Store
begin

text \<open>
  This library models the push notification backend for Twitch channels under \<^verbatim>\<open>src/\<close>: a Go
  server that receives EventSub messages of Twitch, matches them against the registrations of
  devices, queues and delivers push notifications, keeps the settings of users in sync, and
  brokers the OAuth login of its mobile application.

  \<^bold>\<open>How the code is modelled.\<close> A struct is a record, an interface a record of functions, an
  operation under a lock a function from the state to the new state and its results, with
  errors as values. Times are nanoseconds as unbounded integers, 0 the zero time; 64-bit
  arithmetic that may wrap goes through \<^const>\<open>wrap64\<close>, \<^verbatim>\<open>float64\<close> through \<^const>\<open>fl64\<close>. A string is a
  list of bytes, a Go map an association list with distinct keys, in the order a range may
  visit it. What the code gets from outside is a parameter: clock readings, random bytes,
  SHA-256, the AEAD cipher (with \<^const>\<open>aead_correct\<close> as its documented law), Unicode tables beyond
  ASCII, the URL parser, DNS, the file system, and for the PostgreSQL stores whether the n-th
  database call of an operation succeeds. A PostgreSQL table is a list or a map of rows, and a
  statement is written out as what it does to them; a transaction that fails leaves them alone.

  \<^bold>\<open>Foundations.\<close>
  \<^item> \<open>Go_Prelude\<close>: durations, maps, sorting, trimming, with the lemmas the components share; the
    locale \<open>slice_order\<close> holds the laws of \<^verbatim>\<open>sort.Slice\<close> for a strict order.
  \<^item> \<open>Go_Strings\<close>: \<^verbatim>\<open>strings\<close>, \<^verbatim>\<open>strconv\<close>, UTF-8 decoding and encoding with their round trips.
  \<^item> \<open>Go_Float\<close>: \<^verbatim>\<open>float64\<close> rounding with its error bounds. \<open>Go_Netip\<close>: addresses and prefixes.
  \<^item> \<open>Domain_Model\<close>: the records, constants and errors of \<^verbatim>\<open>internal/domain\<close>.

  \<^bold>\<open>Stores.\<close> Each repository port is a locale whose assumptions are what callers rely on,
  interpreted on the stores.
  \<^item> \<open>Settings_Sync_Store\<close>, \<open>Settings_Sync_Spec\<close> (\<^verbatim>\<open>storage/memory/sync_store.go\<close>): optimistic
    concurrency on settings; the store refines a log of accepted changes, and no update is lost.
  \<^item> \<open>Delivery_Store\<close>, \<open>Delivery_Laws\<close>, \<open>Delivery_Properties\<close> (\<^verbatim>\<open>storage/memory/delivery_store.go\<close>): the
    queue of deliveries, the EventSub inbox and the channel states; an invariant of every run,
    one delivery per event and device, the retry schedule, and what is never lost.
  \<^item> \<open>Credentials\<close>, \<open>Auth_Store\<close>, \<open>Auth_Laws\<close>, \<open>Auth_Properties\<close> (\<^verbatim>\<open>storage/memory/auth_store.go\<close>): logins,
    handoffs, sessions and encrypted credentials; their invariant, single use of handoffs,
    which sessions are accepted, what a revocation removes, and the encryption round trip.
  \<^item> \<open>Registration_Store\<close> (\<^verbatim>\<open>storage/memory/store.go\<close>, \<^verbatim>\<open>storage/postgres/postgres_registration.go\<close>) and
    \<open>Audit_Store\<close> (\<^verbatim>\<open>audit_store.go\<close>, \<^verbatim>\<open>postgres_audit.go\<close>): both stores against one contract.

  \<^bold>\<open>Configuration and requests.\<close>
  \<^item> \<open>Dotenv\<close>, \<open>Config_Model\<close> (\<^verbatim>\<open>internal/config\<close>): the dotenv parser, the typed readers and the
    validation; the file format round trip and what an accepted configuration satisfies.
  \<^item> \<open>Rate_Limiter\<close>, \<open>Http_Model\<close> (\<^verbatim>\<open>application/rate_limit.go\<close>, parts of \<^verbatim>\<open>server.go\<close>): the token bucket
    in floating point, the client's address, the middleware; what a bucket lets through.
  \<^item> \<open>Outbound\<close> (\<^verbatim>\<open>security/outbound.go\<close>): only public addresses are dialed.
  \<^item> \<open>Http_Properties\<close>: what an accepted configuration guarantees of the limits of a client's
    requests, and that a client cannot choose the address it is limited under.

  \<^bold>\<open>Push transport.\<close>
  \<^item> \<open>Push_Socket\<close> (\<^verbatim>\<open>application/push_socket.go\<close>): WebSocket frames, the upgrade, the hub of open
    connections; what a client sends is what is read.
  \<^bold>\<open>Bounds and termination.\<close> No definition uses fuel. Loops are recursions on a list, or have a
  termination proof by the length of the rest of the input (parsers) or by the size of the
  table (eviction). Caps such as 50,000 deliveries are those of the code.

  \<^bold>\<open>Not modelled.\<close> The handlers of the HTTP interface beyond the shared part, the matching of
  EventSub events, the WebSocket connections, the clients of Twitch and of the push services,
  and the PostgreSQL stores of deliveries, settings and credentials. Goroutines, locks and
  contexts are not modelled: an operation under a lock is one step.
\<close>

end
